(* ===== verification/Prelude.thy ===== *)
theory Prelude
  imports Main "HOL-Library.Word" "HOL-Library.State_Monad" "HOL-Library.Monad_Syntax"
begin

text \<open>
  Shared vocabulary of the development.

  The library is a thin layer of C++ over Windows and asio.  Everything it calls that is
  not its own code (Win32, WinHTTP, http.sys, asio) is \<^emph>\<open>external\<close>: a component names
  each external entry point as a constructor of a call datatype, and the definitions of the
  component are parameterised by an oracle \<open>os\<close> that answers every call, given the complete
  history of earlier calls and answers.  A theorem that quantifies over \<open>os\<close> holds for every
  behaviour the platform may show.  The history itself is part of the state, so the calls a
  function makes, their order and their arguments are observable.

  This theory holds the integer types, error codes, the state record that every component
  extends, the monadic vocabulary with its simplification rules, and generic lemmas.
\<close>

section \<open>Integers, strings and error codes\<close>

type_synonym DWORD = "32 word"
type_synonym ULONG = "32 word"
type_synonym USHORT = "16 word"
type_synonym size_t = "64 word"
type_synonym HANDLE = "64 word"

lemma unat_ucast_small: "unat (w :: size_t) < 2 ^ 32 \<Longrightarrow> unat (ucast w :: DWORD) = unat w"
  by (simp add: unsigned_ucast_eq take_bit_nat_eq_self)

text \<open>A wide string is the list of its 16-bit code units; \<open>L\<close> is the \<open>L''...''\<close> literal.\<close>

type_synonym wstring = "16 word list"

definition L :: "string \<Rightarrow> wstring" where
  "L s = map of_char s"

lemma length_L [simp]: "length (L s) = length s"
  by (simp add: L_def)

text \<open>
  \<open>boost::system::error_code\<close>: every code of the library is built in the system category, so
  the value alone is kept.  The default constructed code is \<open>0\<close>, and the conversion to
  \<open>bool\<close> (and \<open>failed()\<close>) of that category is \<open>value != 0\<close>.
\<close>

type_synonym error_code = "32 word"

definition failed :: "error_code \<Rightarrow> bool" where
  "failed ec \<longleftrightarrow> ec \<noteq> 0"

lemma failed_0 [simp]: "\<not> failed 0"
  by (simp add: failed_def)

abbreviation (input) NO_ERROR :: DWORD where "NO_ERROR \<equiv> 0"
abbreviation (input) ERROR_HANDLE_EOF :: DWORD where "ERROR_HANDLE_EOF \<equiv> 38"
abbreviation (input) ERROR_INSUFFICIENT_BUFFER :: DWORD where "ERROR_INSUFFICIENT_BUFFER \<equiv> 122"
abbreviation (input) ERROR_PIPE_BUSY :: DWORD where "ERROR_PIPE_BUSY \<equiv> 231"
abbreviation (input) ERROR_MORE_DATA :: DWORD where "ERROR_MORE_DATA \<equiv> 234"
abbreviation (input) ERROR_PIPE_CONNECTED :: DWORD where "ERROR_PIPE_CONNECTED \<equiv> 535"
abbreviation (input) ERROR_IO_PENDING :: DWORD where "ERROR_IO_PENDING \<equiv> 997"
abbreviation (input) INVALID_HANDLE_VALUE :: HANDLE where "INVALID_HANDLE_VALUE \<equiv> - 1"

section \<open>Answers of external calls\<close>

text \<open>
  An answer has the returned value and the values written through out-parameters: a number
  (a handle, an identifier or a length) and wide text.
\<close>

record reply =
  rv :: "64 word"
  out_num :: "64 word"
  out_text :: wstring

definition truthy :: "('a) reply_scheme \<Rightarrow> bool" where
  "truthy r \<longleftrightarrow> rv r \<noteq> 0"

definition dword :: "('a) reply_scheme \<Rightarrow> DWORD" where
  "dword r = ucast (rv r)"

text \<open>Constructors of concrete answers, for running the model.\<close>

definition answer :: "64 word \<Rightarrow> reply" where
  "answer v = \<lparr>rv = v, out_num = 0, out_text = []\<rparr>"

definition answer_out :: "64 word \<Rightarrow> 64 word \<Rightarrow> reply" where
  "answer_out v n = \<lparr>rv = v, out_num = n, out_text = []\<rparr>"

lemma answer_simps [simp]:
  "rv (answer v) = v" "out_num (answer v) = 0" "out_text (answer v) = []"
  "rv (answer_out v n) = v" "out_num (answer_out v n) = n" "out_text (answer_out v n) = []"
  by (simp_all add: answer_def answer_out_def)

section \<open>State with a history of external calls\<close>

type_synonym ('c, 'r) history = "('c \<times> 'r) list"
type_synonym ('c, 'r) os = "('c, 'r) history \<Rightarrow> 'c \<Rightarrow> 'r"

text \<open>The history after one more call.\<close>

definition call_on :: "('c, 'r) os \<Rightarrow> 'c \<Rightarrow> ('c, 'r) history \<Rightarrow> ('c, 'r) history" where
  "call_on os c t = t @ [(c, os t c)]"

text \<open>
  \<open>trace\<close> is the history of external calls with their answers; \<open>violations\<close> records the
  message of every \<open>BOOST_ASSERT\<close> that was evaluated with a false condition.  Execution goes on
  after a failed assertion, as in a build with \<open>NDEBUG\<close>; a debug build stops at the first
  entry.  So ``no assertion fails'' is the statement that the list stays empty.
\<close>

record ('c, 'r) external =
  trace :: "('c \<times> 'r) list"
  violations :: "string list"

abbreviation ret :: "'a \<Rightarrow> ('s, 'a) state" where
  "ret \<equiv> State_Monad.return"

definition gets :: "('s \<Rightarrow> 'a) \<Rightarrow> ('s, 'a) state" where
  "gets f = State (\<lambda>s. (f s, s))"

definition modify :: "('s \<Rightarrow> 's) \<Rightarrow> ('s, unit) state" where
  "modify f = State (\<lambda>s. ((), f s))"

definition only_if :: "bool \<Rightarrow> ('s, unit) state \<Rightarrow> ('s, unit) state" where
  "only_if b m = (if b then m else ret ())"

definition invoke :: "('c, 'r) os \<Rightarrow> 'c \<Rightarrow> (('c, 'r, 'z) external_scheme, 'r) state" where
  "invoke os c = State (\<lambda>s. let r = os (trace s) c in (r, s\<lparr>trace := trace s @ [(c, r)]\<rparr>))"

definition boost_assert :: "bool \<Rightarrow> string \<Rightarrow> (('c, 'r, 'z) external_scheme, unit) state" where
  "boost_assert b msg = modify (\<lambda>s. if b then s else s\<lparr>violations := violations s @ [msg]\<rparr>)"

definition exec :: "('s, 'a) state \<Rightarrow> 's \<Rightarrow> 's" where
  "exec m s = snd (run_state m s)"

definition result :: "('s, 'a) state \<Rightarrow> 's \<Rightarrow> 'a" where
  "result m s = fst (run_state m s)"

named_theorems io_simps \<open>execution of monadic code\<close>

lemma run_gets [simp, io_simps]: "run_state (gets f) s = (f s, s)"
  by (simp add: gets_def)

lemma run_modify [simp, io_simps]: "run_state (modify f) s = ((), f s)"
  by (simp add: modify_def)

lemma run_only_if [simp, io_simps]:
  "run_state (only_if b m) s = (if b then run_state m s else ((), s))"
  by (simp add: only_if_def)

lemma run_invoke [simp, io_simps]:
  "run_state (invoke os c) s =
     (os (trace s) c, s\<lparr>trace := trace s @ [(c, os (trace s) c)]\<rparr>)"
  by (simp add: invoke_def Let_def)

lemma run_boost_assert [simp, io_simps]:
  "run_state (boost_assert b msg) s =
     ((), if b then s else s\<lparr>violations := violations s @ [msg]\<rparr>)"
  by (simp add: boost_assert_def)

lemma run_if [io_simps]:
  "run_state (if b then m else n) s = (if b then run_state m s else run_state n s)"
  by simp

lemma run_state_exec_result: "run_state m s = (result m s, exec m s)"
  by (simp add: exec_def result_def)

lemma exec_bind: "exec (m \<bind> f) s = exec (f (result m s)) (exec m s)"
  by (simp add: exec_def result_def split: prod.splits)

lemma result_bind: "result (m \<bind> f) s = result (f (result m s)) (exec m s)"
  by (simp add: exec_def result_def split: prod.splits)

lemma exec_ret [simp]: "exec (ret x) s = s" and result_ret [simp]: "result (ret x) s = x"
  by (simp_all add: exec_def result_def)

lemma exec_gets [simp]: "exec (gets f) s = s" and result_gets [simp]: "result (gets f) s = f s"
  by (simp_all add: exec_def result_def)

lemma exec_get [simp]: "exec State_Monad.get s = s" "result State_Monad.get s = s"
  by (simp_all add: exec_def result_def State_Monad.get_def)

lemma exec_modify [simp]: "exec (modify f) s = f s"
  by (simp add: exec_def)

lemma exec_only_if [simp]: "exec (only_if b m) s = (if b then exec m s else s)"
  by (simp add: exec_def)

lemma exec_invoke [simp]:
  "exec (invoke os c) s = s\<lparr>trace := trace s @ [(c, os (trace s) c)]\<rparr>"
  and result_invoke [simp]: "result (invoke os c) s = os (trace s) c"
  by (simp_all add: exec_def result_def)

lemma exec_boost_assert [simp]:
  "exec (boost_assert b msg) s =
     (if b then s else s\<lparr>violations := violations s @ [msg]\<rparr>)"
  by (simp add: exec_def)

lemmas exec_simps = exec_bind result_bind

section \<open>Observing what an operation does\<close>

text \<open>\<open>calls s\<close>: the external calls made so far; \<open>emitted m s\<close>: those \<open>m\<close> makes from \<open>s\<close>.\<close>

definition calls :: "('c, 'r, 'z) external_scheme \<Rightarrow> 'c list" where
  "calls s = map fst (trace s)"

definition emitted :: "(('c, 'r, 'z) external_scheme, 'a) state \<Rightarrow>
    ('c, 'r, 'z) external_scheme \<Rightarrow> 'c list" where
  "emitted m s = drop (length (trace s)) (calls (exec m s))"

lemma emitted_eq: "trace (exec m s) = trace s @ t \<Longrightarrow> emitted m s = map fst t"
  by (simp add: emitted_def calls_def)

text \<open>
  \<open>observe ob t\<close> collects what the observer \<open>ob\<close> sees in the calls of a history; \<open>adds ob xs m\<close>:
  from every state, \<open>m\<close> adds exactly the observations \<open>xs\<close>.
\<close>

definition observe :: "('c \<Rightarrow> 'x option) \<Rightarrow> ('c, 'r) history \<Rightarrow> 'x list" where
  "observe ob t = List.map_filter (\<lambda>e. ob (fst e)) t"

lemma observe_simps [simp]:
  "observe ob [] = []"
  "observe ob (t @ u) = observe ob t @ observe ob u"
  "observe ob ((c, r) # t) = (case ob c of None \<Rightarrow> observe ob t | Some x \<Rightarrow> x # observe ob t)"
  by (simp_all add: observe_def List.map_filter_def split: option.splits)

definition adds :: "('c \<Rightarrow> 'x option) \<Rightarrow> 'x list \<Rightarrow> (('c, 'r, 'z) external_scheme, 'a) state \<Rightarrow> bool" where
  "adds ob xs m \<longleftrightarrow> (\<forall>s. observe ob (trace (exec m s)) = observe ob (trace s) @ xs)"

lemma addsD: "adds ob xs m \<Longrightarrow> observe ob (trace (exec m s)) = observe ob (trace s) @ xs"
  by (simp add: adds_def)

named_theorems adds_intros \<open>observations of composed code\<close>

lemma adds_bind: "adds ob xs m \<Longrightarrow> (\<And>x. adds ob ys (f x)) \<Longrightarrow> adds ob (xs @ ys) (m \<bind> f)"
  by (simp add: adds_def exec_bind)

lemma adds_bind_left: "adds ob xs m \<Longrightarrow> (\<And>x. adds ob [] (f x)) \<Longrightarrow> adds ob xs (m \<bind> f)"
  using adds_bind [of ob xs m "[]" f] by simp

lemma adds_bind_right: "adds ob [] m \<Longrightarrow> (\<And>x. adds ob ys (f x)) \<Longrightarrow> adds ob ys (m \<bind> f)"
  using adds_bind [of ob "[]" m ys f] by simp

lemma adds_bind_nil [adds_intros]:
  "adds ob [] m \<Longrightarrow> (\<And>x. adds ob [] (f x)) \<Longrightarrow> adds ob [] (m \<bind> f)"
  by (rule adds_bind_left)

lemma adds_if [adds_intros]:
  "adds ob xs m \<Longrightarrow> adds ob xs n \<Longrightarrow> adds ob xs (if b then m else n)"
  by simp

lemma adds_basic [adds_intros]:
  "adds ob [] (ret x)" "adds ob [] (gets g)" "adds ob [] (boost_assert b msg)"
  by (simp_all add: adds_def)

lemma adds_only_if [adds_intros]: "adds ob [] m \<Longrightarrow> adds ob [] (only_if b m)"
  by (simp add: adds_def)

lemma adds_modify [adds_intros]: "(\<And>s. trace (f s) = trace s) \<Longrightarrow> adds ob [] (modify f)"
  by (simp add: adds_def)

lemma adds_invoke_none [adds_intros]: "ob c = None \<Longrightarrow> adds ob [] (invoke os c)"
  by (simp add: adds_def)

lemma adds_invoke: "ob c = Some x \<Longrightarrow> adds ob [x] (invoke os c)"
  by (simp add: adds_def)

text \<open>\<open>keeps f m\<close>: \<open>m\<close> leaves the part \<open>f\<close> of the state unchanged.\<close>

definition keeps :: "('s \<Rightarrow> 'x) \<Rightarrow> ('s, 'a) state \<Rightarrow> bool" where
  "keeps f m \<longleftrightarrow> (\<forall>s. f (exec m s) = f s)"

lemma keepsD: "keeps f m \<Longrightarrow> f (exec m s) = f s"
  by (simp add: keeps_def)

named_theorems keeps_intros \<open>parts of the state left unchanged by composed code\<close>

lemma keeps_bind [keeps_intros]: "keeps f m \<Longrightarrow> (\<And>x. keeps f (g x)) \<Longrightarrow> keeps f (m \<bind> g)"
  by (simp add: keeps_def exec_bind)

lemma keeps_if [keeps_intros]: "keeps f m \<Longrightarrow> keeps f n \<Longrightarrow> keeps f (if b then m else n)"
  by simp

lemma keeps_basic [keeps_intros]: "keeps f (ret x)" "keeps f (gets g)"
  by (simp_all add: keeps_def)

lemma keeps_only_if [keeps_intros]: "keeps f m \<Longrightarrow> keeps f (only_if b m)"
  by (simp add: keeps_def)

lemma keeps_modify [keeps_intros]: "(\<And>s. f (g s) = f s) \<Longrightarrow> keeps f (modify g)"
  by (simp add: keeps_def)

lemma keeps_external [keeps_intros]:
  "(\<And>s t. f (s\<lparr>trace := t\<rparr>) = f s) \<Longrightarrow> keeps f (invoke os c)"
  "(\<And>s v. f (s\<lparr>violations := v\<rparr>) = f s) \<Longrightarrow> keeps f (boost_assert b msg)"
  by (simp_all add: keeps_def)

end
