(* ===== verification/Winhttp_Handle.thy ===== *)
theory Winhttp_Handle
  imports Prelude
begin

text \<open>
  \<^verbatim>\<open>winhttp/winhttp.hpp\<close>: the owning handle \<open>basic_winhttp_handle\<close> and the session, connect and
  request handles derived from it.  One constructor of \<open>winhttp_call\<close> per WinHTTP or Win32
  entry point that the \<open>winhttp\<close> directory uses; the asio operations that the asynchronous
  layer performs (waiting on the event object, completing a handler) are external too and are
  listed with them.  C++ inheritance is record extension: every operation of a base class is
  defined on \<open>'z winhttp_handle_scheme\<close>.
\<close>

section \<open>External entry points\<close>

type_synonym HINTERNET = "64 word"
type_synonym DWORD_PTR = "64 word"
type_synonym INTERNET_PORT = "16 word"
type_synonym bytes = string

text \<open>Function pointers that can be installed as status callback.\<close>

datatype status_callback =
    BasicAsioAsyncCallback_ptr
  | Callback_ptr "64 word"

text \<open>The two forms of waiting composed operation, \<open>async_op\<close> and \<open>async_len_op\<close>.\<close>

datatype waiter = Async_op | Async_len_op

datatype winhttp_call =
    GetLastError
  | WinHttpOpen "wstring" DWORD "wstring option" "wstring option" DWORD
  | WinHttpConnect HINTERNET wstring INTERNET_PORT
  | WinHttpOpenRequest HINTERNET wstring "wstring option" "wstring option" "wstring option"
      "wstring list option" DWORD
  | WinHttpCloseHandle HINTERNET
  | WinHttpSetStatusCallback HINTERNET status_callback DWORD
  | WinHttpSetOption HINTERNET DWORD DWORD DWORD
  | WinHttpSendRequest HINTERNET "wstring option" DWORD "bytes option" DWORD DWORD DWORD_PTR
  | WinHttpReceiveResponse HINTERNET
  | WinHttpQueryDataAvailable HINTERNET
  | WinHttpReadData HINTERNET DWORD
  | WinHttpWriteData HINTERNET bytes DWORD
  | WinHttpQueryHeaders HINTERNET DWORD "DWORD option"
  | WinHttpAddRequestHeaders HINTERNET wstring DWORD DWORD
  | CreateEvent bool bool
  | SetEvent HANDLE
  | ResetEvent HANDLE
  | Event_async_wait HANDLE waiter
  | Object_handle_destroy HANDLE
  | Complete error_code size_t
  | Post_handler error_code size_t

type_synonym winhttp_os = "(winhttp_call, reply) os"

abbreviation (input) WINHTTP_ACCESS_TYPE_DEFAULT_PROXY :: DWORD where
  "WINHTTP_ACCESS_TYPE_DEFAULT_PROXY \<equiv> 0"
abbreviation (input) WINHTTP_FLAG_ASYNC :: DWORD where "WINHTTP_FLAG_ASYNC \<equiv> 0x10000000"
abbreviation (input) WINHTTP_FLAG_SECURE :: DWORD where "WINHTTP_FLAG_SECURE \<equiv> 0x00800000"
abbreviation (input) WINHTTP_CALLBACK_FLAG_ALL_COMPLETIONS :: DWORD where
  "WINHTTP_CALLBACK_FLAG_ALL_COMPLETIONS \<equiv> 0x007E0000"
abbreviation (input) WINHTTP_INVALID_STATUS_CALLBACK :: "64 word" where
  "WINHTTP_INVALID_STATUS_CALLBACK \<equiv> - 1"

section \<open>basic_winhttp_handle\<close>

record winhttp_handle = "(winhttp_call, reply) external" +
  handle :: HINTERNET

text \<open>The constructors: no handle yet.\<close>

definition new_handle :: winhttp_handle where
  "new_handle = \<lparr>trace = [], violations = [], handle = 0\<rparr>"

definition close :: "winhttp_os \<Rightarrow> ('z winhttp_handle_scheme, unit) state" where
  "close os = do {
     h \<leftarrow> gets handle;
     only_if (h \<noteq> 0) (do {
       ok \<leftarrow> invoke os (WinHttpCloseHandle h);
       only_if (\<not> truthy ok) (do {
         e \<leftarrow> invoke os GetLastError;
         boost_assert (\<not> failed (dword e)) ''close: !ec.failed()''
       })
     });
     modify (\<lambda>s. s\<lparr>handle := 0\<rparr>)
   }"

definition assign :: "winhttp_os \<Rightarrow> HINTERNET \<Rightarrow> ('z winhttp_handle_scheme, unit) state" where
  "assign os h = do {
     old \<leftarrow> gets handle;
     only_if (old \<noteq> 0) (close os);
     modify (\<lambda>s. s\<lparr>handle := h\<rparr>)
   }"

text \<open>Documented: closing a handle that is open succeeds.\<close>

definition closes_handles :: "winhttp_os \<Rightarrow> bool" where
  "closes_handles os \<longleftrightarrow> (\<forall>t h. truthy (os t (WinHttpCloseHandle h)))"

text \<open>The destructor closes the handle.\<close>

definition destroy_handle :: "winhttp_os \<Rightarrow> ('z winhttp_handle_scheme, unit) state" where
  "destroy_handle os = close os"

definition native_handle :: "('z winhttp_handle_scheme, HINTERNET) state" where
  "native_handle = gets handle"

text \<open>
  Error reporting shared by the wrappers: \<open>ec\<close> is an in-out parameter, overwritten with
  \<open>GetLastError()\<close> exactly when the call failed and left alone otherwise.
\<close>

definition check :: "winhttp_os \<Rightarrow> bool \<Rightarrow> error_code \<Rightarrow>
    ('z winhttp_handle_scheme, error_code) state" where
  "check os ok ec =
     (if \<not> ok then do { e \<leftarrow> invoke os GetLastError; ret (dword e) } else ret ec)"

definition set_status_callback :: "winhttp_os \<Rightarrow> status_callback \<Rightarrow> DWORD \<Rightarrow> error_code \<Rightarrow>
    ('z winhttp_handle_scheme, 64 word \<times> error_code) state" where
  "set_status_callback os cb flags ec = do {
     h \<leftarrow> native_handle;
     prev \<leftarrow> invoke os (WinHttpSetStatusCallback h cb flags);
     ec' \<leftarrow> check os (rv prev \<noteq> WINHTTP_INVALID_STATUS_CALLBACK) ec;
     ret (rv prev, ec')
   }"

definition set_status_callback_all :: "winhttp_os \<Rightarrow> status_callback \<Rightarrow> error_code \<Rightarrow>
    ('z winhttp_handle_scheme, 64 word \<times> error_code) state" where
  "set_status_callback_all os cb ec =
     set_status_callback os cb WINHTTP_CALLBACK_FLAG_ALL_COMPLETIONS ec"

text \<open>The only option buffer the library passes is a \<open>DWORD\<close>; \<open>buf\<close> is its content.\<close>

definition set_option :: "winhttp_os \<Rightarrow> DWORD \<Rightarrow> DWORD \<Rightarrow> DWORD \<Rightarrow> error_code \<Rightarrow>
    ('z winhttp_handle_scheme, error_code) state" where
  "set_option os opt buf len ec = do {
     h \<leftarrow> native_handle;
     ok \<leftarrow> invoke os (WinHttpSetOption h opt buf len);
     check os (truthy ok) ec
   }"

section \<open>Session and connect handles\<close>

definition session_open :: "winhttp_os \<Rightarrow> wstring \<Rightarrow> DWORD \<Rightarrow> wstring option \<Rightarrow>
    wstring option \<Rightarrow> DWORD \<Rightarrow> error_code \<Rightarrow> ('z winhttp_handle_scheme, error_code) state" where
  "session_open os agent access_type proxy_name proxy_bypass flags ec = do {
     hSession \<leftarrow> invoke os (WinHttpOpen agent access_type proxy_name proxy_bypass flags);
     if \<not> truthy hSession
     then do { e \<leftarrow> invoke os GetLastError; ret (dword e) }
     else do { assign os (rv hSession); ret ec }
   }"

definition session_open_default :: "winhttp_os \<Rightarrow> error_code \<Rightarrow>
    ('z winhttp_handle_scheme, error_code) state" where
  "session_open_default os ec =
     session_open os (L ''WinASIO'') WINHTTP_ACCESS_TYPE_DEFAULT_PROXY None None
       WINHTTP_FLAG_ASYNC ec"

definition connect :: "winhttp_os \<Rightarrow> HINTERNET \<Rightarrow> wstring \<Rightarrow> INTERNET_PORT \<Rightarrow> error_code \<Rightarrow>
    ('z winhttp_handle_scheme, error_code) state" where
  "connect os h_session url port ec = do {
     hConnect \<leftarrow> invoke os (WinHttpConnect h_session url port);
     if \<not> truthy hConnect
     then do { e \<leftarrow> invoke os GetLastError; ret (dword e) }
     else do { assign os (rv hConnect); ret ec }
   }"

section \<open>Request handle\<close>

definition request_open :: "winhttp_os \<Rightarrow> HINTERNET \<Rightarrow> wstring \<Rightarrow> wstring option \<Rightarrow>
    wstring option \<Rightarrow> wstring option \<Rightarrow> wstring list option \<Rightarrow> DWORD \<Rightarrow> error_code \<Rightarrow>
    ('z winhttp_handle_scheme, error_code) state" where
  "request_open os hConnect verb objname version referrer accept flags ec = do {
     hRequest \<leftarrow> invoke os (WinHttpOpenRequest hConnect verb objname version referrer accept flags);
     if \<not> truthy hRequest
     then do { e \<leftarrow> invoke os GetLastError; ret (dword e) }
     else do { assign os (rv hRequest); ret ec }
   }"

definition request_open_simple :: "winhttp_os \<Rightarrow> HINTERNET \<Rightarrow> wstring \<Rightarrow> wstring option \<Rightarrow>
    error_code \<Rightarrow> ('z winhttp_handle_scheme, error_code) state" where
  "request_open_simple os hConnect meth path ec =
     request_open os hConnect meth path None None None WINHTTP_FLAG_SECURE ec"

definition send :: "winhttp_os \<Rightarrow> wstring option \<Rightarrow> DWORD \<Rightarrow> bytes option \<Rightarrow> DWORD \<Rightarrow> DWORD \<Rightarrow>
    DWORD_PTR \<Rightarrow> error_code \<Rightarrow> ('z winhttp_handle_scheme, error_code) state" where
  "send os hdrs hlen opt optlen totlen ctx ec = do {
     h \<leftarrow> native_handle;
     ok \<leftarrow> invoke os (WinHttpSendRequest h hdrs hlen opt optlen totlen ctx);
     check os (truthy ok) ec
   }"

text \<open>
  \<open>cap\<close> is the value of \<open>*lpdwBufferLength\<close> on entry, \<open>None\<close> when the caller leaves it
  uninitialised and passes no buffer.  The answer carries the length written back and the
  buffer's content.
\<close>

definition query_headers :: "winhttp_os \<Rightarrow> DWORD \<Rightarrow> DWORD option \<Rightarrow> error_code \<Rightarrow>
    ('z winhttp_handle_scheme, reply \<times> error_code) state" where
  "query_headers os info cap ec = do {
     h \<leftarrow> native_handle;
     ok \<leftarrow> invoke os (WinHttpQueryHeaders h info cap);
     ec' \<leftarrow> check os (truthy ok) ec;
     ret (ok, ec')
   }"

definition query_data_available :: "winhttp_os \<Rightarrow> error_code \<Rightarrow>
    ('z winhttp_handle_scheme, error_code) state" where
  "query_data_available os ec = do {
     h \<leftarrow> native_handle;
     ok \<leftarrow> invoke os (WinHttpQueryDataAvailable h);
     check os (truthy ok) ec
   }"

definition read_data :: "winhttp_os \<Rightarrow> DWORD \<Rightarrow> error_code \<Rightarrow>
    ('z winhttp_handle_scheme, error_code) state" where
  "read_data os n ec = do {
     h \<leftarrow> native_handle;
     ok \<leftarrow> invoke os (WinHttpReadData h n);
     check os (truthy ok) ec
   }"

definition write_data :: "winhttp_os \<Rightarrow> bytes \<Rightarrow> DWORD \<Rightarrow> error_code \<Rightarrow>
    ('z winhttp_handle_scheme, error_code) state" where
  "write_data os buf n ec = do {
     h \<leftarrow> native_handle;
     ok \<leftarrow> invoke os (WinHttpWriteData h buf n);
     check os (truthy ok) ec
   }"

definition receive_response :: "winhttp_os \<Rightarrow> error_code \<Rightarrow>
    ('z winhttp_handle_scheme, error_code) state" where
  "receive_response os ec = do {
     h \<leftarrow> native_handle;
     ok \<leftarrow> invoke os (WinHttpReceiveResponse h);
     check os (truthy ok) ec
   }"

definition add_headers :: "winhttp_os \<Rightarrow> wstring \<Rightarrow> DWORD \<Rightarrow> DWORD \<Rightarrow> error_code \<Rightarrow>
    ('z winhttp_handle_scheme, error_code) state" where
  "add_headers os hdrs len modifiers ec = do {
     h \<leftarrow> native_handle;
     ok \<leftarrow> invoke os (WinHttpAddRequestHeaders h hdrs len modifiers);
     check os (truthy ok) ec
   }"

section \<open>Ownership\<close>

text \<open>
  The contract of an owning handle: the handles created so far are, in order of creation,
  those closed so far followed by the one held.  So none leaks and none is closed twice.
\<close>

fun creates :: "winhttp_call \<Rightarrow> bool" where
  "creates (WinHttpOpen _ _ _ _ _) = True"
| "creates (WinHttpConnect _ _ _) = True"
| "creates (WinHttpOpenRequest _ _ _ _ _ _ _) = True"
| "creates _ = False"

fun closes :: "winhttp_call \<Rightarrow> HINTERNET option" where
  "closes (WinHttpCloseHandle h) = Some h"
| "closes _ = None"

definition acquired :: "(winhttp_call, reply) history \<Rightarrow> HINTERNET list" where
  "acquired t = map (\<lambda>e. rv (snd e)) (filter (\<lambda>e. creates (fst e) \<and> rv (snd e) \<noteq> 0) t)"

definition released :: "(winhttp_call, reply) history \<Rightarrow> HINTERNET list" where
  "released t = List.map_filter (\<lambda>e. closes (fst e)) t"

definition held :: "'z winhttp_handle_scheme \<Rightarrow> HINTERNET list" where
  "held s = (if handle s = 0 then [] else [handle s])"

definition owns :: "'z winhttp_handle_scheme \<Rightarrow> bool" where
  "owns s \<longleftrightarrow> acquired (trace s) = released (trace s) @ held s"

lemma acquired_simps [simp]:
  "acquired [] = []"
  "acquired (t @ u) = acquired t @ acquired u"
  "acquired ((c, r) # t) = (if creates c \<and> rv r \<noteq> 0 then rv r # acquired t else acquired t)"
  by (simp_all add: acquired_def)

lemma released_simps [simp]:
  "released [] = []"
  "released (t @ u) = released t @ released u"
  "released ((c, r) # t) = (case closes c of None \<Rightarrow> released t | Some h \<Rightarrow> h # released t)"
  by (simp_all add: released_def List.map_filter_def split: option.splits)

lemma owns_new_handle: "owns new_handle"
  by (simp add: owns_def new_handle_def held_def)

text \<open>What closing does on each branch.\<close>

lemma close_empty: "handle s = 0 \<Longrightarrow> exec (close os) s = s"
  by (simp add: close_def exec_simps)

lemma close_handle [simp]: "handle (exec (close os) s) = 0"
  by (simp add: close_def exec_simps)

lemma close_released:
  "released (trace (exec (close os) s)) = released (trace s) @ held s"
  by (simp add: close_def exec_simps held_def)

lemma close_acquired [simp]: "acquired (trace (exec (close os) s)) = acquired (trace s)"
  by (simp add: close_def exec_simps)

lemma close_owns: "owns s \<Longrightarrow> owns (exec (close os) s)"
  by (simp add: owns_def close_released held_def [of "exec (close os) s"])

lemma assign_eq: "exec (assign os h) s = exec (close os) s\<lparr>handle := h\<rparr>"
  by (simp add: assign_def exec_simps close_empty)

text \<open>
  A wrapper that only forwards a call on the held handle neither creates nor closes: it
  extends the history by calls of neither kind and keeps the handle.
\<close>

definition forwards :: "('z winhttp_handle_scheme, 'a) state \<Rightarrow> bool" where
  "forwards m \<longleftrightarrow> (\<forall>s. handle (exec m s) = handle s \<and>
     acquired (trace (exec m s)) = acquired (trace s) \<and>
     released (trace (exec m s)) = released (trace s))"

lemma forwards_owns: "forwards m \<Longrightarrow> owns s \<Longrightarrow> owns (exec m s)"
  by (simp add: forwards_def owns_def held_def)

lemmas wrapper_defs = check_def set_status_callback_def set_status_callback_all_def set_option_def
  send_def query_headers_def query_data_available_def read_data_def write_data_def
  receive_response_def add_headers_def native_handle_def

lemma wrappers_forward:
  "forwards (set_status_callback os cb fl ec)"
  "forwards (set_option os opt buf len ec)"
  "forwards (send os hdrs hlen opt' optlen totlen ctx ec)"
  "forwards (query_headers os info cap ec)"
  "forwards (query_data_available os ec)"
  "forwards (read_data os n ec)"
  "forwards (write_data os buf' n ec)"
  "forwards (receive_response os ec)"
  "forwards (add_headers os hdrs' len modifiers ec)"
  by (simp_all add: forwards_def wrapper_defs exec_simps)

subsection \<open>The interface of an opening operation\<close>

text \<open>
  \<open>WinHttpOpen\<close>, \<open>WinHttpConnect\<close> and \<open>WinHttpOpenRequest\<close> are wrapped alike: one creating call;
  on a null answer the error is reported and the object keeps its handle, otherwise the
  object takes the new handle over and \<open>ec\<close> is left alone.
\<close>

locale handle_opener =
  fixes os :: winhttp_os
    and create :: winhttp_call
    and op :: "error_code \<Rightarrow> ('z winhttp_handle_scheme, error_code) state"
  assumes creating: "creates create"
    and not_closing: "closes create = None"
    and op_null: "rv (os (trace s) create) = 0 \<Longrightarrow> run_state (op ec) s =
      (let t = trace s @ [(create, os (trace s) create)]; e = os t GetLastError
       in (dword e, s\<lparr>trace := t @ [(GetLastError, e)]\<rparr>))"
    and op_created: "rv (os (trace s) create) \<noteq> 0 \<Longrightarrow> run_state (op ec) s =
      (ec, exec (assign os (rv (os (trace s) create)))
             (s\<lparr>trace := trace s @ [(create, os (trace s) create)]\<rparr>))"
begin

lemma op_owns:
  assumes "owns s"
  shows "owns (exec (op ec) s)"
proof (cases "rv (os (trace s) create) = 0")
  case True
  then show ?thesis using assms creating not_closing
    by (simp add: exec_def op_null Let_def owns_def held_def)
next
  case False
  then show ?thesis using assms creating not_closing
    by (simp add: exec_def [of "op ec"] op_created assign_eq owns_def close_released held_def)
qed

lemma op_holds_new:
  "rv (os (trace s) create) \<noteq> 0 \<Longrightarrow> handle (exec (op ec) s) = rv (os (trace s) create)"
  by (simp add: exec_def [of "op ec"] op_created assign_eq)

lemma op_keeps_on_error:
  "rv (os (trace s) create) = 0 \<Longrightarrow> handle (exec (op ec) s) = handle s"
  by (simp add: exec_def op_null Let_def)

end

interpretation session: handle_opener os "WinHttpOpen agent acc name bypass fl"
    "session_open os agent acc name bypass fl"
  by unfold_locales
    (simp_all add: session_open_def truthy_def Let_def run_state_exec_result exec_simps result_bind)

interpretation connection: handle_opener os "WinHttpConnect h_session url port"
    "connect os h_session url port"
  by unfold_locales
    (simp_all add: connect_def truthy_def Let_def run_state_exec_result exec_simps result_bind)

interpretation request: handle_opener os "WinHttpOpenRequest hC verb obj ver referrer accept fl"
    "request_open os hC verb obj ver referrer accept fl"
  by unfold_locales
    (simp_all add: request_open_def truthy_def Let_def run_state_exec_result exec_simps result_bind)

subsection \<open>Any sequence of operations on one object\<close>

datatype handle_cmd =
    Cmd_session_open wstring DWORD "wstring option" "wstring option" DWORD
  | Cmd_connect HINTERNET wstring INTERNET_PORT
  | Cmd_request_open HINTERNET wstring "wstring option" "wstring option" "wstring option"
      "wstring list option" DWORD
  | Cmd_close
  | Cmd_set_status_callback status_callback DWORD
  | Cmd_set_option DWORD DWORD DWORD
  | Cmd_send "wstring option" DWORD "bytes option" DWORD DWORD DWORD_PTR
  | Cmd_query_headers DWORD "DWORD option"
  | Cmd_query_data_available
  | Cmd_read_data DWORD
  | Cmd_write_data bytes DWORD
  | Cmd_receive_response
  | Cmd_add_headers wstring DWORD DWORD

fun run_cmd :: "winhttp_os \<Rightarrow> handle_cmd \<Rightarrow> ('z winhttp_handle_scheme, unit) state" where
  "run_cmd os (Cmd_session_open a acc n b fl) = do { _ \<leftarrow> session_open os a acc n b fl 0; ret () }"
| "run_cmd os (Cmd_connect h u p) = do { _ \<leftarrow> connect os h u p 0; ret () }"
| "run_cmd os (Cmd_request_open h v ob ver r acc fl) =
     do { _ \<leftarrow> request_open os h v ob ver r acc fl 0; ret () }"
| "run_cmd os Cmd_close = close os"
| "run_cmd os (Cmd_set_status_callback cb fl) =
     do { _ \<leftarrow> set_status_callback os cb fl 0; ret () }"
| "run_cmd os (Cmd_set_option opt b len) = do { _ \<leftarrow> set_option os opt b len 0; ret () }"
| "run_cmd os (Cmd_send h hl ob ol tot ctx) = do { _ \<leftarrow> send os h hl ob ol tot ctx 0; ret () }"
| "run_cmd os (Cmd_query_headers info cap) = do { _ \<leftarrow> query_headers os info cap 0; ret () }"
| "run_cmd os Cmd_query_data_available = do { _ \<leftarrow> query_data_available os 0; ret () }"
| "run_cmd os (Cmd_read_data n) = do { _ \<leftarrow> read_data os n 0; ret () }"
| "run_cmd os (Cmd_write_data b n) = do { _ \<leftarrow> write_data os b n 0; ret () }"
| "run_cmd os Cmd_receive_response = do { _ \<leftarrow> receive_response os 0; ret () }"
| "run_cmd os (Cmd_add_headers h len m) = do { _ \<leftarrow> add_headers os h len m 0; ret () }"

fun run_cmds :: "winhttp_os \<Rightarrow> handle_cmd list \<Rightarrow> ('z winhttp_handle_scheme, unit) state" where
  "run_cmds os [] = ret ()"
| "run_cmds os (c # cs) = do { run_cmd os c; run_cmds os cs }"

lemma run_cmd_owns: "owns s \<Longrightarrow> owns (exec (run_cmd os c) s)"
  by (cases c) (simp_all add: exec_bind session.op_owns connection.op_owns request.op_owns close_owns
      forwards_owns [OF wrappers_forward(1)] forwards_owns [OF wrappers_forward(2)]
      forwards_owns [OF wrappers_forward(3)] forwards_owns [OF wrappers_forward(4)]
      forwards_owns [OF wrappers_forward(5)] forwards_owns [OF wrappers_forward(6)]
      forwards_owns [OF wrappers_forward(7)] forwards_owns [OF wrappers_forward(8)]
      forwards_owns [OF wrappers_forward(9)])

lemma run_cmds_owns: "owns s \<Longrightarrow> owns (exec (run_cmds os cs) s)"
  by (induction cs arbitrary: s) (simp_all add: exec_bind run_cmd_owns)

text \<open>
  C8: for every behaviour of the platform and every sequence of operations on a WinHTTP handle
  object, once the object is destroyed each handle it was ever given by \<open>WinHttpOpen\<close>,
  \<open>WinHttpConnect\<close> or \<open>WinHttpOpenRequest\<close> has been passed to \<open>WinHttpCloseHandle\<close> exactly once, in
  the order in which the handles were created.
\<close>

theorem handles_closed_exactly_once:
  "let s = exec (do { run_cmds os cs; destroy_handle os }) new_handle
   in released (trace s) = acquired (trace s) \<and> handle s = 0"
  using run_cmds_owns [OF owns_new_handle, of os cs]
  by (simp add: exec_bind destroy_handle_def Let_def close_released owns_def)

end
