(* ===== verification/Winhttp_Objects.thy ===== *)
theory Winhttp_Objects
  imports Winhttp_Handle
begin

text \<open>
  \<^verbatim>\<open>winhttp/winhttp.hpp\<close>: a program with any number of session, connect and request objects.
  They share one history of WinHTTP calls, an object is constructed empty and destroyed at the
  end of its scope, and its member functions are those of its class.  \<open>HINTERNET\<close> is untyped, so
  nothing in C++ prevents a call that passes a handle of the wrong kind, or a handle that was
  closed.  The theorem of this theory is that no such call is made by a program whose objects
  are used according to their classes and get their parent's handle from a live parent object.
\<close>

section \<open>Objects\<close>

datatype object_kind = Session | Connect | Request

record winhttp_objects = "(winhttp_call, reply) external" +
  objects :: "(object_kind \<times> HINTERNET) list"

text \<open>The part of the state that a member function of object \<open>i\<close> works on, and its return.\<close>

definition view :: "nat \<Rightarrow> winhttp_objects \<Rightarrow> winhttp_handle" where
  "view i w = \<lparr>trace = trace w, violations = violations w, handle = snd (objects w ! i)\<rparr>"

definition put_back :: "nat \<Rightarrow> winhttp_handle \<Rightarrow> winhttp_objects \<Rightarrow> winhttp_objects" where
  "put_back i s w = w\<lparr>trace := trace s, violations := violations s,
     objects := (objects w)[i := (fst (objects w ! i), handle s)]\<rparr>"

definition on_object :: "nat \<Rightarrow> (winhttp_handle, 'a) state \<Rightarrow> (winhttp_objects, 'a) state" where
  "on_object i m = State (\<lambda>w. case run_state m (view i w) of (a, s) \<Rightarrow> (a, put_back i s w))"

text \<open>
  The constructors of the three classes pass their argument, an executor or a context, on to
  the base class: a new object holds no handle.
\<close>

definition construct :: "object_kind \<Rightarrow> (winhttp_objects, unit) state" where
  "construct k = modify (\<lambda>w. w\<lparr>objects := objects w @ [(k, handle new_handle)]\<rparr>)"

definition session_new :: "(winhttp_objects, unit) state" where
  "session_new = construct Session"

definition connect_new :: "(winhttp_objects, unit) state" where
  "connect_new = construct Connect"

definition request_new :: "(winhttp_objects, unit) state" where
  "request_new = construct Request"

text \<open>The end of a scope destroys the object constructed last.\<close>

definition destruct :: "winhttp_os \<Rightarrow> (winhttp_objects, unit) state" where
  "destruct os = do {
     n \<leftarrow> gets (\<lambda>w. length (objects w));
     on_object (n - 1) (destroy_handle os);
     modify (\<lambda>w. w\<lparr>objects := butlast (objects w)\<rparr>)
   }"

section \<open>Programs\<close>

text \<open>
  A statement: a declaration of an object, the end of its scope, a member function of object
  \<open>i\<close>, and the two member functions that take the handle of a parent object \<open>j\<close>.
\<close>

datatype statement =
    Declare object_kind
  | Leave_scope
  | Member nat handle_cmd
  | Connect_with nat nat wstring INTERNET_PORT
  | Open_with nat nat wstring "wstring option" "wstring option" "wstring option"
      "wstring list option" DWORD

fun run_statement :: "winhttp_os \<Rightarrow> statement \<Rightarrow> (winhttp_objects, unit) state" where
  "run_statement os (Declare Session) = session_new"
| "run_statement os (Declare Connect) = connect_new"
| "run_statement os (Declare Request) = request_new"
| "run_statement os Leave_scope = destruct os"
| "run_statement os (Member i c) = on_object i (run_cmd os c)"
| "run_statement os (Connect_with i j url port) = do {
     h \<leftarrow> on_object j native_handle;
     on_object i (run_cmd os (Cmd_connect h url port))
   }"
| "run_statement os (Open_with i j verb path ver ref acc fl) = do {
     h \<leftarrow> on_object j native_handle;
     on_object i (run_cmd os (Cmd_request_open h verb path ver ref acc fl))
   }"

fun run_program :: "winhttp_os \<Rightarrow> statement list \<Rightarrow> (winhttp_objects, unit) state" where
  "run_program os [] = ret ()"
| "run_program os (st # sts) = do { run_statement os st; run_program os sts }"

text \<open>Which member functions a class has, those with a parent's handle apart.\<close>

fun member :: "object_kind \<Rightarrow> handle_cmd \<Rightarrow> bool" where
  "member k Cmd_close = True"
| "member k (Cmd_set_status_callback _ _) = True"
| "member k (Cmd_set_option _ _ _) = True"
| "member k (Cmd_session_open _ _ _ _ _) = (k = Session)"
| "member k (Cmd_connect _ _ _) = False"
| "member k (Cmd_request_open _ _ _ _ _ _ _) = False"
| "member k _ = (k = Request)"

text \<open>
  The typing of a program: \<open>ks\<close> are the classes of the objects in scope.  A parent's handle comes
  from an object of the parent's class.
\<close>

fun scope :: "object_kind list \<Rightarrow> statement \<Rightarrow> object_kind list" where
  "scope ks (Declare k) = ks @ [k]"
| "scope ks Leave_scope = butlast ks"
| "scope ks _ = ks"

fun legal :: "object_kind list \<Rightarrow> statement \<Rightarrow> bool" where
  "legal ks (Declare k) = True"
| "legal ks Leave_scope = (ks \<noteq> [])"
| "legal ks (Member i c) = (i < length ks \<and> member (ks ! i) c)"
| "legal ks (Connect_with i j _ _) = (i < length ks \<and> j < length ks \<and> ks ! i = Connect \<and> ks ! j = Session)"
| "legal ks (Open_with i j _ _ _ _ _ _) =
     (i < length ks \<and> j < length ks \<and> ks ! i = Request \<and> ks ! j = Connect)"

fun well_typed :: "object_kind list \<Rightarrow> statement list \<Rightarrow> bool" where
  "well_typed ks [] = True"
| "well_typed ks (st # sts) = (legal ks st \<and> well_typed (scope ks st) sts)"

text \<open>A whole program: at its end the objects still in scope are destroyed.\<close>

definition program :: "statement list \<Rightarrow> statement list" where
  "program sts = sts @ replicate (length (foldl scope [] sts)) Leave_scope"

section \<open>Handles that are open\<close>

type_synonym open_handles = "HINTERNET \<rightharpoonup> object_kind"

fun opened_kind :: "winhttp_call \<Rightarrow> object_kind option" where
  "opened_kind (WinHttpOpen _ _ _ _ _) = Some Session"
| "opened_kind (WinHttpConnect _ _ _) = Some Connect"
| "opened_kind (WinHttpOpenRequest _ _ _ _ _ _ _) = Some Request"
| "opened_kind _ = None"

fun track :: "winhttp_call \<times> reply \<Rightarrow> open_handles \<Rightarrow> open_handles" where
  "track (c, r) m = (case opened_kind c of
       Some k \<Rightarrow> if rv r = 0 then m else m(rv r \<mapsto> k)
     | None \<Rightarrow> (case closes c of Some h \<Rightarrow> m(h := None) | None \<Rightarrow> m))"

definition open_after :: "(winhttp_call, reply) history \<Rightarrow> open_handles" where
  "open_after t = fold track t Map.empty"

text \<open>The handle a call works on, and the kinds of handle for which WinHTTP documents the call.\<close>

fun operand :: "winhttp_call \<Rightarrow> (HINTERNET \<times> object_kind list) option" where
  "operand (WinHttpConnect h _ _) = Some (h, [Session])"
| "operand (WinHttpOpenRequest h _ _ _ _ _ _) = Some (h, [Connect])"
| "operand (WinHttpCloseHandle h) = Some (h, [Session, Connect, Request])"
| "operand (WinHttpSetStatusCallback h _ _) = Some (h, [Session, Connect, Request])"
| "operand (WinHttpSetOption h _ _ _) = Some (h, [Session, Connect, Request])"
| "operand (WinHttpSendRequest h _ _ _ _ _ _) = Some (h, [Request])"
| "operand (WinHttpReceiveResponse h) = Some (h, [Request])"
| "operand (WinHttpQueryDataAvailable h) = Some (h, [Request])"
| "operand (WinHttpReadData h _) = Some (h, [Request])"
| "operand (WinHttpWriteData h _ _) = Some (h, [Request])"
| "operand (WinHttpQueryHeaders h _ _) = Some (h, [Request])"
| "operand (WinHttpAddRequestHeaders h _ _ _) = Some (h, [Request])"
| "operand _ = None"

text \<open>A null operand is reported by WinHTTP as an error; it stands for an object not opened.\<close>

definition typed_call :: "open_handles \<Rightarrow> winhttp_call \<Rightarrow> bool" where
  "typed_call m c = (case operand c of None \<Rightarrow> True
     | Some (h, ks) \<Rightarrow> h = 0 \<or> (case m h of None \<Rightarrow> False | Some k \<Rightarrow> k \<in> set ks))"

fun typed_from :: "open_handles \<Rightarrow> (winhttp_call, reply) history \<Rightarrow> bool" where
  "typed_from m [] = True"
| "typed_from m (e # t) = (typed_call m (fst e) \<and> typed_from (track e m) t)"

definition typed_history :: "(winhttp_call, reply) history \<Rightarrow> bool" where
  "typed_history t = typed_from Map.empty t"

lemma typed_from_append [simp]: "typed_from m (t @ u) = (typed_from m t \<and> typed_from (fold track t m) u)"
  by (induction t arbitrary: m) simp_all

lemma open_after_simps [simp]:
  "open_after [] = Map.empty"
  "open_after (t @ u) = fold track u (open_after t)"
  by (simp_all add: open_after_def)

lemma typed_history_simps [simp]:
  "typed_history []"
  "typed_history (t @ u) = (typed_history t \<and> typed_from (open_after t) u)"
  by (simp_all add: typed_history_def open_after_def)

text \<open>Documented of WinHTTP: a handle that is created is not one that is still open.\<close>

definition fresh_handles :: "winhttp_os \<Rightarrow> bool" where
  "fresh_handles os \<longleftrightarrow> (\<forall>t c. opened_kind c \<noteq> None \<longrightarrow> open_after t (rv (os t c)) = None)"

section \<open>What a member function does to the open handles\<close>

text \<open>
  \<open>among rest k s\<close>: the open handles are those of the other objects, \<open>rest\<close>, and the one the
  object holds, which is of kind \<open>k\<close>; no call so far had a wrong operand.
\<close>

definition plus_held :: "open_handles \<Rightarrow> object_kind \<Rightarrow> HINTERNET \<Rightarrow> open_handles" where
  "plus_held rest k h = (if h = 0 then rest else rest(h \<mapsto> k))"

definition among :: "open_handles \<Rightarrow> object_kind \<Rightarrow> winhttp_handle \<Rightarrow> bool" where
  "among rest k s \<longleftrightarrow> rest 0 = None \<and> rest (handle s) = None \<and>
     open_after (trace s) = plus_held rest k (handle s) \<and> typed_history (trace s)"

lemma any_kind [simp]: "k \<in> {Session, Connect, Request}" "k = Session \<or> k = Connect \<or> k = Request"
  by (cases k; simp)+

lemma close_closes:
  assumes "open_after (trace s) 0 = None" and "typed_history (trace s)"
    and "handle s \<noteq> 0 \<Longrightarrow> open_after (trace s) (handle s) \<noteq> None"
  shows "open_after (trace (exec (close os) s)) = (open_after (trace s))(handle s := None)"
    and "typed_history (trace (exec (close os) s))"
  using assms by (auto simp: close_def exec_simps typed_call_def fun_upd_idem)

lemma plus_held_simps [simp]:
  "rest h = None \<Longrightarrow> (plus_held rest k h)(h := None) = rest"
  "rest 0 = None \<Longrightarrow> plus_held rest k h 0 = None"
  "h \<noteq> 0 \<Longrightarrow> plus_held rest k h h = Some k"
  "plus_held rest k 0 = rest"
  by (auto simp: plus_held_def fun_upd_idem)

lemma plus_held_replace:
  assumes "rest 0 = None" and "rest h = None" and "v \<noteq> 0" and "v \<noteq> h"
  shows "(plus_held rest k h)(v \<mapsto> k, h := None) = plus_held rest k v"
  using assms by (auto simp: plus_held_def fun_eq_iff)

lemma among_close: "among rest k s \<Longrightarrow> among rest k (exec (close os) s)"
  by (simp add: among_def close_closes)

lemma wrapper_among:
  assumes "among rest k s"
  shows "among rest k (exec (set_status_callback os cb fl ec) s)"
    and "among rest k (exec (set_option os opt buf len ec) s)"
    and "k = Request \<Longrightarrow> among rest k (exec (send os hdrs hlen opt' optlen totlen ctx ec) s)"
    and "k = Request \<Longrightarrow> among rest k (exec (query_headers os info cap ec) s)"
    and "k = Request \<Longrightarrow> among rest k (exec (query_data_available os ec) s)"
    and "k = Request \<Longrightarrow> among rest k (exec (read_data os n ec) s)"
    and "k = Request \<Longrightarrow> among rest k (exec (write_data os buf' n ec) s)"
    and "k = Request \<Longrightarrow> among rest k (exec (receive_response os ec) s)"
    and "k = Request \<Longrightarrow> among rest k (exec (add_headers os hdrs' len modifiers ec) s)"
  using assms by (cases k; simp add: among_def wrapper_defs exec_simps plus_held_def typed_call_def)+

text \<open>The interface of an opening function, with the kind of handle it creates.\<close>

locale typed_opener = handle_opener os create op
  for os :: winhttp_os and create :: winhttp_call
    and op :: "error_code \<Rightarrow> (winhttp_handle, error_code) state" +
  fixes kind :: object_kind
  assumes creates_kind: "opened_kind create = Some kind"
begin

lemma op_among:
  assumes fresh: "fresh_handles os" and s: "among rest kind s"
    and operand: "typed_call (open_after (trace s)) create"
  shows "among rest kind (exec (op ec) s)"
proof (cases "rv (os (trace s) create) = 0")
  case True
  then show ?thesis using s operand creates_kind
    by (simp add: exec_def op_null Let_def among_def typed_call_def)
next
  case False
  let ?v = "rv (os (trace s) create)" and ?s = "s\<lparr>trace := trace s @ [(create, os (trace s) create)]\<rparr>"
  have new: "open_after (trace s) ?v = None"
    using fresh creates_kind by (auto simp: fresh_handles_def)
  have at: "open_after (trace ?s) = (plus_held rest kind (handle s))(?v \<mapsto> kind)" "typed_history (trace ?s)"
    using False s operand creates_kind by (simp_all add: among_def)
  have apart: "rest ?v = None" "?v \<noteq> handle s"
    using new s False by (auto simp: among_def plus_held_def split: if_splits)
  have "open_after (trace ?s) 0 = None" "handle s \<noteq> 0 \<Longrightarrow> open_after (trace ?s) (handle s) \<noteq> None"
    unfolding at using s False apart by (simp_all add: among_def)
  then have "open_after (trace (exec (close os) ?s)) = (open_after (trace ?s))(handle s := None)"
    "typed_history (trace (exec (close os) ?s))"
    using close_closes [of ?s os] at(2) by (simp_all del: open_after_simps typed_history_simps)
  moreover have "exec (op ec) s = exec (close os) ?s\<lparr>handle := ?v\<rparr>"
    using False by (simp add: exec_def [of "op ec"] op_created assign_eq)
  ultimately show ?thesis using False s apart unfolding at
    by (simp add: among_def plus_held_replace)
qed

end

interpretation session_objects: typed_opener os "WinHttpOpen agent acc name bypass fl"
    "session_open os agent acc name bypass fl" Session
  by unfold_locales simp

interpretation connect_objects: typed_opener os "WinHttpConnect h_session url port"
    "connect os h_session url port" Connect
  by unfold_locales simp

interpretation request_objects: typed_opener os "WinHttpOpenRequest hC verb obj ver referrer accept fl"
    "request_open os hC verb obj ver referrer accept fl" Request
  by unfold_locales simp

lemma member_among:
  assumes "fresh_handles os" and "among rest k s" and "member k c"
  shows "among rest k (exec (run_cmd os c) s)"
  using assms
  by (cases c) (simp_all add: exec_bind among_close wrapper_among session_objects.op_among typed_call_def)

lemma opener_among:
  assumes "fresh_handles os"
  shows "among rest Connect s \<Longrightarrow> h = 0 \<or> open_after (trace s) h = Some Session \<Longrightarrow>
      among rest Connect (exec (run_cmd os (Cmd_connect h url port)) s)"
    and "among rest Request s \<Longrightarrow> h = 0 \<or> open_after (trace s) h = Some Connect \<Longrightarrow>
      among rest Request (exec (run_cmd os (Cmd_request_open h verb path ver ref acc fl)) s)"
  by (auto simp: exec_bind typed_call_def intro!: connect_objects.op_among request_objects.op_among assms)

section \<open>The objects of a program\<close>

fun handles_of :: "(object_kind \<times> HINTERNET) list \<Rightarrow> open_handles" where
  "handles_of [] = Map.empty"
| "handles_of ((k, h) # obs) = plus_held (handles_of obs) k h"

fun apart :: "(object_kind \<times> HINTERNET) list \<Rightarrow> bool" where
  "apart [] = True"
| "apart ((k, h) # obs) = (handles_of obs h = None \<and> apart obs)"

text \<open>The invariant: exactly the handles held by objects are open, each held once.\<close>

definition kept :: "winhttp_objects \<Rightarrow> bool" where
  "kept w \<longleftrightarrow> apart (objects w) \<and> open_after (trace w) = handles_of (objects w) \<and> typed_history (trace w)"

lemma handles_of_null [simp]: "handles_of obs 0 = None"
  by (induction obs rule: handles_of.induct) (simp_all add: plus_held_def)

lemma handles_of_insert:
  "handles_of (xs @ ys) h = None \<Longrightarrow> handles_of (xs @ (k, h) # ys) = plus_held (handles_of (xs @ ys)) k h"
  by (induction xs rule: handles_of.induct) (auto simp: plus_held_def split: if_splits)

lemma apart_insert: "apart (xs @ (k, h) # ys) \<longleftrightarrow> handles_of (xs @ ys) h = None \<and> apart (xs @ ys)"
proof (induction xs rule: handles_of.induct)
  case (2 k' h' xs)
  then show ?case
    by (cases "handles_of (xs @ ys) h = None") (auto simp: handles_of_insert plus_held_def)
qed simp

lemma objects_split: "i < length obs \<Longrightarrow> obs = take i obs @ (fst (obs ! i), snd (obs ! i)) # drop (Suc i) obs"
  by (simp add: id_take_nth_drop)

text \<open>The other objects.\<close>

definition others :: "nat \<Rightarrow> winhttp_objects \<Rightarrow> open_handles" where
  "others i w = handles_of (take i (objects w) @ drop (Suc i) (objects w))"

lemma kept_view:
  assumes "kept w" and "i < length (objects w)"
  shows "among (others i w) (fst (objects w ! i)) (view i w)"
  using assms apart_insert [of "take i (objects w)"] handles_of_insert [of "take i (objects w)"]
    objects_split [OF assms(2)]
  by (metis (no_types, lifting) among_def handles_of_null kept_def others_def view_def
      winhttp_handle.simps(1) external.simps(1))

lemma kept_put_back:
  assumes w: "kept w" and i: "i < length (objects w)"
    and s: "among (others i w) (fst (objects w ! i)) s"
  shows "kept (put_back i s w)"
proof -
  let ?xs = "take i (objects w)" and ?ys = "drop (Suc i) (objects w)"
  have "apart (?xs @ ?ys)"
    using w apart_insert [of ?xs] objects_split [OF i] by (metis kept_def)
  then show ?thesis using s
    by (simp add: kept_def put_back_def others_def among_def apart_insert handles_of_insert
        upd_conv_take_nth_drop [OF i])
qed

lemma exec_on_object [simp]: "exec (on_object i m) w = put_back i (exec m (view i w)) w"
  and result_on_object [simp]: "result (on_object i m) w = result m (view i w)"
  by (simp_all add: on_object_def exec_def result_def split: prod.splits)

lemma put_back_frame [simp]:
  "length (objects (put_back i s w)) = length (objects w)"
  "map fst (objects (put_back i s w)) = map fst (objects w)"
proof -
  show "map fst (objects (put_back i s w)) = map fst (objects w)"
    by (cases "i < length (objects w)") (simp_all add: put_back_def map_update list_update_same_conv list_update_beyond)
qed (simp add: put_back_def)

lemma trace_view [simp]: "trace (view i w) = trace w"
  by (simp add: view_def)

lemma put_back_view [simp]: "put_back i (view i w) w = w"
  by (simp add: put_back_def view_def)

text \<open>Every statement of a well-typed program keeps the invariant and the classes in scope.\<close>

definition classes :: "winhttp_objects \<Rightarrow> object_kind list" where
  "classes w = map fst (objects w)"

lemma classes_on_object [simp]: "classes (exec (on_object i m) w) = classes w"
  by (simp add: classes_def)

lemma on_object_kept:
  assumes "kept w" and "i < length (objects w)"
    and "among (others i w) (fst (objects w ! i)) (view i w) \<Longrightarrow>
      among (others i w) (fst (objects w ! i)) (exec m (view i w))"
  shows "kept (exec (on_object i m) w)"
  using assms by (simp add: kept_put_back kept_view)

lemma construct_kept: "kept w \<Longrightarrow> kept (exec (construct k) w)"
  using apart_insert [of "objects w" k 0 "[]"] handles_of_insert [of "objects w" "[]" 0 k]
  by (simp add: construct_def kept_def new_handle_def)

lemma destruct_kept:
  assumes "kept w" and "objects w \<noteq> []"
  shows "kept (exec (destruct os) w)" and "classes (exec (destruct os) w) = butlast (classes w)"
proof -
  let ?i = "length (objects w) - 1" and ?s = "exec (close os) (view (length (objects w) - 1) w)"
  have i: "?i < length (objects w)" using assms(2) by simp
  have "butlast (objects w) @ [last (objects w)] = objects w" using assms(2) by simp
  then have split: "objects (put_back ?i ?s w) = butlast (objects w) @ [(fst (last (objects w)), 0)]"
    using assms(2) by (cases "objects w" rule: rev_cases) (simp_all add: put_back_def view_def)
  have "kept (put_back ?i ?s w)" by (intro kept_put_back assms(1) i among_close kept_view)
  with split show "kept (exec (destruct os) w)"
    using apart_insert [of "butlast (objects w)" _ 0 "[]"] handles_of_insert [of "butlast (objects w)" "[]" 0]
    by (simp add: destruct_def destroy_handle_def exec_simps kept_def)
  show "classes (exec (destruct os) w) = butlast (classes w)"
    by (simp add: destruct_def destroy_handle_def exec_simps classes_def map_butlast)
qed

lemma parent_handle:
  assumes "kept w" and "j < length (objects w)"
  shows "result (on_object j native_handle) w = 0 \<or>
    open_after (trace w) (result (on_object j native_handle) w) = Some (fst (objects w ! j))"
  using kept_view [OF assms]
  by (cases "snd (objects w ! j) = 0") (simp_all add: native_handle_def among_def view_def)

lemma run_declare [simp]: "run_statement os (Declare k) = construct k"
  by (cases k) (simp_all add: session_new_def connect_new_def request_new_def)

lemma exec_native_handle [simp]: "exec (on_object j native_handle) w = w"
  by (simp add: native_handle_def)

lemma statement_kept:
  assumes os: "fresh_handles os" and w: "kept w" and st: "legal (classes w) st"
  shows "kept (exec (run_statement os st) w) \<and>
    classes (exec (run_statement os st) w) = scope (classes w) st"
proof (cases st)
  case (Declare k)
  then show ?thesis using construct_kept [OF w, of k] st by (simp add: construct_def classes_def)
next
  case Leave_scope
  then show ?thesis using destruct_kept [OF w, of os] st by (simp add: classes_def)
next
  case (Member i c)
  then have "kept (exec (on_object i (run_cmd os c)) w)" using st
    by (intro on_object_kept w member_among os) (auto simp: classes_def)
  with Member show ?thesis using st by (simp add: classes_def)
next
  case (Connect_with i j url port)
  then have "fst (objects w ! i) = Connect" "i < length (objects w)" "j < length (objects w)"
    "fst (objects w ! j) = Session"
    using st by (auto simp: classes_def)
  note obs = this
  let ?h = "result (on_object j native_handle) w"
  have "kept (exec (on_object i (run_cmd os (Cmd_connect ?h url port))) w)"
    using obs parent_handle [OF w obs(3)]
    by (intro on_object_kept w) (auto simp del: run_cmd.simps result_on_object intro: opener_among(1) [OF os])
  with Connect_with obs show ?thesis by (simp add: exec_bind del: exec_on_object result_on_object run_cmd.simps)
next
  case (Open_with i j verb path ver ref acc fl)
  then have "fst (objects w ! i) = Request" "i < length (objects w)" "j < length (objects w)"
    "fst (objects w ! j) = Connect"
    using st by (auto simp: classes_def)
  note obs = this
  let ?h = "result (on_object j native_handle) w"
  have "kept (exec (on_object i (run_cmd os (Cmd_request_open ?h verb path ver ref acc fl))) w)"
    using obs parent_handle [OF w obs(3)]
    by (intro on_object_kept w) (auto simp del: run_cmd.simps result_on_object intro: opener_among(2) [OF os])
  with Open_with obs show ?thesis by (simp add: exec_bind del: exec_on_object result_on_object run_cmd.simps)
qed

lemma program_kept:
  assumes "fresh_handles os" and "kept w" and "well_typed (classes w) sts"
  shows "kept (exec (run_program os sts) w) \<and>
    classes (exec (run_program os sts) w) = foldl scope (classes w) sts"
  using assms(2,3)
proof (induction sts arbitrary: w)
  case (Cons st sts)
  then show ?case using statement_kept [OF assms(1), of w st] by (simp add: exec_bind)
qed simp

lemma leave_scopes: "foldl scope ks (replicate (length ks) Leave_scope) = []"
  by (induction ks rule: rev_induct) simp_all

lemma well_typed_append:
  "well_typed ks (sts @ us) = (well_typed ks sts \<and> well_typed (foldl scope ks sts) us)"
  by (induction sts arbitrary: ks) auto

lemma well_typed_leaves: "well_typed ks (replicate (length ks) Leave_scope)"
  by (induction ks rule: rev_induct) auto

lemma program_scope: "well_typed [] sts \<Longrightarrow> well_typed [] (program sts) \<and> foldl scope [] (program sts) = []"
  by (simp add: program_def well_typed_append well_typed_leaves leave_scopes)

definition no_objects :: winhttp_objects where
  "no_objects = \<lparr>trace = [], violations = [], objects = []\<rparr>"

lemma no_objects_kept [simp]: "kept no_objects" "classes no_objects = []"
  by (simp_all add: kept_def no_objects_def classes_def)

text \<open>
  C7: handles are used according to their type and lifetime.  Let a program declare any number of
  session, connect and request objects, call their member functions in any order with any
  arguments, and take the parent's handle of a connect or request object from a session or
  connect object in scope.  Whatever WinHTTP answers, as long as it does not hand out a handle
  that is still open, every call of the whole history that gets a handle gets null or a handle
  that is open at that moment and of a kind the call is documented for; and at the end, when the
  objects have left their scope, no handle is open.
\<close>

theorem handles_well_typed:
  assumes "fresh_handles os" and "well_typed [] sts"
  shows "let w = exec (run_program os (program sts)) no_objects
    in typed_history (trace w) \<and> open_after (trace w) = Map.empty \<and> objects w = []"
proof -
  have "kept (exec (run_program os (program sts)) no_objects) \<and>
      classes (exec (run_program os (program sts)) no_objects) = []"
    using program_kept [OF assms(1), of no_objects "program sts"] program_scope [OF assms(2)] by simp
  then show ?thesis by (auto simp: kept_def classes_def Let_def)
qed

text \<open>A platform that numbers its handles, and a client that reuses its request object.\<close>

definition newest :: "(winhttp_call, reply) history \<Rightarrow> HINTERNET" where
  "newest t = fold (\<lambda>e. max (rv (snd e))) t 0"

definition numbering_os :: winhttp_os where
  "numbering_os t c = answer (if newest t = - 1 then 0 else newest t + 1)"

lemma newest_snoc: "newest (t @ [e]) = max (rv (snd e)) (newest t)"
  by (simp add: newest_def)

lemma open_le_newest: "open_after t h = Some k \<Longrightarrow> h \<le> newest t"
proof (induction t rule: rev_induct)
  case (snoc e t)
  then show ?case
    by (cases e) (auto simp: newest_snoc max_def split: option.splits if_splits)
qed simp

lemma numbering_os_fresh: "fresh_handles numbering_os"
proof -
  have "open_after t (rv (numbering_os t c)) = None" for t c
  proof (cases "newest t = - 1")
    case True
    have "open_after t 0 = None"
      by (induction t rule: rev_induct) (auto split: option.splits)
    with True show ?thesis by (simp add: numbering_os_def)
  next
    case False
    then have "1 + newest t \<noteq> 0" using max_word_wrap [of "newest t"] by (metis add.commute)
    then have "\<not> newest t + 1 \<le> newest t"
      unfolding word_le_nat_alt add.commute [of _ 1] unatSuc [OF \<open>1 + newest t \<noteq> 0\<close>] by simp
    with False show ?thesis using open_le_newest [of t "newest t + 1"]
      by (cases "open_after t (newest t + 1)") (auto simp: numbering_os_def)
  qed
  then show ?thesis by (simp add: fresh_handles_def)
qed

theorem handles_well_typed_witness:
  "let sts = [Declare Session, Declare Connect, Declare Request, Member 0 (Cmd_session_open [] 0 None None 0),
       Connect_with 1 0 (L ''h'') 80, Open_with 2 1 (L ''GET'') None None None None 0,
       Member 2 (Cmd_send None 0 None 0 0 0), Open_with 2 1 (L ''PUT'') None None None None 0, Member 2 Cmd_close];
     w = exec (run_program numbering_os (program sts)) no_objects
   in typed_history (trace w) \<and> open_after (trace w) = Map.empty \<and> objects w = [] \<and> length (released (trace w)) = 4"
proof -
  let ?sts = "[Declare Session, Declare Connect, Declare Request, Member 0 (Cmd_session_open [] 0 None None 0),
       Connect_with 1 0 (L ''h'') 80, Open_with 2 1 (L ''GET'') None None None None 0,
       Member 2 (Cmd_send None 0 None 0 0 0), Open_with 2 1 (L ''PUT'') None None None None 0, Member 2 Cmd_close]"
  have "well_typed [] ?sts" by simp
  note holds = handles_well_typed [OF numbering_os_fresh this]
  have "length (released (trace (exec (run_program numbering_os (program ?sts)) no_objects))) = 4"
    by code_simp
  with holds show ?thesis by (simp only: Let_def simp_thms)
qed

end
