(* ===== verification/Compose_Op.thy ===== *)
theory Compose_Op
  imports Prelude
begin

text \<open>
  What the composed operations of the library have in common: the contract that
  \<open>asio::async_compose\<close> puts on the function object it drives, the dynamic buffers that the
  operations read into, and the driver that feeds an operation with completions.
\<close>

section \<open>Dynamic buffers\<close>

text \<open>
  The buffer type is a template parameter of the operations.  \<open>readable\<close> is what \<open>data()\<close>
  denotes, \<open>region\<close> the memory handed out by the latest \<open>prepare\<close>, \<open>store\<close> a write of the
  platform at the start of that memory.
\<close>

record 'b dynbuf_ops =
  prepare :: "'b \<Rightarrow> size_t \<Rightarrow> 'b"
  commit :: "'b \<Rightarrow> size_t \<Rightarrow> 'b"
  readable :: "'b \<Rightarrow> string"
  region :: "'b \<Rightarrow> string"
  store :: "'b \<Rightarrow> string \<Rightarrow> 'b"

text \<open>The documented requirements on a dynamic buffer (\<open>DynamicBuffer_v1\<close>).\<close>

definition dynbuf_ok :: "'b dynbuf_ops \<Rightarrow> bool" where
  "dynbuf_ok B \<longleftrightarrow>
     (\<forall>b n. readable B (prepare B b n) = readable B b \<and> length (region B (prepare B b n)) = unat n) \<and>
     (\<forall>b xs. length xs \<le> length (region B b) \<longrightarrow>
        readable B (store B b xs) = readable B b \<and>
        region B (store B b xs) = xs @ drop (length xs) (region B b)) \<and>
     (\<forall>b n. unat n \<le> length (region B b) \<longrightarrow>
        readable B (commit B b n) = readable B b @ take (unat n) (region B b))"

text \<open>A vector-backed buffer: the committed bytes and the rest of the vector.\<close>

datatype vector_buffer = Vector_buffer (vb_committed: string) (vb_tail: string)

definition vector_ops :: "vector_buffer dynbuf_ops" where
  "vector_ops = \<lparr>
     prepare = (\<lambda>b n. Vector_buffer (vb_committed b)
       (take (unat n) (vb_tail b) @ replicate (unat n - length (vb_tail b)) (CHR 0x00))),
     commit = (\<lambda>b n. Vector_buffer (vb_committed b @ take (unat n) (vb_tail b)) []),
     readable = vb_committed,
     region = vb_tail,
     store = (\<lambda>b xs. Vector_buffer (vb_committed b) (xs @ drop (length xs) (vb_tail b)))\<rparr>"

lemma vector_ops_ok: "dynbuf_ok vector_ops"
  by (auto simp: dynbuf_ok_def vector_ops_def)

lemma readable_prepare: "dynbuf_ok B \<Longrightarrow> readable B (prepare B b n) = readable B b"
  and length_region_prepare: "dynbuf_ok B \<Longrightarrow> length (region B (prepare B b n)) = unat n"
  by (simp_all add: dynbuf_ok_def)

lemma readable_store:
  "dynbuf_ok B \<Longrightarrow> length xs \<le> length (region B b) \<Longrightarrow> readable B (store B b xs) = readable B b"
  by (simp add: dynbuf_ok_def)

text \<open>Bytes stored in the prepared memory and committed become readable, after the earlier ones.\<close>

lemma readable_commit_store:
  assumes "dynbuf_ok B" and "length xs \<le> length (region B b)" and "unat n = length xs"
  shows "readable B (commit B (store B b xs) n) = readable B b @ xs"
proof -
  have "region B (store B b xs) = xs @ drop (length xs) (region B b)"
    and "readable B (store B b xs) = readable B b"
    using assms(1,2) by (simp_all add: dynbuf_ok_def)
  moreover from this(1) have "unat n \<le> length (region B (store B b xs))"
    using assms(3) by simp
  ultimately show ?thesis
    using assms(1,3) by (simp add: dynbuf_ok_def)
qed

lemmas buffer_laws = readable_prepare length_region_prepare readable_store readable_commit_store

section \<open>The driver\<close>

text \<open>
  \<open>resume e\<close> runs \<open>operator()\<close> for the completion \<open>e\<close>.  Once the operation has completed, its
  \<open>self\<close> is used up and nothing resumes it.
\<close>

fun drive :: "('e \<Rightarrow> ('s, unit) state) \<Rightarrow> ('s \<Rightarrow> bool) \<Rightarrow> 'e list \<Rightarrow> 's \<Rightarrow> 's" where
  "drive resume fin [] s = s"
| "drive resume fin (e # es) s = (if fin s then s else drive resume fin es (exec (resume e) s))"

lemma drive_finished [simp]: "fin s \<Longrightarrow> drive resume fin es s = s"
  by (cases es) auto

lemma drive_append: "drive resume fin (xs @ ys) s = drive resume fin ys (drive resume fin xs s)"
  by (induction xs arbitrary: s) auto

section \<open>The contract of a composed operation\<close>

text \<open>
  \<open>completions\<close> are the calls of \<open>self.complete\<close>, \<open>initiated\<close> counts the operations into which
  \<open>self\<close> was moved.  \<open>live\<close> is the operation's own invariant while it runs.
\<close>

locale composed_op =
  fixes resume :: "'e \<Rightarrow> ('s, unit) state"
    and completions :: "'s \<Rightarrow> (error_code \<times> size_t) list"
    and initiated :: "'s \<Rightarrow> nat"
    and live :: "'s \<Rightarrow> bool"
    and event_ec :: "'e \<Rightarrow> error_code"
    and event_len :: "'e \<Rightarrow> size_t"
  assumes resume_linear: "live s \<Longrightarrow> completions s = [] \<Longrightarrow>
      (\<exists>r. completions (exec (resume e) s) = [r] \<and> initiated (exec (resume e) s) = initiated s) \<or>
      (completions (exec (resume e) s) = [] \<and>
       initiated (exec (resume e) s) = Suc (initiated s) \<and> live (exec (resume e) s))"
    and resume_error: "live s \<Longrightarrow> completions s = [] \<Longrightarrow> failed (event_ec e) \<Longrightarrow>
      completions (exec (resume e) s) = [(event_ec e, event_len e)]"
begin

abbreviation run :: "'e list \<Rightarrow> 's \<Rightarrow> 's" where
  "run \<equiv> drive resume (\<lambda>s. completions s \<noteq> [])"

text \<open>
  While the operation runs there is exactly one operation in flight per completion received;
  it completes at most once.
\<close>

lemma run_linear:
  "live s \<Longrightarrow> completions s = [] \<Longrightarrow>
   (completions (run es s) = [] \<and> initiated (run es s) = initiated s + length es \<and> live (run es s)) \<or>
   (\<exists>r. completions (run es s) = [r] \<and> initiated (run es s) < initiated s + length es)"
proof (induction es arbitrary: s)
  case (Cons e es)
  from resume_linear [OF Cons.prems, of e] show ?case
  proof
    assume "\<exists>r. completions (exec (resume e) s) = [r] \<and>
      initiated (exec (resume e) s) = initiated s"
    then show ?thesis using Cons.prems by auto
  next
    assume "completions (exec (resume e) s) = [] \<and>
      initiated (exec (resume e) s) = Suc (initiated s) \<and> live (exec (resume e) s)"
    then show ?thesis using Cons.IH [of "exec (resume e) s"] Cons.prems by auto
  qed
qed simp

lemma run_at_most_once:
  "live s \<Longrightarrow> completions s = [] \<Longrightarrow> length (completions (run es s)) \<le> 1"
  using run_linear [of s es] by auto

text \<open>The first failed completion ends the operation with its error and length.\<close>

lemma run_error:
  assumes "live s" and "completions s = []" and "completions (run es s) = []" and "failed (event_ec e)"
  shows "completions (run (es @ e # rest) s) = [(event_ec e, event_len e)]"
proof -
  have "live (run es s)" using run_linear [OF assms(1,2), of es] assms(3) by auto
  from resume_error [OF this assms(3,4)] show ?thesis
    using assms(3) by (simp add: drive_append)
qed

end

end
