(* ===== verification/Winhttp_Headers.thy ===== *)
theory Winhttp_Headers
  imports Winhttp_Handle
begin

text \<open>
  \<^verbatim>\<open>winhttp/winhttp.hpp\<close>, the helpers around the request handle: cracking of URLs
  (\<open>url_component\<close>), reading of response headers (\<open>get_string_header_helper\<close> and its users),
  the builders of request headers (\<open>headers\<close>, \<open>accept_types\<close>) and the texts of asynchronous
  failures (namespace \<open>error\<close>).
\<close>

section \<open>Response headers\<close>

abbreviation (input) WINHTTP_QUERY_CONTENT_TYPE :: DWORD where "WINHTTP_QUERY_CONTENT_TYPE \<equiv> 1"
abbreviation (input) WINHTTP_QUERY_VERSION :: DWORD where "WINHTTP_QUERY_VERSION \<equiv> 18"
abbreviation (input) WINHTTP_QUERY_STATUS_CODE :: DWORD where "WINHTTP_QUERY_STATUS_CODE \<equiv> 19"
abbreviation (input) WINHTTP_QUERY_RAW_HEADERS_CRLF :: DWORD where "WINHTTP_QUERY_RAW_HEADERS_CRLF \<equiv> 22"
abbreviation (input) WINHTTP_QUERY_FLAG_NUMBER :: DWORD where "WINHTTP_QUERY_FLAG_NUMBER \<equiv> 0x20000000"
abbreviation (input) WINHTTP_QUERY_FLAG_TRAILERS :: DWORD where "WINHTTP_QUERY_FLAG_TRAILERS \<equiv> 0x02000000"

unbundle bit_operations_syntax

text \<open>
  The status code is written by WinHTTP into \<open>dwStatusCode\<close>; on failure the variable keeps the
  caller's value \<open>old\<close>.
\<close>

definition get_status_code :: "winhttp_os \<Rightarrow> error_code \<Rightarrow> DWORD \<Rightarrow>
    ('z winhttp_handle_scheme, error_code \<times> DWORD) state" where
  "get_status_code os ec old = do {
     (r, ec') \<leftarrow> query_headers os (WINHTTP_QUERY_STATUS_CODE OR WINHTTP_QUERY_FLAG_NUMBER)
                   (Some 4) ec;
     ret (ec', if truthy r then ucast (out_num r) else old)
   }"

text \<open>
  \<open>std::wstring::resize\<close> (new characters are null), and the write of \<open>xs\<close> through \<open>data.data()\<close>: it must
  fit into the string.  Code units past its end are written to memory that is not the string's.
\<close>

definition resize :: "wstring \<Rightarrow> nat \<Rightarrow> wstring" where
  "resize s n = take n s @ replicate (n - length s) 0"

definition overwrite :: "wstring \<Rightarrow> wstring \<Rightarrow> ('z winhttp_handle_scheme, wstring) state" where
  "overwrite xs s = do {
     boost_assert (length xs \<le> length s) ''write past the end of data'';
     ret (take (length s) xs @ drop (length xs) s)
   }"

definition get_string_header_helper :: "winhttp_os \<Rightarrow> DWORD \<Rightarrow> error_code \<Rightarrow> wstring \<Rightarrow>
    ('z winhttp_handle_scheme, error_code \<times> wstring) state" where
  "get_string_header_helper os info ec data = do {
     (r1, ec1) \<leftarrow> query_headers os info None ec;
     if ec1 \<noteq> ERROR_INSUFFICIENT_BUFFER then ret (ec1, data)
     else do {
       let dwSize = (ucast (out_num r1) :: DWORD);
       let data1 = resize data (unat dwSize);
       (r2, ec2) \<leftarrow> query_headers os info (Some dwSize) 0;
       data2 \<leftarrow> (if truthy r2 then overwrite (out_text r2) data1 else ret data1);
       ret (ec2, takeWhile (\<lambda>c. c \<noteq> 0) data2)
     }
   }"

definition get_version :: "winhttp_os \<Rightarrow> error_code \<Rightarrow> wstring \<Rightarrow>
    ('z winhttp_handle_scheme, error_code \<times> wstring) state" where
  "get_version os = get_string_header_helper os WINHTTP_QUERY_VERSION"

definition get_content_type :: "winhttp_os \<Rightarrow> error_code \<Rightarrow> wstring \<Rightarrow>
    ('z winhttp_handle_scheme, error_code \<times> wstring) state" where
  "get_content_type os = get_string_header_helper os WINHTTP_QUERY_CONTENT_TYPE"

definition get_all_raw_crlf :: "winhttp_os \<Rightarrow> error_code \<Rightarrow> wstring \<Rightarrow>
    ('z winhttp_handle_scheme, error_code \<times> wstring) state" where
  "get_all_raw_crlf os = get_string_header_helper os WINHTTP_QUERY_RAW_HEADERS_CRLF"

definition get_trailers :: "winhttp_os \<Rightarrow> error_code \<Rightarrow> wstring \<Rightarrow>
    ('z winhttp_handle_scheme, error_code \<times> wstring) state" where
  "get_trailers os =
     get_string_header_helper os (WINHTTP_QUERY_FLAG_TRAILERS OR WINHTTP_QUERY_RAW_HEADERS_CRLF)"

section \<open>accept_types\<close>

text \<open>
  \<open>output_\<close> is a vector of \<open>const wchar_t *\<close>: \<open>Some s\<close> is the pointer to the characters of
  \<open>s\<close>, \<open>None\<close> the null pointer.  \<open>get\<close> returns \<open>None\<close> for \<open>nullptr\<close>, otherwise the array.
\<close>

record accept_types =
  at_data :: "wstring list"
  at_output :: "wstring option list"

definition accept_types_new :: "wstring list \<Rightarrow> accept_types" where
  "accept_types_new l = \<lparr>at_data = l, at_output = []\<rparr>"

definition accept_types_get :: "(accept_types, wstring option list option) state" where
  "accept_types_get = do {
     d \<leftarrow> gets at_data;
     if length d = 0 then ret None
     else do {
       modify (\<lambda>a. a\<lparr>at_output := fold (\<lambda>str out. out @ [Some str]) d (at_output a)\<rparr>);
       modify (\<lambda>a. a\<lparr>at_output := at_output a @ [None]\<rparr>);
       out \<leftarrow> gets at_output;
       ret (Some out)
     }
   }"

text \<open>How a reader of the C array sees it: the strings up to the first null pointer.\<close>

fun c_array :: "'a option list \<Rightarrow> 'a list" where
  "c_array [] = []"
| "c_array (None # _) = []"
| "c_array (Some x # ps) = x # c_array ps"

section \<open>Request headers\<close>

definition CRLF :: wstring where "CRLF = [13, 10]"

definition headers_add :: "wstring \<Rightarrow> wstring \<Rightarrow> wstring \<Rightarrow> wstring" where
  "headers_add key val data =
     (let data = (if data \<noteq> [] then data @ CRLF else data) in data @ key @ L '': '' @ val)"

definition headers_get :: "wstring \<Rightarrow> wstring option" where
  "headers_get data = (if data = [] then None else Some data)"

definition headers_size :: "wstring \<Rightarrow> DWORD" where
  "headers_size data = word_of_nat (length data)"

section \<open>Texts of asynchronous failures\<close>

text \<open>Insertion of an unsigned number into a stream: its decimal digits.\<close>

fun decimal :: "nat \<Rightarrow> wstring" where
  "decimal n = (if n < 10 then [48 + of_nat n] else decimal (n div 10) @ [48 + of_nat (n mod 10)])"

declare decimal.simps [simp del]

text \<open>The flag bits of \<open>WINHTTP_CALLBACK_STATUS_SECURE_FAILURE\<close> with their sentences, in order.\<close>

definition secure_failure_flags :: "(DWORD \<times> string) list" where
  "secure_failure_flags =
    [(0x1, ''Revocation check failed to verify whether a certificate has been revoked.''),
     (0x2, ''SSL certificate is invalid.''),
     (0x4, ''SSL certificate was revoked.''),
     (0x8, ''The function is unfamiliar with the Certificate Authority '' @
           ''that generated the server's certificate.''),
     (0x10, ''SSL certificate common name(host name field) is incorrect''),
     (0x20, ''CSSL certificate date that was received from the '' @
            ''server is bad.The certificate is expired.''),
     (0x80000000, ''The application experienced an internal error '' @
            ''loading the SSL libraries.'')]"

definition get_secure_failure_err_str :: "DWORD \<Rightarrow> wstring" where
  "get_secure_failure_err_str code =
     fold (\<lambda>(flag, text) ss. if code AND flag \<noteq> 0 then ss @ L text else ss)
       secure_failure_flags (L ''SECURE_FAILURE '' @ decimal (unat code))"

abbreviation (input) API_RECEIVE_RESPONSE :: DWORD where "API_RECEIVE_RESPONSE \<equiv> 1"
abbreviation (input) API_QUERY_DATA_AVAILABLE :: DWORD where "API_QUERY_DATA_AVAILABLE \<equiv> 2"
abbreviation (input) API_READ_DATA :: DWORD where "API_READ_DATA \<equiv> 3"
abbreviation (input) API_WRITE_DATA :: DWORD where "API_WRITE_DATA \<equiv> 4"
abbreviation (input) API_SEND_REQUEST :: DWORD where "API_SEND_REQUEST \<equiv> 5"

definition get_api_error_result_str :: "DWORD \<Rightarrow> wstring" where
  "get_api_error_result_str dwResult =
     (if dwResult = API_RECEIVE_RESPONSE then L ''API_RECEIVE_RESPONSE''
      else if dwResult = API_QUERY_DATA_AVAILABLE then L ''API_QUERY_DATA_AVAILABLE''
      else if dwResult = API_READ_DATA then L ''API_READ_DATA''
      else if dwResult = API_WRITE_DATA then L ''API_WRITE_DATA''
      else if dwResult = API_SEND_REQUEST then L ''API_SEND_REQUEST''
      else L ''Unknown function'')"

record WINHTTP_ASYNC_RESULT =
  dwResult :: DWORD
  dwError :: DWORD

definition get_api_error_str :: "WINHTTP_ASYNC_RESULT \<Rightarrow> wstring" where
  "get_api_error_str ar =
     L ''REQUEST_ERROR - error '' @ decimal (unat (dwError ar)) @ L '', result '' @
     get_api_error_result_str (dwResult ar)"

section \<open>url_component\<close>

text \<open>
  The \<open>URL_COMPONENTS\<close> structure and the arrays its pointers refer to.  \<open>crack\<close> hands the
  structure to \<open>WinHttpCrackUrl\<close>, the parameter \<open>cu\<close>: it returns its \<open>BOOL\<close>, the last error and
  the structure it leaves.
\<close>

record url_component =
  szHost :: wstring
  dwHostNameLength :: DWORD
  szPath :: wstring
  dwUrlPathLength :: DWORD
  szScheme :: wstring
  dwSchemeLength :: DWORD
  szQuery :: wstring
  dwExtraInfoLength :: DWORD
  nScheme :: DWORD
  nPort :: INTERNET_PORT

type_synonym crack_url =
  "wstring \<Rightarrow> DWORD \<Rightarrow> DWORD \<Rightarrow> url_component \<Rightarrow> bool \<times> DWORD \<times> url_component"

text \<open>
  The arrays are not initialised by the constructor; their contents are the arguments.  The
  lengths are set to the capacities.
\<close>

definition url_component_new :: "wstring \<Rightarrow> wstring \<Rightarrow> wstring \<Rightarrow> wstring \<Rightarrow> url_component" where
  "url_component_new h p sch q =
     \<lparr>szHost = h, dwHostNameLength = 128, szPath = p, dwUrlPathLength = 128,
      szScheme = sch, dwSchemeLength = 64, szQuery = q, dwExtraInfoLength = 128,
      nScheme = 0, nPort = 0\<rparr>"

definition crack :: "crack_url \<Rightarrow> wstring \<Rightarrow> DWORD \<Rightarrow> DWORD \<Rightarrow> error_code \<Rightarrow>
    (url_component, error_code) state" where
  "crack cu url len flags ec = do {
     uc \<leftarrow> State_Monad.get;
     let (ok, err, uc') = cu url len flags uc;
     State_Monad.set uc';
     ret (if \<not> ok then err else ec)
   }"

definition crack_url_string :: "crack_url \<Rightarrow> wstring \<Rightarrow> error_code \<Rightarrow>
    (url_component, error_code) state" where
  "crack_url_string cu url ec = crack cu url (word_of_nat (length url)) 0 ec"

text \<open>
  The accessors build a string from pointer and length; a length beyond the array reads out
  of bounds, which is \<open>None\<close> here.
\<close>

definition wstring_at :: "wstring \<Rightarrow> DWORD \<Rightarrow> wstring option" where
  "wstring_at arr n = (if unat n \<le> length arr then Some (take (unat n) arr) else None)"

definition get_hostname :: "url_component \<Rightarrow> wstring option" where
  "get_hostname uc = wstring_at (szHost uc) (dwHostNameLength uc)"

definition get_scheme :: "url_component \<Rightarrow> wstring option" where
  "get_scheme uc = wstring_at (szScheme uc) (dwSchemeLength uc)"

definition get_path :: "url_component \<Rightarrow> wstring option" where
  "get_path uc = wstring_at (szPath uc) (dwUrlPathLength uc)"

definition get_query :: "url_component \<Rightarrow> wstring option" where
  "get_query uc = wstring_at (szQuery uc) (dwExtraInfoLength uc)"

definition get_nscheme :: "url_component \<Rightarrow> DWORD" where
  "get_nscheme uc = nScheme uc"

definition get_port :: "url_component \<Rightarrow> INTERNET_PORT" where
  "get_port uc = nPort uc"

section \<open>Reading a header: the two-call protocol\<close>

text \<open>
  The documented protocol of \<open>WinHttpQueryHeaders\<close>: without a buffer it fails with
  \<open>ERROR_INSUFFICIENT_BUFFER\<close> and reports a size in bytes that is enough for the value and a
  terminating null, of two bytes each; with a buffer of that size it succeeds and stores them.
\<close>

definition header_protocol :: "winhttp_os \<Rightarrow> DWORD \<Rightarrow> 'z winhttp_handle_scheme \<Rightarrow> wstring \<Rightarrow> bool" where
  "header_protocol os info s v \<longleftrightarrow>
     (let q1 = WinHttpQueryHeaders (handle s) info None;
          r1 = os (trace s) q1; t1 = trace s @ [(q1, r1)];
          e1 = os t1 GetLastError; t2 = t1 @ [(GetLastError, e1)];
          q2 = WinHttpQueryHeaders (handle s) info (Some (ucast (out_num r1)));
          r2 = os t2 q2
      in \<not> truthy r1 \<and> dword e1 = ERROR_INSUFFICIENT_BUFFER \<and>
         2 * Suc (length v) \<le> unat (ucast (out_num r1) :: DWORD) \<and> truthy r2 \<and> out_text r2 = v @ [0])"

lemma takeWhile_nonzero:
  "(0 :: 16 word) \<notin> set v \<Longrightarrow> takeWhile (\<lambda>c. c \<noteq> 0) (v @ 0 # rest) = v"
  by (induction v) auto

lemma overwrite_fits:
  "length xs \<le> length d \<Longrightarrow> exec (overwrite xs d) s = s"
  "length xs \<le> length d \<Longrightarrow> result (overwrite xs d) s = xs @ drop (length xs) d"
  by (simp_all add: overwrite_def exec_simps)

text \<open>
  C22: when the platform follows its documented two-call protocol, \<open>get_string_header_helper\<close>
  returns exactly the header's value, without the terminating null or anything the string held
  before, clears the error of the first call, makes exactly the two queries, the second
  with the size the first one reported, and the value is written into the string and not past its
  end, whatever the string was before.
\<close>

theorem string_header_read:
  assumes "header_protocol os info s v" and "0 \<notin> set v"
  shows "result (get_string_header_helper os info ec data) s = (0, v) \<and>
    emitted (get_string_header_helper os info ec data) s =
      [WinHttpQueryHeaders (handle s) info None, GetLastError,
       WinHttpQueryHeaders (handle s) info
         (Some (ucast (out_num (os (trace s) (WinHttpQueryHeaders (handle s) info None)))))] \<and>
    violations (exec (get_string_header_helper os info ec data) s) = violations s"
proof -
  let ?n = "unat (ucast (out_num (os (trace s) (WinHttpQueryHeaders (handle s) info None))) :: DWORD)"
  have "Suc (length v) \<le> ?n" using assms(1) by (simp add: header_protocol_def Let_def)
  then have "length (v @ [0]) \<le> length (resize data ?n)" by (simp add: resize_def)
  note fits = overwrite_fits [OF this]
  show ?thesis using assms
    by (simp add: header_protocol_def Let_def get_string_header_helper_def query_headers_def
        native_handle_def check_def exec_simps takeWhile_nonzero emitted_def calls_def fits)
qed

definition sample_header_os :: winhttp_os where
  "sample_header_os t c =
     (case c of
        WinHttpQueryHeaders _ _ None \<Rightarrow> answer_out 0 8
      | WinHttpQueryHeaders _ _ (Some _) \<Rightarrow> \<lparr>rv = 1, out_num = 6, out_text = [104, 105, 0]\<rparr>
      | GetLastError \<Rightarrow> answer 122
      | _ \<Rightarrow> answer 0)"

theorem string_header_read_witness:
  "result (get_string_header_helper sample_header_os WINHTTP_QUERY_VERSION 0 [120])
     (new_handle\<lparr>handle := 7\<rparr>) = (0, [104, 105]) \<and>
   violations (exec (get_string_header_helper sample_header_os WINHTTP_QUERY_VERSION 0 [120])
     (new_handle\<lparr>handle := 7\<rparr>)) = []"
  using string_header_read [of sample_header_os WINHTTP_QUERY_VERSION "new_handle\<lparr>handle := 7\<rparr>"
      "[104, 105]" 0 "[120]"]
  by (simp add: header_protocol_def sample_header_os_def Let_def truthy_def dword_def new_handle_def)

section \<open>Building request headers\<close>

text \<open>The reader of a header block: lines end at CR LF, a line splits at its first colon.\<close>

fun split_crlf :: "wstring \<Rightarrow> wstring list" where
  "split_crlf [] = [[]]"
| "split_crlf (x # xs) =
     (if x = 13 \<and> xs \<noteq> [] \<and> hd xs = 10 then [] # split_crlf (tl xs)
      else case split_crlf xs of [] \<Rightarrow> [[x]] | l # ls \<Rightarrow> (x # l) # ls)"

definition split_colon :: "wstring \<Rightarrow> wstring \<times> wstring" where
  "split_colon l = (takeWhile (\<lambda>c. c \<noteq> 58) l, drop 2 (dropWhile (\<lambda>c. c \<noteq> 58) l))"

definition parse_headers :: "wstring \<Rightarrow> (wstring \<times> wstring) list" where
  "parse_headers s = (if s = [] then [] else map split_colon (split_crlf s))"

definition headers_of :: "(wstring \<times> wstring) list \<Rightarrow> wstring" where
  "headers_of kvs = fold (\<lambda>(k, v) data. headers_add k v data) kvs []"

definition header_line :: "wstring \<times> wstring \<Rightarrow> wstring" where
  "header_line kv = fst kv @ L '': '' @ snd kv"

definition clean_header :: "wstring \<times> wstring \<Rightarrow> bool" where
  "clean_header kv \<longleftrightarrow> 13 \<notin> set (fst kv) \<and> 58 \<notin> set (fst kv) \<and> 13 \<notin> set (snd kv)"

lemma L_colon: "L '': '' = [58, 32]"
  by (simp add: L_def)

lemma split_crlf_line: "13 \<notin> set l \<Longrightarrow> split_crlf l = [l]"
  by (induction l) auto

lemma split_crlf_append:
  "13 \<notin> set l \<Longrightarrow> split_crlf (l @ CRLF @ rest) = l # split_crlf rest"
proof (induction l)
  case (Cons x l)
  then show ?case by (cases l) (auto simp: CRLF_def)
qed (simp add: CRLF_def)

lemma headers_add_line:
  "headers_add k v data = (if data = [] then header_line (k, v) else data @ CRLF @ header_line (k, v))"
  by (simp add: headers_add_def header_line_def Let_def)

lemma headers_add_first: "headers_add k v [] = header_line (k, v)"
  by (simp add: headers_add_line)

lemma header_line_nonempty: "header_line kv \<noteq> []"
  by (simp add: header_line_def L_colon)

lemma headers_fold:
  "data \<noteq> [] \<Longrightarrow> fold (\<lambda>(k, v) d. headers_add k v d) kvs data =
     data @ concat (map (\<lambda>kv. CRLF @ header_line kv) kvs)"
  by (induction kvs arbitrary: data) (auto simp: headers_add_line)

lemma headers_of_Cons:
  "headers_of (kv # kvs) = header_line kv @ concat (map (\<lambda>kv. CRLF @ header_line kv) kvs)"
  by (cases kv) (simp add: headers_of_def headers_add_first headers_fold header_line_nonempty)

lemma split_crlf_lines:
  "13 \<notin> set l \<Longrightarrow> \<forall>kv\<in>set kvs. clean_header kv \<Longrightarrow>
   split_crlf (l @ concat (map (\<lambda>kv. CRLF @ header_line kv) kvs)) = l # map header_line kvs"
proof (induction kvs arbitrary: l)
  case (Cons kv kvs)
  have "13 \<notin> set (header_line kv)"
    using Cons.prems by (simp add: clean_header_def header_line_def L_colon)
  with Cons show ?case by (simp add: split_crlf_append)
qed (simp add: split_crlf_line)

lemma split_colon_line: "clean_header kv \<Longrightarrow> split_colon (header_line kv) = kv"
  by (cases kv)
    (auto simp: split_colon_def header_line_def clean_header_def L_colon takeWhile_append2
      dropWhile_append3 dropWhile_append)

text \<open>
  C21: adding any list of headers with \<open>headers::add\<close> builds a block from which every name and
  value is recovered, in order, provided no name holds a colon or CR and no value a CR.
\<close>

theorem headers_roundtrip:
  assumes "\<forall>kv\<in>set kvs. clean_header kv"
  shows "parse_headers (headers_of kvs) = kvs"
proof (cases kvs)
  case Nil
  then show ?thesis by (simp add: parse_headers_def headers_of_def)
next
  case (Cons kv rest)
  have kv: "13 \<notin> set (header_line kv)"
    using assms Cons by (simp add: clean_header_def header_line_def L_colon)
  have "map split_colon (map header_line kvs) = kvs"
    unfolding map_map by (rule map_idI) (use assms in \<open>simp add: split_colon_line\<close>)
  then show ?thesis using assms Cons split_crlf_lines [OF kv, of rest]
    by (simp add: parse_headers_def headers_of_Cons header_line_nonempty)
qed

theorem headers_roundtrip_witness:
  "parse_headers (headers_of [(L ''myheader1'', L ''myval1''), (L ''myheader2'', L ''myval2'')]) =
     [(L ''myheader1'', L ''myval1''), (L ''myheader2'', L ''myval2'')]"
  by (rule headers_roundtrip) (simp add: clean_header_def L_def)

section \<open>accept_types\<close>

fun get_repeatedly :: "nat \<Rightarrow> (accept_types, unit) state" where
  "get_repeatedly 0 = ret ()"
| "get_repeatedly (Suc n) = do { _ \<leftarrow> accept_types_get; get_repeatedly n }"

lemma fold_snoc_Some: "fold (\<lambda>str out. out @ [Some str]) d out = out @ map Some d"
  by (induction d arbitrary: out) auto

lemma c_array_terminated: "c_array (map Some d @ None # rest) = d"
  by (induction d) auto

lemma accept_types_get_run:
  "run_state accept_types_get a =
     (if at_data a = [] then (None, a)
      else let out = at_output a @ map Some (at_data a) @ [None] in (Some out, a\<lparr>at_output := out\<rparr>))"
  by (simp add: accept_types_get_def fold_snoc_Some Let_def)

definition accept_inv :: "wstring list \<Rightarrow> accept_types \<Rightarrow> bool" where
  "accept_inv l a \<longleftrightarrow> at_data a = l \<and>
     (at_output a = [] \<or> (\<exists>rest. at_output a = map Some l @ None # rest))"

lemma accept_inv_get: "accept_inv l a \<Longrightarrow> accept_inv l (exec accept_types_get a)"
  by (auto simp: accept_inv_def exec_def accept_types_get_run Let_def)

lemma accept_inv_repeat: "accept_inv l a \<Longrightarrow> accept_inv l (exec (get_repeatedly n) a)"
  by (induction n arbitrary: a) (simp_all add: exec_bind accept_inv_get)

text \<open>
  \<open>accept_types::get\<close> yields \<open>nullptr\<close> for no types and otherwise a null-terminated array that
  reads as exactly the given types, however often it was called before (the vector behind it
  grows with every call).
\<close>

theorem accept_types_array:
  "map_option c_array
     (result (do { get_repeatedly n; accept_types_get }) (accept_types_new l)) =
   (if l = [] then None else Some l)"
proof -
  have "accept_inv l (exec (get_repeatedly n) (accept_types_new l))"
    by (rule accept_inv_repeat) (simp add: accept_inv_def accept_types_new_def)
  then show ?thesis
    by (auto simp: result_bind result_def [of accept_types_get] accept_types_get_run Let_def
        accept_inv_def c_array_terminated)
qed

section \<open>Failure texts\<close>

definition digits_value :: "wstring \<Rightarrow> nat" where
  "digits_value ds = foldl (\<lambda>n d. 10 * n + unat (d - 48)) 0 ds"

definition is_digit :: "16 word \<Rightarrow> bool" where
  "is_digit c \<longleftrightarrow> 48 \<le> c \<and> c \<le> 57"

lemma digits_value_snoc: "digits_value (ds @ [d]) = 10 * digits_value ds + unat (d - 48)"
  by (simp add: digits_value_def)

lemma digits_value_decimal: "digits_value (decimal n) = n"
proof (induction n rule: decimal.induct)
  case (1 n)
  then show ?case
    by (subst decimal.simps)
      (simp add: digits_value_snoc unat_of_nat, simp add: digits_value_def unat_of_nat)
qed

lemma is_digit_of_nat: "k < 10 \<Longrightarrow> is_digit (48 + of_nat k)"
  by (auto simp: is_digit_def word_le_nat_alt unat_word_ariths unat_of_nat)

lemma decimal_digits: "\<forall>c\<in>set (decimal n). is_digit c"
proof (induction n rule: decimal.induct)
  case (1 n)
  then show ?case
    by (subst decimal.simps) (auto simp: is_digit_of_nat)
qed

lemma takeWhile_decimal:
  "rest = [] \<or> \<not> is_digit (hd rest) \<Longrightarrow> takeWhile is_digit (decimal n @ rest) = decimal n"
  using decimal_digits [of n] by (cases rest) (auto simp: takeWhile_append2)

text \<open>Reading a failure text back.\<close>

definition reported_code :: "nat \<Rightarrow> wstring \<Rightarrow> DWORD" where
  "reported_code n s = word_of_nat (digits_value (takeWhile is_digit (drop n s)))"

definition sentences :: "DWORD \<Rightarrow> wstring" where
  "sentences code =
     concat (map (\<lambda>(f, t). if code AND f \<noteq> 0 then L t else []) secure_failure_flags)"

lemma fold_sentences:
  "fold (\<lambda>(f, t) ss. if code AND f \<noteq> 0 then ss @ L t else ss) fs ss =
     ss @ concat (map (\<lambda>(f, t). if code AND f \<noteq> 0 then L t else []) fs)"
  by (induction fs arbitrary: ss) auto

lemma secure_failure_text:
  "get_secure_failure_err_str code = L ''SECURE_FAILURE '' @ decimal (unat code) @ sentences code"
  by (simp add: get_secure_failure_err_str_def fold_sentences sentences_def)

lemma sentences_no_digit: "sentences code = [] \<or> \<not> is_digit (hd (sentences code))"
  by (simp add: sentences_def secure_failure_flags_def L_def is_digit_def)

text \<open>
  The text for a secure failure starts with the code in decimal, whatever sentences follow
  it, so the code is recovered from the text.
\<close>

theorem secure_failure_code_recovered:
  "reported_code 15 (get_secure_failure_err_str code) = code"
  by (simp add: secure_failure_text reported_code_def takeWhile_decimal [OF sentences_no_digit]
      digits_value_decimal)

text \<open>
  The text for an asynchronous request error determines the error code, and it determines
  the failing function whenever that is one of the five the library uses.
\<close>

theorem api_error_text_determines_result:
  assumes "get_api_error_str ar = get_api_error_str ar'"
    and "dwResult ar \<in> {API_RECEIVE_RESPONSE, API_QUERY_DATA_AVAILABLE, API_READ_DATA,
                        API_WRITE_DATA, API_SEND_REQUEST}"
  shows "ar = ar'"
proof -
  let ?p = "L ''REQUEST_ERROR - error ''"
  let ?rest = "\<lambda>r. L '', result '' @ get_api_error_result_str (dwResult r)"
  have code: "reported_code 22 (get_api_error_str r) = dwError r" for r :: WINHTTP_ASYNC_RESULT
  proof -
    have "takeWhile is_digit (decimal n @ ?rest r) = decimal n" for n
      by (rule takeWhile_decimal) (simp add: L_def is_digit_def)
    then show ?thesis
      by (simp add: get_api_error_str_def reported_code_def digits_value_decimal)
  qed
  from code [of ar] code [of ar'] assms(1) have err: "dwError ar = dwError ar'" by simp
  with assms(1) have "get_api_error_result_str (dwResult ar) = get_api_error_result_str (dwResult ar')"
    by (simp add: get_api_error_str_def)
  with assms(2) have "dwResult ar = dwResult ar'"
    by (auto simp: get_api_error_result_str_def L_def split: if_splits)
  with err show ?thesis by simp
qed

theorem api_error_text_determines_result_witness:
  "\<lparr>dwResult = API_READ_DATA, dwError = 12002\<rparr> =
   (\<lparr>dwResult = API_READ_DATA, dwError = 12002\<rparr> :: WINHTTP_ASYNC_RESULT)"
  by (rule api_error_text_determines_result) simp_all

section \<open>Cracking twice\<close>

text \<open>
  The documented contract of \<open>WinHttpCrackUrl\<close> for the host: \<open>dwHostNameLength\<close> is the capacity
  on entry; when the host and its terminating null do not fit, the call fails with
  \<open>ERROR_INSUFFICIENT_BUFFER\<close>; otherwise the length of the host is written back.
\<close>

definition crack_host_contract :: "crack_url \<Rightarrow> (wstring \<Rightarrow> wstring) \<Rightarrow> bool" where
  "crack_host_contract cu host_of \<longleftrightarrow> (\<forall>url len fl uc.
     (if length (host_of url) < unat (dwHostNameLength uc)
      then \<exists>uc'. cu url len fl uc = (True, 0, uc') \<and>
             dwHostNameLength uc' = word_of_nat (length (host_of url))
      else \<exists>uc'. cu url len fl uc = (False, ERROR_INSUFFICIENT_BUFFER, uc')))"

lemma crack_fits:
  "crack_host_contract cu host_of \<Longrightarrow> length (host_of url) < unat (dwHostNameLength uc) \<Longrightarrow>
   \<exists>uc'. cu url len fl uc = (True, 0, uc') \<and> dwHostNameLength uc' = word_of_nat (length (host_of url))"
  unfolding crack_host_contract_def by presburger

lemma crack_too_long:
  "crack_host_contract cu host_of \<Longrightarrow> unat (dwHostNameLength uc) \<le> length (host_of url) \<Longrightarrow>
   \<exists>uc'. cu url len fl uc = (False, ERROR_INSUFFICIENT_BUFFER, uc')"
  unfolding crack_host_contract_def by (meson not_le)

text \<open>
  A \<open>url_component\<close> cannot be used for a second URL whose host is at least as long as the
  first one's: \<open>crack\<close> does not restore the capacities that the first call overwrote with the
  lengths of its parts, so the second call fails with \<open>ERROR_INSUFFICIENT_BUFFER\<close> although the
  arrays are large enough.
\<close>

theorem crack_again_fails:
  assumes "crack_host_contract cu host_of"
    and "length (host_of u1) < 128" and "length (host_of u1) \<le> length (host_of u2)"
  shows "result (do { _ \<leftarrow> crack_url_string cu u1 0; crack_url_string cu u2 0 })
    (url_component_new h p sch q) = ERROR_INSUFFICIENT_BUFFER"
proof -
  have small: "unat (word_of_nat (length (host_of u1)) :: DWORD) = length (host_of u1)"
    using assms(2) by (simp add: unat_of_nat take_bit_eq_mod)
  obtain uc1 where c1: "cu u1 (word_of_nat (length u1)) 0 (url_component_new h p sch q) = (True, 0, uc1)"
    and len: "dwHostNameLength uc1 = word_of_nat (length (host_of u1))"
    using crack_fits [OF assms(1), of u1 "url_component_new h p sch q"] assms(2)
    by (auto simp: url_component_new_def)
  obtain uc2 where "cu u2 (word_of_nat (length u2)) 0 uc1 = (False, ERROR_INSUFFICIENT_BUFFER, uc2)"
    using crack_too_long [OF assms(1), of uc1 u2] assms(3) len small by auto
  with c1 show ?thesis
    by (simp add: crack_url_string_def crack_def result_bind exec_bind exec_def result_def)
qed

definition sample_crack :: crack_url where
  "sample_crack url len fl uc =
     (if length url < unat (dwHostNameLength uc)
      then (True, 0, uc\<lparr>dwHostNameLength := word_of_nat (length url)\<rparr>)
      else (False, ERROR_INSUFFICIENT_BUFFER, uc))"

theorem crack_again_fails_witness:
  "result (do { _ \<leftarrow> crack_url_string sample_crack (L ''a.b'') 0;
                crack_url_string sample_crack (L ''long.example'') 0 })
     (url_component_new [] [] [] []) = ERROR_INSUFFICIENT_BUFFER"
proof (rule crack_again_fails [where host_of = "\<lambda>u. u"])
  show "crack_host_contract sample_crack (\<lambda>u. u)"
    by (simp add: crack_host_contract_def sample_crack_def)
qed (simp_all add: L_def)

end
