(* ===== verification/Winhttp_Context.thy ===== *)
theory Winhttp_Context
  imports Winhttp_Headers
begin

text \<open>
  \<^verbatim>\<open>winhttp/winhttp_asio.hpp\<close>, the hook between WinHTTP and asio: the request context
  (\<open>asio_request_context\<close>: state of the current step, its error and length, and the event that
  wakes the handler), the status callback \<open>BasicAsioAsyncCallback\<close> that WinHTTP runs on its own
  threads, and the two composed operations \<open>async_op\<close> and \<open>async_len_op\<close> that wait on the event.
\<close>

section \<open>asio_request_context\<close>

datatype ctx_state =
    Idle
  | Send_request
  | Headers_available
  | Data_available
  | Read_complete
  | Write_complete
  | Error

text \<open>
  A request handle with its context; \<open>step_event\<close> is the native handle that the asio object
  handle of that name owns.
\<close>

record asio_request = winhttp_handle +
  ctx_state :: ctx_state
  step_event :: HANDLE
  step_ec :: error_code
  step_len :: size_t

definition asio_request_context_new :: "winhttp_os \<Rightarrow> ('z asio_request_scheme, unit) state" where
  "asio_request_context_new os = do {
     modify (\<lambda>s. s\<lparr>step_ec := 0, step_len := 0, ctx_state := Idle\<rparr>);
     ev \<leftarrow> invoke os (CreateEvent True False);
     boost_assert (rv ev \<noteq> 0) ''ev != nullptr'';
     modify (\<lambda>s. s\<lparr>step_event := rv ev\<rparr>)
   }"

text \<open>The request handle itself: no handle, and a new context.\<close>

definition asio_request_new :: "winhttp_os \<Rightarrow> ('z asio_request_scheme, unit) state" where
  "asio_request_new os = do {
     modify (\<lambda>s. s\<lparr>handle := 0\<rparr>);
     asio_request_context_new os
   }"

definition set_state :: "ctx_state \<Rightarrow> ('z asio_request_scheme, unit) state" where
  "set_state st = modify (\<lambda>s. s\<lparr>ctx_state := st\<rparr>)"

definition get_state :: "('z asio_request_scheme, ctx_state) state" where
  "get_state = gets ctx_state"

definition step_complete :: "winhttp_os \<Rightarrow> error_code \<Rightarrow> size_t \<Rightarrow>
    ('z asio_request_scheme, unit) state" where
  "step_complete os ec len = do {
     modify (\<lambda>s. s\<lparr>step_ec := ec, step_len := len\<rparr>);
     h \<leftarrow> gets step_event;
     boost_assert (h \<noteq> 0) ''h != NULL'';
     boost_assert (h \<noteq> INVALID_HANDLE_VALUE) ''h != INVALID_HANDLE_VALUE'';
     ok \<leftarrow> invoke os (SetEvent h);
     boost_assert (truthy ok) ''SetEvent''
   }"

definition step_reset :: "winhttp_os \<Rightarrow> ('z asio_request_scheme, unit) state" where
  "step_reset os = do {
     h \<leftarrow> gets step_event;
     boost_assert (h \<noteq> 0) ''h != NULL'';
     boost_assert (h \<noteq> INVALID_HANDLE_VALUE) ''h != INVALID_HANDLE_VALUE'';
     ok \<leftarrow> invoke os (ResetEvent h);
     boost_assert (truthy ok) ''ResetEvent'';
     modify (\<lambda>s. s\<lparr>step_ec := 0\<rparr>);
     modify (\<lambda>s. s\<lparr>step_len := 0\<rparr>)
   }"

section \<open>The status callback\<close>

abbreviation (input) STATUS_HEADERS_AVAILABLE :: DWORD where "STATUS_HEADERS_AVAILABLE \<equiv> 0x00020000"
abbreviation (input) STATUS_DATA_AVAILABLE :: DWORD where "STATUS_DATA_AVAILABLE \<equiv> 0x00040000"
abbreviation (input) STATUS_READ_COMPLETE :: DWORD where "STATUS_READ_COMPLETE \<equiv> 0x00080000"
abbreviation (input) STATUS_WRITE_COMPLETE :: DWORD where "STATUS_WRITE_COMPLETE \<equiv> 0x00100000"
abbreviation (input) STATUS_REQUEST_ERROR :: DWORD where "STATUS_REQUEST_ERROR \<equiv> 0x00200000"
abbreviation (input) STATUS_SENDREQUEST_COMPLETE :: DWORD where
  "STATUS_SENDREQUEST_COMPLETE \<equiv> 0x00400000"

text \<open>
  What \<open>lpvStatusInformation\<close> points to.  Reading it as the wrong kind is an invalid memory
  access; it is recorded with the violations, like a failed assertion.
\<close>

datatype status_information =
    Info_null
  | Info_dword DWORD
  | Info_result WINHTTP_ASYNC_RESULT
  | Info_buffer

fun read_dword :: "status_information \<Rightarrow> ('z asio_request_scheme, DWORD) state" where
  "read_dword (Info_dword d) = ret d"
| "read_dword _ = do { boost_assert False ''invalid DWORD read''; ret 0 }"

fun read_async_result :: "status_information \<Rightarrow>
    ('z asio_request_scheme, WINHTTP_ASYNC_RESULT) state" where
  "read_async_result (Info_result r) = ret r"
| "read_async_result _ = do {
     boost_assert False ''invalid WINHTTP_ASYNC_RESULT read'';
     ret \<lparr>dwResult = 0, dwError = 0\<rparr> }"

definition callback_request_error :: "winhttp_os \<Rightarrow> status_information \<Rightarrow>
    ('z asio_request_scheme, unit) state" where
  "callback_request_error os info = do {
     pAR \<leftarrow> read_async_result info;
     let ec = dwError pAR;
     boost_assert (failed ec) ''ec.failed()'';
     st \<leftarrow> get_state;
     (case st of
        Data_available \<Rightarrow> do {
          boost_assert (dwResult pAR = API_QUERY_DATA_AVAILABLE) ''API_QUERY_DATA_AVAILABLE'';
          step_complete os ec 0 }
      | Headers_available \<Rightarrow> do {
          boost_assert (dwResult pAR = API_RECEIVE_RESPONSE) ''API_RECEIVE_RESPONSE'';
          step_complete os ec 0 }
      | Read_complete \<Rightarrow> do {
          boost_assert (dwResult pAR = API_READ_DATA) ''API_READ_DATA'';
          step_complete os ec 0 }
      | Send_request \<Rightarrow> do {
          boost_assert (dwResult pAR = API_SEND_REQUEST) ''API_SEND_REQUEST'';
          step_complete os ec 0 }
      | Write_complete \<Rightarrow> do {
          boost_assert (dwResult pAR = API_WRITE_DATA) ''API_WRITE_DATA'';
          step_complete os ec 0 }
      | _ \<Rightarrow> boost_assert False ''Unknown error winhttp callback error state'')
   }"

definition BasicAsioAsyncCallback :: "winhttp_os \<Rightarrow> DWORD_PTR \<Rightarrow> DWORD \<Rightarrow> status_information \<Rightarrow>
    DWORD \<Rightarrow> ('z asio_request_scheme, unit) state" where
  "BasicAsioAsyncCallback os dwContext status info infolen =
     (if dwContext = 0 then ret ()
      else if status = STATUS_DATA_AVAILABLE then do {
        boost_assert (infolen = 4) ''dwStatusInformationLength == sizeof(DWORD)'';
        data_len \<leftarrow> read_dword info;
        st \<leftarrow> get_state;
        boost_assert (st = Data_available) ''state == data_available'';
        step_complete os 0 (ucast data_len) }
      else if status = STATUS_HEADERS_AVAILABLE then do {
        st \<leftarrow> get_state;
        boost_assert (st = Headers_available) ''state == headers_available'';
        step_complete os 0 0 }
      else if status = STATUS_READ_COMPLETE then do {
        st \<leftarrow> get_state;
        boost_assert (st = Read_complete) ''state == read_complete'';
        step_complete os 0 (ucast infolen) }
      else if status = STATUS_SENDREQUEST_COMPLETE then do {
        st \<leftarrow> get_state;
        boost_assert (st = Send_request) ''state == send_request'';
        step_complete os 0 0 }
      else if status = STATUS_WRITE_COMPLETE then do {
        st \<leftarrow> get_state;
        boost_assert (st = Write_complete) ''state == write_complete'';
        boost_assert (infolen = 4) ''dwStatusInformationLength == sizeof(DWORD)'';
        data_len \<leftarrow> read_dword info;
        step_complete os 0 (ucast data_len) }
      else if status = STATUS_REQUEST_ERROR then callback_request_error os info
      else boost_assert False ''dwInternetStatus unknown.'')"

section \<open>async_op and async_len_op\<close>

text \<open>
  A token is what the completion of an operation runs: the user's handler, or the composed
  operation that moved itself into the call.  Operations without a length call it with the
  default \<open>0\<close>.
\<close>

type_synonym 'z token = "error_code \<Rightarrow> size_t \<Rightarrow> ('z asio_request_scheme, unit) state"

definition user_handler :: "winhttp_os \<Rightarrow> 'z token" where
  "user_handler os ec len = do { _ \<leftarrow> invoke os (Complete ec len); ret () }"

text \<open>\<open>operator()\<close>: the first run registers the wait, \<open>async_op_wake\<close> is the waiting lambda.\<close>

definition async_op_start :: "winhttp_os \<Rightarrow> 'z token \<Rightarrow> error_code \<Rightarrow>
    ('z asio_request_scheme, unit) state" where
  "async_op_start os tok ec =
     (if failed ec then tok ec 0
      else do { ev \<leftarrow> gets step_event; _ \<leftarrow> invoke os (Event_async_wait ev Async_op); ret () })"

definition async_op_wake :: "winhttp_os \<Rightarrow> 'z token \<Rightarrow> error_code \<Rightarrow>
    ('z asio_request_scheme, unit) state" where
  "async_op_wake os tok ec = do {
     boost_assert (\<not> failed ec) ''async_op: !ec.failed()'';
     c \<leftarrow> gets step_ec;
     tok c 0
   }"

definition async_len_op_start :: "winhttp_os \<Rightarrow> 'z token \<Rightarrow> error_code \<Rightarrow>
    ('z asio_request_scheme, unit) state" where
  "async_len_op_start os tok ec =
     (if failed ec then tok ec 0
      else do { ev \<leftarrow> gets step_event; _ \<leftarrow> invoke os (Event_async_wait ev Async_len_op); ret () })"

definition async_len_op_wake :: "winhttp_os \<Rightarrow> 'z token \<Rightarrow> error_code \<Rightarrow>
    ('z asio_request_scheme, unit) state" where
  "async_len_op_wake os tok ec = do {
     boost_assert (\<not> failed ec) ''async_len_op: !ec.failed()'';
     c \<leftarrow> gets step_ec;
     l \<leftarrow> gets step_len;
     tok c l
   }"

section \<open>Effect of the context operations\<close>

text \<open>
  The event is usable when its handle is valid and the documented behaviour of \<open>SetEvent\<close> and
  \<open>ResetEvent\<close> on a valid event holds: they succeed.
\<close>

definition event_usable :: "winhttp_os \<Rightarrow> 'z asio_request_scheme \<Rightarrow> bool" where
  "event_usable os s \<longleftrightarrow> step_event s \<noteq> 0 \<and> step_event s \<noteq> INVALID_HANDLE_VALUE \<and>
     (\<forall>t. truthy (os t (SetEvent (step_event s))) \<and> truthy (os t (ResetEvent (step_event s))))"

text \<open>
  The state of a manual-reset event created unsignalled, as its documentation defines it: it is
  signalled by the latest \<open>SetEvent\<close> until the next \<open>ResetEvent\<close>.
\<close>

definition signalled :: "HANDLE \<Rightarrow> (winhttp_call, reply) history \<Rightarrow> bool" where
  "signalled h t =
     fold (\<lambda>(c, _) b. if c = SetEvent h then True else if c = ResetEvent h then False else b) t False"

lemma signalled_append [simp]:
  "signalled h (t @ u) =
     fold (\<lambda>(c, _) b. if c = SetEvent h then True else if c = ResetEvent h then False else b)
       u (signalled h t)"
  by (simp add: signalled_def)

lemma exec_step_complete:
  "event_usable os s \<Longrightarrow> exec (step_complete os ec len) s =
     s\<lparr>step_ec := ec, step_len := len,
       trace := trace s @ [(SetEvent (step_event s), os (trace s) (SetEvent (step_event s)))]\<rparr>"
  by (simp add: step_complete_def exec_simps event_usable_def)

lemma exec_step_reset:
  "event_usable os s \<Longrightarrow> exec (step_reset os) s =
     s\<lparr>step_ec := 0, step_len := 0,
       trace := trace s @ [(ResetEvent (step_event s), os (trace s) (ResetEvent (step_event s)))]\<rparr>"
  by (simp add: step_reset_def exec_simps event_usable_def)

lemma event_usable_cong:
  "step_event s' = step_event s \<Longrightarrow> event_usable os s' = event_usable os s"
  by (simp add: event_usable_def)

end
