(* ===== verification/Winhttp_Request.thy ===== *)
theory Winhttp_Request
  imports Winhttp_Context
begin

text \<open>
  \<^verbatim>\<open>winhttp/winhttp_asio.hpp\<close>, \<open>basic_winhttp_request_asio_handle\<close>: opening a request with the
  managed callback, and the five asynchronous operations.  Each has two parts, kept apart
  because the WinHTTP thread may run between them: \<open>\<dots>_issue\<close> (set the state, reset the event,
  call the API, complete the step at once if the call failed) and the registration of the
  wait by the composed operation.

  The second half is the contract that the five share, the locale \<open>async_step\<close>, with its five
  interpretations; \<open>Winhttp_Protocol\<close> builds the protocol of the threads on it.
\<close>

section \<open>Operations\<close>

definition managed_open :: "winhttp_os \<Rightarrow> HINTERNET \<Rightarrow> wstring \<Rightarrow> wstring option \<Rightarrow>
    wstring option \<Rightarrow> wstring option \<Rightarrow> wstring list option \<Rightarrow> DWORD \<Rightarrow> error_code \<Rightarrow>
    ('z asio_request_scheme, error_code) state" where
  "managed_open os hConnect verb objname version referrer accept flags ec = do {
     ec \<leftarrow> request_open os hConnect verb objname version referrer accept flags ec;
     if failed ec then ret ec
     else do {
       (_, ec) \<leftarrow> set_status_callback os BasicAsioAsyncCallback_ptr
                    WINHTTP_CALLBACK_FLAG_ALL_COMPLETIONS ec;
       ret ec
     }
   }"

definition managed_open_simple :: "winhttp_os \<Rightarrow> HINTERNET \<Rightarrow> wstring \<Rightarrow> wstring option \<Rightarrow>
    error_code \<Rightarrow> ('z asio_request_scheme, error_code) state" where
  "managed_open_simple os hConnect meth path ec =
     managed_open os hConnect meth path None None None WINHTTP_FLAG_SECURE ec"

text \<open>\<open>this\<close> is the address of the context, passed to WinHTTP as \<open>dwContext\<close>.\<close>

definition async_send_issue :: "winhttp_os \<Rightarrow> DWORD_PTR \<Rightarrow> wstring option \<Rightarrow> DWORD \<Rightarrow>
    bytes option \<Rightarrow> DWORD \<Rightarrow> DWORD \<Rightarrow> ('z asio_request_scheme, unit) state" where
  "async_send_issue os this hdrs hlen opt optlen totlen = do {
     set_state Send_request;
     step_reset os;
     ec \<leftarrow> send os hdrs hlen opt optlen totlen this 0;
     only_if (failed ec) (do { set_state Error; step_complete os ec 0 })
   }"

definition async_send :: "winhttp_os \<Rightarrow> DWORD_PTR \<Rightarrow> wstring option \<Rightarrow> DWORD \<Rightarrow>
    bytes option \<Rightarrow> DWORD \<Rightarrow> DWORD \<Rightarrow> 'z token \<Rightarrow> ('z asio_request_scheme, unit) state" where
  "async_send os this hdrs hlen opt optlen totlen tok = do {
     async_send_issue os this hdrs hlen opt optlen totlen;
     async_op_start os tok 0
   }"

definition async_recieve_response_issue :: "winhttp_os \<Rightarrow> ('z asio_request_scheme, unit) state" where
  "async_recieve_response_issue os = do {
     set_state Headers_available;
     step_reset os;
     ec \<leftarrow> receive_response os 0;
     only_if (failed ec) (do { set_state Error; step_complete os ec 0 })
   }"

definition async_recieve_response :: "winhttp_os \<Rightarrow> 'z token \<Rightarrow>
    ('z asio_request_scheme, unit) state" where
  "async_recieve_response os tok = do {
     async_recieve_response_issue os;
     async_op_start os tok 0
   }"

definition async_query_data_available_issue :: "winhttp_os \<Rightarrow>
    ('z asio_request_scheme, unit) state" where
  "async_query_data_available_issue os = do {
     set_state Data_available;
     step_reset os;
     ec \<leftarrow> query_data_available os 0;
     only_if (failed ec) (do { set_state Error; step_complete os ec 0 })
   }"

definition async_query_data_available :: "winhttp_os \<Rightarrow> 'z token \<Rightarrow>
    ('z asio_request_scheme, unit) state" where
  "async_query_data_available os tok = do {
     async_query_data_available_issue os;
     async_len_op_start os tok 0
   }"

definition async_read_data_issue :: "winhttp_os \<Rightarrow> DWORD \<Rightarrow>
    ('z asio_request_scheme, unit) state" where
  "async_read_data_issue os n = do {
     set_state Read_complete;
     step_reset os;
     ec \<leftarrow> read_data os n 0;
     only_if (failed ec) (do { set_state Error; step_complete os ec 0 })
   }"

definition async_read_data :: "winhttp_os \<Rightarrow> DWORD \<Rightarrow> 'z token \<Rightarrow>
    ('z asio_request_scheme, unit) state" where
  "async_read_data os n tok = do {
     async_read_data_issue os n;
     async_len_op_start os tok 0
   }"

definition async_write_data_issue :: "winhttp_os \<Rightarrow> bytes \<Rightarrow> DWORD \<Rightarrow>
    ('z asio_request_scheme, unit) state" where
  "async_write_data_issue os buf n = do {
     set_state Write_complete;
     step_reset os;
     ec \<leftarrow> write_data os buf n 0;
     only_if (failed ec) (do { set_state Error; step_complete os ec 0 })
   }"

definition async_write_data :: "winhttp_os \<Rightarrow> bytes \<Rightarrow> DWORD \<Rightarrow> 'z token \<Rightarrow>
    ('z asio_request_scheme, unit) state" where
  "async_write_data os buf n tok = do {
     async_write_data_issue os buf n;
     async_len_op_start os tok 0
   }"

section \<open>The interface of an asynchronous step\<close>

text \<open>
  The five operations share one contract with the context.  \<open>st\<close> is the state in which the
  callback must find the context, \<open>api\<close> the WinHTTP call.  \<open>issued\<close> is the intermediate state at
  the call: state set and event reset \<^emph>\<open>before\<close> WinHTTP can run the callback.
\<close>

definition at_reset :: "winhttp_os \<Rightarrow> ctx_state \<Rightarrow> 'z asio_request_scheme \<Rightarrow>
    'z asio_request_scheme" where
  "at_reset os st s = s\<lparr>ctx_state := st, step_ec := 0, step_len := 0,
     trace := trace s @ [(ResetEvent (step_event s), os (trace s) (ResetEvent (step_event s)))]\<rparr>"

definition accepted :: "winhttp_os \<Rightarrow> winhttp_call \<Rightarrow> (winhttp_call, reply) history \<Rightarrow> bool" where
  "accepted os c t \<longleftrightarrow> truthy (os t c)"

definition last_error :: "winhttp_os \<Rightarrow> winhttp_call \<Rightarrow> (winhttp_call, reply) history \<Rightarrow> DWORD" where
  "last_error os c t = dword (os (call_on os c t) GetLastError)"

text \<open>Documented: after a failed call the last error is not \<open>0\<close>.\<close>

definition reports_errors :: "winhttp_os \<Rightarrow> bool" where
  "reports_errors os \<longleftrightarrow> (\<forall>t c. \<not> accepted os c t \<longrightarrow> failed (last_error os c t))"

locale async_step =
  fixes os :: winhttp_os
    and issue :: "('z asio_request_scheme, unit) state"
    and st :: ctx_state
    and api :: "HINTERNET \<Rightarrow> winhttp_call"
  assumes issue_accepted:
    "\<lbrakk>event_usable os s; r = at_reset os st s; accepted os (api (handle s)) (trace r)\<rbrakk> \<Longrightarrow>
     exec issue s = r\<lparr>trace := call_on os (api (handle s)) (trace r)\<rparr>"
    and issue_rejected:
    "\<lbrakk>event_usable os s; r = at_reset os st s; \<not> accepted os (api (handle s)) (trace r);
      e = last_error os (api (handle s)) (trace r); failed e;
      t = call_on os GetLastError (call_on os (api (handle s)) (trace r))\<rbrakk> \<Longrightarrow>
     exec issue s = r\<lparr>ctx_state := Error, step_ec := e, step_len := 0,
       trace := call_on os (SetEvent (step_event s)) t\<rparr>"
    and issued_state: "st \<noteq> Error"
    and api_no_event: "api h \<noteq> SetEvent ev" "api h \<noteq> ResetEvent ev" "api h \<noteq> Complete c n"
begin

text \<open>After issuing, the event is signalled exactly if the call was rejected.\<close>

lemma issue_outcome:
  assumes "event_usable os s" and "reports_errors os"
  defines "s' \<equiv> exec issue s"
  shows "step_event s' = step_event s \<and> violations s' = violations s \<and> handle s' = handle s \<and>
    (if ctx_state s' = Error
     then signalled (step_event s) (trace s') \<and> failed (step_ec s') \<and> step_len s' = 0
     else ctx_state s' = st \<and> \<not> signalled (step_event s) (trace s'))"
proof (cases "accepted os (api (handle s)) (trace (at_reset os st s))")
  case True
  then have "s' = (at_reset os st s)\<lparr>trace :=
      call_on os (api (handle s)) (trace (at_reset os st s))\<rparr>"
    unfolding s'_def by (rule issue_accepted [OF assms(1) refl])
  then show ?thesis
    by (simp add: at_reset_def call_on_def issued_state api_no_event [THEN not_sym] api_no_event)
next
  case False
  then have e: "failed (last_error os (api (handle s)) (trace (at_reset os st s)))"
    using assms(2) by (auto simp: reports_errors_def)
  show ?thesis
    unfolding s'_def issue_rejected [OF assms(1) refl False refl e refl] using e
    by (simp add: at_reset_def call_on_def)
qed

lemma issue_no_completion:
  assumes "event_usable os s" and "reports_errors os"
  shows "filter (\<lambda>c. \<exists>e n. c = Complete e n) (calls (exec issue s)) =
    filter (\<lambda>c. \<exists>e n. c = Complete e n) (calls s)"
proof (cases "accepted os (api (handle s)) (trace (at_reset os st s))")
  case True
  show ?thesis
    unfolding issue_accepted [OF assms(1) refl True]
    by (simp add: calls_def at_reset_def call_on_def api_no_event)
next
  case False
  then have e: "failed (last_error os (api (handle s)) (trace (at_reset os st s)))"
    using assms(2) by (auto simp: reports_errors_def)
  show ?thesis
    unfolding issue_rejected [OF assms(1) refl False refl e refl]
    by (simp add: calls_def at_reset_def call_on_def api_no_event)
qed

end

lemma step_reset_at_reset:
  "event_usable os s \<Longrightarrow>
   exec (step_reset os) (s\<lparr>ctx_state := st\<rparr>) = at_reset os st s"
  by (subst exec_step_reset) (simp_all add: event_usable_def at_reset_def)

lemmas issue_defs = async_send_issue_def async_recieve_response_issue_def
  async_query_data_available_issue_def async_read_data_issue_def async_write_data_issue_def
  set_state_def send_def receive_response_def query_data_available_def read_data_def write_data_def

lemma event_usable_at_reset: "event_usable os (at_reset os st s) = event_usable os s"
  by (simp add: event_usable_def at_reset_def)

lemmas step_facts = step_reset_at_reset exec_step_complete check_def native_handle_def exec_simps
  accepted_def last_error_def call_on_def event_usable_def

interpretation send_step: async_step os "async_send_issue os this hdrs hlen opt optlen totlen"
    Send_request "\<lambda>h. WinHttpSendRequest h hdrs hlen opt optlen totlen this"
  by unfold_locales (simp_all add: issue_defs step_facts at_reset_def)

interpretation receive_step: async_step os "async_recieve_response_issue os"
    Headers_available WinHttpReceiveResponse
  by unfold_locales (simp_all add: issue_defs step_facts at_reset_def)

interpretation query_step: async_step os "async_query_data_available_issue os"
    Data_available WinHttpQueryDataAvailable
  by unfold_locales (simp_all add: issue_defs step_facts at_reset_def)

interpretation read_step: async_step os "async_read_data_issue os n"
    Read_complete "\<lambda>h. WinHttpReadData h n"
  by unfold_locales (simp_all add: issue_defs step_facts at_reset_def)

interpretation write_step: async_step os "async_write_data_issue os buf n"
    Write_complete "\<lambda>h. WinHttpWriteData h buf n"
  by unfold_locales (simp_all add: issue_defs step_facts at_reset_def)

end
