(* ===== verification/Winhttp_Protocol.thy ===== *)
theory Winhttp_Protocol
  imports Winhttp_Request
begin

text \<open>
  The two threads around one request handle.  The user's thread issues an operation and
  registers the wait; a WinHTTP thread runs the status callback for a call that was accepted;
  the executor wakes the waiting operation once the event is signalled, which runs the
  handler.  The callback may come before or after the wait is registered.  The steps are
  those of the code (\<open>Winhttp_Request\<close>, \<open>Winhttp_Context\<close>); when each may happen is the
  documented behaviour of WinHTTP, of manual-reset events and of asio, and the user's duty to
  start one operation at a time.
\<close>

section \<open>Operations and their reports\<close>

datatype async_api =
    Api_send "wstring option" DWORD "bytes option" DWORD DWORD
  | Api_receive
  | Api_query
  | Api_read DWORD
  | Api_write bytes DWORD

fun issue_of :: "winhttp_os \<Rightarrow> DWORD_PTR \<Rightarrow> async_api \<Rightarrow> ('z asio_request_scheme, unit) state" where
  "issue_of os this (Api_send h hl b bl tot) = async_send_issue os this h hl b bl tot"
| "issue_of os this Api_receive = async_recieve_response_issue os"
| "issue_of os this Api_query = async_query_data_available_issue os"
| "issue_of os this (Api_read n) = async_read_data_issue os n"
| "issue_of os this (Api_write b n) = async_write_data_issue os b n"

fun state_of :: "async_api \<Rightarrow> ctx_state" where
  "state_of (Api_send _ _ _ _ _) = Send_request"
| "state_of Api_receive = Headers_available"
| "state_of Api_query = Data_available"
| "state_of (Api_read _) = Read_complete"
| "state_of (Api_write _ _) = Write_complete"

fun call_of :: "DWORD_PTR \<Rightarrow> async_api \<Rightarrow> HINTERNET \<Rightarrow> winhttp_call" where
  "call_of this (Api_send h hl b bl tot) hr = WinHttpSendRequest hr h hl b bl tot this"
| "call_of this Api_receive hr = WinHttpReceiveResponse hr"
| "call_of this Api_query hr = WinHttpQueryDataAvailable hr"
| "call_of this (Api_read n) hr = WinHttpReadData hr n"
| "call_of this (Api_write b n) hr = WinHttpWriteData hr b n"

fun with_length :: "async_api \<Rightarrow> bool" where
  "with_length (Api_send _ _ _ _ _) = False"
| "with_length Api_receive = False"
| "with_length _ = True"

definition start_of :: "winhttp_os \<Rightarrow> 'z token \<Rightarrow> async_api \<Rightarrow> ('z asio_request_scheme, unit) state" where
  "start_of os tok api =
     (if with_length api then async_len_op_start os tok 0 else async_op_start os tok 0)"

definition wake_of :: "winhttp_os \<Rightarrow> 'z token \<Rightarrow> async_api \<Rightarrow> ('z asio_request_scheme, unit) state" where
  "wake_of os tok api =
     (if with_length api then async_len_op_wake os tok 0 else async_op_wake os tok 0)"

text \<open>The functions of the handle are the two parts in sequence.\<close>

lemma operations_split:
  "async_send os this h hl b bl tot tok =
     do { issue_of os this (Api_send h hl b bl tot); start_of os tok (Api_send h hl b bl tot) }"
  "async_recieve_response os tok = do { issue_of os this Api_receive; start_of os tok Api_receive }"
  "async_query_data_available os tok = do { issue_of os this Api_query; start_of os tok Api_query }"
  "async_read_data os n tok = do { issue_of os this (Api_read n); start_of os tok (Api_read n) }"
  "async_write_data os wb n tok =
     do { issue_of os this (Api_write wb n); start_of os tok (Api_write wb n) }"
  by (simp_all add: start_of_def async_send_def async_recieve_response_def
      async_query_data_available_def async_read_data_def async_write_data_def)

text \<open>What WinHTTP reports for an accepted call, and the arguments it passes to the callback.\<close>

datatype report = Done DWORD | Failed DWORD

fun valid_report :: "report \<Rightarrow> bool" where
  "valid_report (Done _) = True"
| "valid_report (Failed e) = failed e"

fun api_number :: "async_api \<Rightarrow> DWORD" where
  "api_number (Api_send _ _ _ _ _) = API_SEND_REQUEST"
| "api_number Api_receive = API_RECEIVE_RESPONSE"
| "api_number Api_query = API_QUERY_DATA_AVAILABLE"
| "api_number (Api_read _) = API_READ_DATA"
| "api_number (Api_write _ _) = API_WRITE_DATA"

fun callback_args :: "async_api \<Rightarrow> report \<Rightarrow> DWORD \<times> status_information \<times> DWORD" where
  "callback_args api (Failed e) =
     (STATUS_REQUEST_ERROR, Info_result \<lparr>dwResult = api_number api, dwError = e\<rparr>, 16)"
| "callback_args (Api_send _ _ _ _ _) (Done _) = (STATUS_SENDREQUEST_COMPLETE, Info_null, 0)"
| "callback_args Api_receive (Done _) = (STATUS_HEADERS_AVAILABLE, Info_null, 0)"
| "callback_args Api_query (Done n) = (STATUS_DATA_AVAILABLE, Info_dword n, 4)"
| "callback_args (Api_read _) (Done n) = (STATUS_READ_COMPLETE, Info_buffer, n)"
| "callback_args (Api_write _ _) (Done n) = (STATUS_WRITE_COMPLETE, Info_dword n, 4)"

definition callback_of :: "winhttp_os \<Rightarrow> DWORD_PTR \<Rightarrow> async_api \<Rightarrow> report \<Rightarrow>
    ('z asio_request_scheme, unit) state" where
  "callback_of os this api rep =
     (case callback_args api rep of (status, info, len) \<Rightarrow>
        BasicAsioAsyncCallback os this status info len)"

text \<open>What the handler of the operation is to be told.\<close>

fun outcome :: "async_api \<Rightarrow> report \<Rightarrow> error_code \<times> size_t" where
  "outcome api (Failed e) = (e, 0)"
| "outcome api (Done n) = (0, if with_length api then ucast n else 0)"

section \<open>The step relation\<close>

datatype phase = Quiet | Issued async_api | Waiting async_api

text \<open>
  \<open>pending\<close> is the call WinHTTP has accepted and not yet reported; \<open>outcomes\<close> and \<open>issues\<close> are
  history: what the operations so far ended with, and how many were started.
\<close>

record machine =
  req :: asio_request
  phase :: phase
  pending :: "async_api option"
  outcomes :: "(error_code \<times> size_t) list"
  issues :: nat

definition call_accepted :: "winhttp_os \<Rightarrow> DWORD_PTR \<Rightarrow> async_api \<Rightarrow> asio_request \<Rightarrow> bool" where
  "call_accepted os this api s =
     accepted os (call_of this api (handle s)) (trace (at_reset os (state_of api) s))"

definition issue_step :: "winhttp_os \<Rightarrow> DWORD_PTR \<Rightarrow> async_api \<Rightarrow> machine \<Rightarrow> machine" where
  "issue_step os this api m =
     (let s = req m; s' = exec (issue_of os this api) s; acc = call_accepted os this api s
      in m\<lparr>req := s', phase := Issued api, pending := (if acc then Some api else None),
           outcomes := outcomes m @ (if acc then [] else [(step_ec s', step_len s')]),
           issues := Suc (issues m)\<rparr>)"

definition report_step :: "winhttp_os \<Rightarrow> DWORD_PTR \<Rightarrow> async_api \<Rightarrow> report \<Rightarrow> machine \<Rightarrow> machine" where
  "report_step os this api rep m =
     m\<lparr>req := exec (callback_of os this api rep) (req m), pending := None,
       outcomes := outcomes m @ [outcome api rep]\<rparr>"

inductive inner_step :: "winhttp_os \<Rightarrow> DWORD_PTR \<Rightarrow> machine \<Rightarrow> machine \<Rightarrow> bool"
  for os this where
  register: "phase m = Issued api \<Longrightarrow>
     inner_step os this m
       (m\<lparr>req := exec (start_of os (user_handler os) api) (req m), phase := Waiting api\<rparr>)"
| callback: "pending m = Some api \<Longrightarrow> valid_report rep \<Longrightarrow>
     inner_step os this m (report_step os this api rep m)"
| wake: "phase m = Waiting api \<Longrightarrow> signalled (step_event (req m)) (trace (req m)) \<Longrightarrow>
     inner_step os this m
       (m\<lparr>req := exec (wake_of os (user_handler os) api) (req m), phase := Quiet\<rparr>)"

inductive machine_step :: "winhttp_os \<Rightarrow> DWORD_PTR \<Rightarrow> machine \<Rightarrow> machine \<Rightarrow> bool"
  for os this where
  issue: "phase m = Quiet \<Longrightarrow> machine_step os this m (issue_step os this api m)"
| inner: "inner_step os this m m' \<Longrightarrow> machine_step os this m m'"

definition machine_init :: "asio_request \<Rightarrow> machine" where
  "machine_init s = \<lparr>req = s, phase = Quiet, pending = None, outcomes = [], issues = 0\<rparr>"

inductive reachable :: "winhttp_os \<Rightarrow> DWORD_PTR \<Rightarrow> asio_request \<Rightarrow> machine \<Rightarrow> bool"
  for os this s0 where
  start: "reachable os this s0 (machine_init s0)"
| step: "reachable os this s0 m \<Longrightarrow> machine_step os this m m' \<Longrightarrow> reachable os this s0 m'"

section \<open>The invariant\<close>

fun completion :: "winhttp_call \<Rightarrow> (error_code \<times> size_t) option" where
  "completion (Complete e n) = Some (e, n)"
| "completion _ = None"

definition deliveries :: "(winhttp_call, reply) history \<Rightarrow> (error_code \<times> size_t) list" where
  "deliveries t = List.map_filter (\<lambda>e. completion (fst e)) t"

lemma deliveries_simps [simp]:
  "deliveries [] = []"
  "deliveries (t @ u) = deliveries t @ deliveries u"
  "deliveries ((c, r) # t) = (case completion c of None \<Rightarrow> deliveries t | Some x \<Rightarrow> x # deliveries t)"
  by (simp_all add: deliveries_def List.map_filter_def split: option.splits)

lemma completion_call_of [simp]: "completion (call_of this api h) = None"
  by (cases api) auto

text \<open>How an operation in flight stands with the event and the context.\<close>

definition in_flight :: "machine \<Rightarrow> async_api \<Rightarrow> bool" where
  "in_flight m api \<longleftrightarrow>
     (let s = req m in
      case pending m of
        Some api' \<Rightarrow> api' = api \<and> ctx_state s = state_of api \<and>
          \<not> signalled (step_event s) (trace s) \<and> outcomes m = deliveries (trace s)
      | None \<Rightarrow> signalled (step_event s) (trace s) \<and>
          (with_length api \<or> step_len s = 0) \<and>
          outcomes m = deliveries (trace s) @ [(step_ec s, step_len s)])"

definition machine_inv :: "winhttp_os \<Rightarrow> machine \<Rightarrow> bool" where
  "machine_inv os m \<longleftrightarrow>
     event_usable os (req m) \<and> violations (req m) = [] \<and>
     (case phase m of
        Quiet \<Rightarrow> pending m = None \<and> outcomes m = deliveries (trace (req m)) \<and>
          issues m = length (outcomes m)
      | Issued api \<Rightarrow> in_flight m api \<and> issues m = Suc (length (deliveries (trace (req m))))
      | Waiting api \<Rightarrow> in_flight m api \<and> issues m = Suc (length (deliveries (trace (req m)))))"

text \<open>The five interpretations of the step contract, read through \<open>issue_of\<close>.\<close>

lemma issue_of_accepted:
  assumes "event_usable os s" and "call_accepted os this api s"
  shows "exec (issue_of os this api) s = (at_reset os (state_of api) s)
    \<lparr>trace := call_on os (call_of this api (handle s)) (trace (at_reset os (state_of api) s))\<rparr>"
  using assms unfolding call_accepted_def
  by (cases api)
    (simp_all add: send_step.issue_accepted receive_step.issue_accepted query_step.issue_accepted
      read_step.issue_accepted write_step.issue_accepted)

lemma issue_of_rejected:
  assumes "event_usable os s" and "\<not> call_accepted os this api s" and "reports_errors os"
  shows "\<exists>e t. failed e \<and> deliveries t = deliveries (trace s) \<and>
    exec (issue_of os this api) s = (at_reset os (state_of api) s)
      \<lparr>ctx_state := Error, step_ec := e, step_len := 0,
       trace := call_on os (SetEvent (step_event s)) t\<rparr>"
proof -
  let ?c = "call_of this api (handle s)" and ?r = "at_reset os (state_of api) s"
  let ?e = "last_error os ?c (trace ?r)"
  let ?t = "call_on os GetLastError (call_on os ?c (trace ?r))"
  have e: "failed ?e"
    using assms by (simp add: reports_errors_def call_accepted_def)
  have "exec (issue_of os this api) s = ?r\<lparr>ctx_state := Error, step_ec := ?e, step_len := 0,
      trace := call_on os (SetEvent (step_event s)) ?t\<rparr>"
    using assms(1,2) e unfolding call_accepted_def
    by (cases api)
      (simp_all add: send_step.issue_rejected receive_step.issue_rejected query_step.issue_rejected
        read_step.issue_rejected write_step.issue_rejected)
  moreover have "deliveries ?t = deliveries (trace s)"
    by (simp add: call_on_def at_reset_def)
  ultimately show ?thesis using e by blast
qed

lemma call_of_no_event [simp]:
  "call_of this api h \<noteq> SetEvent ev" "call_of this api h \<noteq> ResetEvent ev"
  by (cases api; simp)+

lemma issue_step_inv:
  assumes "machine_inv os m" and "phase m = Quiet" and "reports_errors os"
  shows "machine_inv os (issue_step os this api m)"
proof (cases "call_accepted os this api (req m)")
  case True
  from assms have "event_usable os (req m)" by (simp add: machine_inv_def)
  from issue_of_accepted [OF this True] True assms show ?thesis
    by (simp add: machine_inv_def issue_step_def Let_def in_flight_def at_reset_def call_on_def
        event_usable_def)
next
  case False
  from assms have "event_usable os (req m)" by (simp add: machine_inv_def)
  from issue_of_rejected [OF this False assms(3)] obtain e t where
    "failed e" "deliveries t = deliveries (trace (req m))"
    "exec (issue_of os this api) (req m) = (at_reset os (state_of api) (req m))
      \<lparr>ctx_state := Error, step_ec := e, step_len := 0,
       trace := call_on os (SetEvent (step_event (req m))) t\<rparr>"
    by blast
  with False assms show ?thesis
    by (simp add: machine_inv_def issue_step_def Let_def in_flight_def at_reset_def call_on_def
        event_usable_def)
qed

text \<open>A matching callback passes every assertion and completes the step.\<close>

lemma callback_matches:
  assumes "event_usable os s" and "ctx_state s = state_of api" and "valid_report rep" and "this \<noteq> 0"
  shows "exec (callback_of os this api rep) s =
    exec (step_complete os (fst (outcome api rep)) (snd (outcome api rep))) s"
  using assms
  by (cases api; cases rep)
    (simp_all add: callback_of_def BasicAsioAsyncCallback_def callback_request_error_def
      get_state_def exec_simps)

lemma inner_step_inv:
  assumes "inner_step os this m m'" and "machine_inv os m" and "this \<noteq> 0"
  shows "machine_inv os m'"
  using assms(1)
proof (cases rule: inner_step.cases)
  case (register api)
  then show ?thesis using assms(2)
    by (auto simp: machine_inv_def start_of_def async_len_op_start_def async_op_start_def exec_simps
        event_usable_def in_flight_def Let_def split: option.splits)
next
  case (callback api rep)
  then have "event_usable os (req m)" "ctx_state (req m) = state_of api"
    using assms(2) by (auto simp: machine_inv_def in_flight_def Let_def split: phase.splits)
  from callback_matches [OF this callback(3) assms(3)] callback assms(2) show ?thesis
    by (cases rep)
      (auto simp: machine_inv_def report_step_def exec_step_complete in_flight_def Let_def
        event_usable_def split: phase.splits)
next
  case (wake api)
  then show ?thesis using assms(2)
    by (auto simp: machine_inv_def wake_of_def async_len_op_wake_def async_op_wake_def exec_simps
        event_usable_def in_flight_def Let_def user_handler_def split: option.splits)
qed

definition fresh_request :: "winhttp_os \<Rightarrow> asio_request \<Rightarrow> bool" where
  "fresh_request os s \<longleftrightarrow> event_usable os s \<and> violations s = [] \<and> deliveries (trace s) = []"

text \<open>
  A request object is fresh when it has been constructed, as \<open>CreateEvent\<close> is documented to return
  an event that can be set and reset.
\<close>

definition events_work :: "winhttp_os \<Rightarrow> bool" where
  "events_work os \<longleftrightarrow> (\<forall>t. let h = rv (os t (CreateEvent True False)) in h \<noteq> 0 \<and> h \<noteq> INVALID_HANDLE_VALUE \<and>
     (\<forall>u. truthy (os u (SetEvent h)) \<and> truthy (os u (ResetEvent h))))"

lemma asio_request_new_fresh:
  assumes "events_work os" and "violations s = []" and "deliveries (trace s) = []"
  shows "fresh_request os (exec (asio_request_new os) s)"
  using assms by (simp add: asio_request_new_def asio_request_context_new_def exec_simps fresh_request_def
      event_usable_def events_work_def Let_def)

lemma reachable_inv:
  assumes "reachable os this s0 m" and "fresh_request os s0" and "reports_errors os" and "this \<noteq> 0"
  shows "machine_inv os m"
  using assms(1)
proof (induction rule: reachable.induct)
  case start
  then show ?case using assms(2)
    by (simp add: machine_inv_def machine_init_def fresh_request_def)
next
  case (step m m')
  from step.hyps(2) step.IH show ?case
    by (cases rule: machine_step.cases) 
      (auto intro: issue_step_inv [OF _ _ assms(3)] inner_step_inv [OF _ _ assms(4)])
qed

section \<open>What the protocol guarantees\<close>

text \<open>
  C2: in every reachable state, whatever the platform answers, in whichever order the callback
  and the registration of the wait happen: no assertion of the code has failed, and the results
  handed to handlers are exactly the results of the operations in order, one per operation,
  with at most the last one still outstanding, and none when no operation is in flight.
\<close>

theorem handler_gets_own_result:
  assumes "reachable os this s0 m" and "fresh_request os s0" and "reports_errors os" and "this \<noteq> 0"
  shows "violations (req m) = [] \<and>
    (\<exists>rest. outcomes m = deliveries (trace (req m)) @ rest \<and> length rest \<le> 1 \<and>
       (phase m = Quiet \<longrightarrow> rest = [] \<and> length (deliveries (trace (req m))) = issues m))"
  using reachable_inv [OF assms]
  by (auto simp: machine_inv_def in_flight_def Let_def split: phase.splits option.splits)

text \<open>A concrete platform for the witnesses: every call succeeds.\<close>

definition willing_os :: winhttp_os where
  "willing_os t c = answer 1"

definition sample_request :: asio_request where
  "sample_request = \<lparr>trace = [], violations = [], handle = 7, ctx_state = Idle, step_event = 4,
     step_ec = 0, step_len = 0\<rparr>"

lemma sample_request_fresh: "fresh_request willing_os sample_request"
  by (simp add: fresh_request_def sample_request_def event_usable_def willing_os_def truthy_def)

lemma willing_os_reports: "reports_errors willing_os"
  by (simp add: reports_errors_def accepted_def willing_os_def truthy_def)

definition sample_run :: machine where
  "sample_run = report_step willing_os 16 Api_query (Done 42)
     (issue_step willing_os 16 Api_query (machine_init sample_request))"

lemma sample_run_reachable: "reachable willing_os 16 sample_request sample_run"
  unfolding sample_run_def
  by (intro reachable.step [OF reachable.step [OF reachable.start issue] inner [OF callback]])
    (simp_all add: machine_init_def issue_step_def Let_def call_accepted_def accepted_def
      willing_os_def truthy_def)

theorem handler_gets_own_result_witness:
  "violations (req sample_run) = [] \<and> outcomes sample_run = [(0, 42)] \<and>
   length (outcomes sample_run) \<le> Suc (length (deliveries (trace (req sample_run))))"
proof -
  have "outcomes sample_run = [(0, 42)]"
    by (simp add: sample_run_def report_step_def issue_step_def Let_def machine_init_def
        call_accepted_def accepted_def willing_os_def truthy_def)
  with handler_gets_own_result [OF sample_run_reachable sample_request_fresh willing_os_reports]
  show ?thesis by (auto simp: length_append [symmetric] simp del: length_append)
qed

text \<open>The work left for the operation in flight.\<close>

definition work_left :: "machine \<Rightarrow> nat" where
  "work_left m = (case phase m of Quiet \<Rightarrow> 0 | Issued _ \<Rightarrow> 2 | Waiting _ \<Rightarrow> 1) +
     (if pending m = None then 0 else 1)"

lemma inner_step_work: "inner_step os this m m' \<Longrightarrow> work_left m' < work_left m"
  by (induction rule: inner_step.induct) (auto simp: work_left_def report_step_def)

lemma inner_step_enabled:
  assumes "machine_inv os m" and "phase m \<noteq> Quiet"
  shows "\<exists>m'. inner_step os this m m'"
proof (cases "phase m")
  case (Waiting api)
  show ?thesis
  proof (cases "pending m")
    case None
    with Waiting assms(1) have "signalled (step_event (req m)) (trace (req m))"
      by (simp add: machine_inv_def in_flight_def Let_def)
    with Waiting show ?thesis by (blast intro: inner_step.wake)
  next
    case (Some api')
    then show ?thesis using inner_step.callback [OF Some, of "Done 0"] by auto
  qed
qed (use assms(2) in \<open>auto intro: inner_step.register\<close>)

text \<open>
  C3: an operation never hangs and never waits for more than three steps: after any reachable
  state every further step of the threads lowers \<open>work_left\<close> (at most 3), and when no step is
  left the handle is quiet and every operation started so far has run its handler with its
  result.  No wake-up is lost, on the path where the call itself fails either.
\<close>

theorem operations_complete:
  assumes "reachable os this s0 m" and "fresh_request os s0" and "reports_errors os" and "this \<noteq> 0"
  shows "work_left m \<le> 3 \<and> (\<forall>m'. inner_step os this m m' \<longrightarrow> work_left m' < work_left m) \<and>
    ((\<nexists>m'. inner_step os this m m') \<longrightarrow>
       phase m = Quiet \<and> deliveries (trace (req m)) = outcomes m \<and> length (outcomes m) = issues m)"
proof -
  have inv: "machine_inv os m" by (rule reachable_inv [OF assms])
  have "work_left m \<le> 3" by (simp add: work_left_def split: phase.split)
  moreover have "(\<nexists>m'. inner_step os this m m') \<Longrightarrow> phase m = Quiet"
    using inner_step_enabled [OF inv] by blast
  ultimately show ?thesis using inv inner_step_work
    by (auto simp: machine_inv_def)
qed

theorem operations_complete_witness:
  "work_left sample_run \<le> 3 \<and>
   (\<exists>m'. inner_step willing_os 16 sample_run m' \<and> work_left m' < work_left sample_run)"
proof -
  have "phase sample_run = Issued Api_query"
    by (simp add: sample_run_def report_step_def issue_step_def Let_def)
  then have "\<exists>m'. inner_step willing_os 16 sample_run m'" by (blast intro: inner_step.register)
  then show ?thesis
    using operations_complete [OF sample_run_reachable sample_request_fresh willing_os_reports] by auto
qed

text \<open>
  The user's duty to run one operation at a time is needed: when a receive is issued while
  a send is in flight, the send's callback finds the wrong state and an assertion fails.
\<close>

theorem overlapping_operations_assert:
  assumes "event_usable os s" and "violations s = []" and "this \<noteq> 0"
    and "call_accepted os this Api_receive (exec (issue_of os this (Api_send h hl b bl tot)) s)"
    and "call_accepted os this (Api_send h hl b bl tot) s"
  shows "violations (exec (do {
      issue_of os this (Api_send h hl b bl tot);
      issue_of os this Api_receive;
      callback_of os this (Api_send h hl b bl tot) (Done 0) }) s) = [''state == send_request'']"
proof -
  let ?s1 = "exec (issue_of os this (Api_send h hl b bl tot)) s"
  note s1 = issue_of_accepted [OF assms(1,5)]
  have u1: "event_usable os ?s1"
    using assms(1) unfolding s1 by (simp add: event_usable_def at_reset_def)
  note s2 = issue_of_accepted [OF u1 assms(4)]
  show ?thesis
    unfolding exec_bind s2
    using assms(1-3) unfolding s1
    by (simp add: callback_of_def BasicAsioAsyncCallback_def exec_simps get_state_def at_reset_def
        exec_step_complete event_usable_def)
qed

theorem overlapping_operations_assert_witness:
  "violations (exec (do {
      issue_of willing_os 16 (Api_send None 0 None 0 0);
      issue_of willing_os 16 Api_receive;
      callback_of willing_os 16 (Api_send None 0 None 0 0) (Done 0) }) sample_request) =
   [''state == send_request'']"
  using sample_request_fresh
  by (intro overlapping_operations_assert)
    (simp_all add: fresh_request_def call_accepted_def accepted_def willing_os_def truthy_def)

end
