(* ===== verification/Winhttp_Compose.thy ===== *)
theory Winhttp_Compose
  imports Compose_Op Winhttp_Protocol
begin

text \<open>
  The composed operations over a WinHTTP request: \<open>async_read_body_op\<close>
  (\<^verbatim>\<open>winhttp/winhttp_asio.hpp\<close>), \<open>async_read_some_op\<close> and \<open>async_write_some_op\<close>
  (\<^verbatim>\<open>winhttp/winhttp_stream.hpp\<close>).  Each is a state machine whose \<open>operator()\<close> is resumed with the
  result of the operation it started last.  \<open>self\<close> is the token that \<open>std::move(self)\<close> hands to
  the next operation, \<open>complete\<close> is \<open>self.complete\<close>.
\<close>

section \<open>async_read_body_op\<close>

datatype read_body_state = RB_idle | RB_query_data | RB_read_data | RB_done

record 'b read_body_op = asio_request +
  rb_state :: read_body_state
  rb_buff :: 'b

definition set_rb_state :: "read_body_state \<Rightarrow> (('b, 'z) read_body_op_scheme, unit) state" where
  "set_rb_state st = modify (\<lambda>s. s\<lparr>rb_state := st\<rparr>)"

definition read_body_step :: "winhttp_os \<Rightarrow> 'b dynbuf_ops \<Rightarrow>
    (error_code \<Rightarrow> size_t \<Rightarrow> (('b, 'z) read_body_op_scheme, unit) state) \<Rightarrow>
    (error_code \<Rightarrow> size_t \<Rightarrow> (('b, 'z) read_body_op_scheme, unit) state) \<Rightarrow>
    error_code \<Rightarrow> size_t \<Rightarrow> (('b, 'z) read_body_op_scheme, unit) state" where
  "read_body_step os B self complete ec len =
     (if failed ec then complete ec len
      else do {
        st \<leftarrow> gets rb_state;
        (case st of
           RB_idle \<Rightarrow> do {
             set_rb_state RB_query_data;
             async_query_data_available os self }
         | RB_query_data \<Rightarrow> do {
             set_rb_state RB_read_data;
             modify (\<lambda>s. s\<lparr>rb_buff := prepare B (rb_buff s) (len + 1)\<rparr>);
             async_read_data os (ucast len) self }
         | RB_read_data \<Rightarrow>
             if len \<noteq> 0 then do {
               modify (\<lambda>s. s\<lparr>rb_buff := commit B (rb_buff s) len\<rparr>);
               set_rb_state RB_query_data;
               async_query_data_available os self }
             else do {
               set_rb_state RB_done;
               complete ec 0 }
         | RB_done \<Rightarrow> boost_assert False ''unknown state'')
      })"

text \<open>\<open>async_read_body\<close>: construct the operation and run it for the first time.\<close>

text \<open>The constructor; the request and the buffer it refers to are the state's.\<close>

definition async_read_body_op_new :: "(('b, 'z) read_body_op_scheme, unit) state" where
  "async_read_body_op_new = set_rb_state RB_idle"

declare async_read_body_op_new_def [simp]

definition async_read_body :: "winhttp_os \<Rightarrow> 'b dynbuf_ops \<Rightarrow>
    (error_code \<Rightarrow> size_t \<Rightarrow> (('b, 'z) read_body_op_scheme, unit) state) \<Rightarrow>
    (error_code \<Rightarrow> size_t \<Rightarrow> (('b, 'z) read_body_op_scheme, unit) state) \<Rightarrow>
    (('b, 'z) read_body_op_scheme, unit) state" where
  "async_read_body os B self complete = do {
     async_read_body_op_new;
     read_body_step os B self complete 0 0
   }"

section \<open>async_read_some_op\<close>

datatype read_some_state = RS_idle | RS_query_data | RS_read_data | RS_done

record read_some_op = asio_request +
  rs_state :: read_some_state
  rs_size :: size_t

definition set_rs_state :: "read_some_state \<Rightarrow> ('z read_some_op_scheme, unit) state" where
  "set_rs_state st = modify (\<lambda>s. s\<lparr>rs_state := st\<rparr>)"

definition read_some_step :: "winhttp_os \<Rightarrow>
    (error_code \<Rightarrow> size_t \<Rightarrow> ('z read_some_op_scheme, unit) state) \<Rightarrow>
    (error_code \<Rightarrow> size_t \<Rightarrow> ('z read_some_op_scheme, unit) state) \<Rightarrow>
    error_code \<Rightarrow> size_t \<Rightarrow> ('z read_some_op_scheme, unit) state" where
  "read_some_step os self complete ec len =
     (if failed ec then complete ec len
      else do {
        st \<leftarrow> gets rs_state;
        (case st of
           RS_idle \<Rightarrow> do {
             set_rs_state RS_query_data;
             async_query_data_available os self }
         | RS_query_data \<Rightarrow> do {
             set_rs_state RS_read_data;
             size \<leftarrow> gets rs_size;
             let read_len = min len size;
             async_read_data os (ucast read_len) self }
         | RS_read_data \<Rightarrow> do {
             set_rs_state RS_done;
             complete ec len }
         | RS_done \<Rightarrow> boost_assert False ''unknown state'')
      })"

definition async_read_some_op_new :: "size_t \<Rightarrow> ('z read_some_op_scheme, unit) state" where
  "async_read_some_op_new n = modify (\<lambda>s. s\<lparr>rs_size := n, rs_state := RS_idle\<rparr>)"

declare async_read_some_op_new_def [simp]

definition async_read_some :: "winhttp_os \<Rightarrow> size_t \<Rightarrow>
    (error_code \<Rightarrow> size_t \<Rightarrow> ('z read_some_op_scheme, unit) state) \<Rightarrow>
    (error_code \<Rightarrow> size_t \<Rightarrow> ('z read_some_op_scheme, unit) state) \<Rightarrow>
    ('z read_some_op_scheme, unit) state" where
  "async_read_some os n self complete = do {
     async_read_some_op_new n;
     read_some_step os self complete 0 0
   }"

section \<open>async_write_some_op\<close>

datatype write_some_state = WS_idle | WS_write_data | WS_done

record write_some_op = asio_request +
  ws_state :: write_some_state
  ws_data :: bytes

definition set_ws_state :: "write_some_state \<Rightarrow> ('z write_some_op_scheme, unit) state" where
  "set_ws_state st = modify (\<lambda>s. s\<lparr>ws_state := st\<rparr>)"

text \<open>\<open>data_\<close> and \<open>size_\<close> are the bytes of the user's buffer and their number.\<close>

definition write_some_step :: "winhttp_os \<Rightarrow>
    (error_code \<Rightarrow> size_t \<Rightarrow> ('z write_some_op_scheme, unit) state) \<Rightarrow>
    (error_code \<Rightarrow> size_t \<Rightarrow> ('z write_some_op_scheme, unit) state) \<Rightarrow>
    error_code \<Rightarrow> size_t \<Rightarrow> ('z write_some_op_scheme, unit) state" where
  "write_some_step os self complete ec len =
     (if failed ec then complete ec len
      else do {
        st \<leftarrow> gets ws_state;
        (case st of
           WS_idle \<Rightarrow> do {
             set_ws_state WS_write_data;
             d \<leftarrow> gets ws_data;
             async_write_data os d (word_of_nat (length d)) self }
         | WS_write_data \<Rightarrow> do {
             set_ws_state WS_done;
             complete ec len }
         | WS_done \<Rightarrow> boost_assert False ''unknown state'')
      })"

definition async_write_some_op_new :: "bytes \<Rightarrow> ('z write_some_op_scheme, unit) state" where
  "async_write_some_op_new data = modify (\<lambda>s. s\<lparr>ws_data := data, ws_state := WS_idle\<rparr>)"

declare async_write_some_op_new_def [simp]

definition async_write_some :: "winhttp_os \<Rightarrow> bytes \<Rightarrow>
    (error_code \<Rightarrow> size_t \<Rightarrow> ('z write_some_op_scheme, unit) state) \<Rightarrow>
    (error_code \<Rightarrow> size_t \<Rightarrow> ('z write_some_op_scheme, unit) state) \<Rightarrow>
    ('z write_some_op_scheme, unit) state" where
  "async_write_some os d self complete = do {
     async_write_some_op_new d;
     write_some_step os self complete 0 0
   }"

section \<open>What starting one operation does\<close>

text \<open>
  An operation of the handle adds one wait to the history and no completion, and leaves the
  handle, the event and every field of an extending record alone.  \<open>silent\<close> code adds neither;
  its rules follow the structure of the code.
\<close>

fun is_wait :: "winhttp_call \<Rightarrow> bool" where
  "is_wait (Event_async_wait _ _) = True"
| "is_wait _ = False"

definition waits :: "(winhttp_call, reply) history \<Rightarrow> nat" where
  "waits t = length (filter (\<lambda>e. is_wait (fst e)) t)"

lemma waits_simps [simp]:
  "waits [] = 0"
  "waits (t @ u) = waits t + waits u"
  "waits ((c, r) # t) = (if is_wait c then Suc (waits t) else waits t)"
  by (simp_all add: waits_def)

definition frame :: "'z asio_request_scheme \<Rightarrow> 'z asio_request_scheme \<Rightarrow> bool" where
  "frame s s' \<longleftrightarrow> deliveries (trace s') = deliveries (trace s) \<and> handle s' = handle s \<and>
     step_event s' = step_event s \<and> asio_request.more s' = asio_request.more s"

definition silent :: "('z asio_request_scheme, 'a) state \<Rightarrow> bool" where
  "silent m \<longleftrightarrow> (\<forall>s. frame s (exec m s) \<and> waits (trace (exec m s)) = waits (trace s))"

named_theorems silent_intros \<open>code that neither waits nor completes\<close>

lemma silent_bind [silent_intros]: "silent m \<Longrightarrow> (\<And>x. silent (f x)) \<Longrightarrow> silent (m \<bind> f)"
  by (simp add: silent_def frame_def exec_simps)

lemma silent_if [silent_intros]: "silent m \<Longrightarrow> silent n \<Longrightarrow> silent (if b then m else n)"
  by simp

lemma silent_basic [silent_intros]:
  "silent (ret x)" "silent (gets g)" "silent (boost_assert b msg)"
  by (simp_all add: silent_def frame_def)

lemma silent_only_if [silent_intros]: "silent m \<Longrightarrow> silent (only_if b m)"
  by (simp add: silent_def frame_def)

lemma silent_invoke [silent_intros]:
  "completion c = None \<Longrightarrow> \<not> is_wait c \<Longrightarrow> silent (invoke os c)"
  by (simp add: silent_def frame_def)

lemma silent_modify [silent_intros]:
  "(\<And>s. trace (f s) = trace s \<and> handle (f s) = handle s \<and> step_event (f s) = step_event s \<and>
     asio_request.more (f s) = asio_request.more s) \<Longrightarrow> silent (modify f)"
  by (simp add: silent_def frame_def)

lemma issues_silent:
  "silent (async_query_data_available_issue os)"
  "silent (async_read_data_issue os n)"
  "silent (async_write_data_issue os b n)"
  "silent (async_recieve_response_issue os)"
  "silent (async_send_issue os this h hl ob bl tot)"
  unfolding issue_defs step_reset_def step_complete_def check_def native_handle_def
  by (auto intro!: silent_intros)

definition starts_one :: "('z asio_request_scheme, unit) state \<Rightarrow> bool" where
  "starts_one m \<longleftrightarrow> (\<forall>s. frame s (exec m s) \<and> waits (trace (exec m s)) = Suc (waits (trace s)))"

lemma ops_start_one:
  "starts_one (async_query_data_available os tok)"
  "starts_one (async_read_data os n tok)"
  "starts_one (async_write_data os b n tok)"
  "starts_one (async_recieve_response os tok)"
  "starts_one (async_send os this h hl ob bl tot tok)"
  using issues_silent [of os] unfolding silent_def frame_def
  by (simp_all add: starts_one_def frame_def async_query_data_available_def async_read_data_def
     async_write_data_def async_recieve_response_def async_send_def
     async_len_op_start_def async_op_start_def exec_simps)

lemma started_facts:
  assumes "starts_one m"
  shows "deliveries (trace (exec m s)) = deliveries (trace s)"
    and "waits (trace (exec m s)) = Suc (waits (trace s))"
    and "asio_request.more (exec m s) = asio_request.more s"
  using assms by (simp_all add: starts_one_def frame_def)

lemma more_read_body:
  "asio_request.more s' = asio_request.more s \<Longrightarrow> rb_state s' = rb_state s \<and> rb_buff s' = rb_buff s"
  by (cases s; cases s') simp

lemma more_read_some:
  "asio_request.more s' = asio_request.more s \<Longrightarrow> rs_state s' = rs_state s \<and> rs_size s' = rs_size s"
  by (cases s; cases s') simp

lemma more_write_some:
  "asio_request.more s' = asio_request.more s \<Longrightarrow> ws_state s' = ws_state s \<and> ws_data s' = ws_data s"
  by (cases s; cases s') simp

lemmas started_simps =
  ops_start_one [THEN started_facts(1)] ops_start_one [THEN started_facts(2)]
  ops_start_one [THEN started_facts(3), THEN more_read_body]
  ops_start_one [THEN started_facts(3), THEN more_read_some]
  ops_start_one [THEN started_facts(3), THEN more_write_some]

section \<open>The three operations meet the contract\<close>

text \<open>
  A completion is error, length and, for a read, the bytes the platform stored in the prepared
  memory before it.
\<close>

type_synonym completion_event = "error_code \<times> size_t \<times> bytes"

definition read_body_resume :: "winhttp_os \<Rightarrow> 'b dynbuf_ops \<Rightarrow>
    (error_code \<Rightarrow> size_t \<Rightarrow> (('b, 'z) read_body_op_scheme, unit) state) \<Rightarrow>
    completion_event \<Rightarrow> (('b, 'z) read_body_op_scheme, unit) state" where
  "read_body_resume os B self e = (case e of (ec, len, xs) \<Rightarrow> do {
     modify (\<lambda>s. if rb_state s = RB_read_data then s\<lparr>rb_buff := store B (rb_buff s) xs\<rparr> else s);
     read_body_step os B self (user_handler os) ec len
   })"

definition read_some_resume :: "winhttp_os \<Rightarrow>
    (error_code \<Rightarrow> size_t \<Rightarrow> ('z read_some_op_scheme, unit) state) \<Rightarrow>
    error_code \<times> size_t \<Rightarrow> ('z read_some_op_scheme, unit) state" where
  "read_some_resume os self e = (case e of (ec, len) \<Rightarrow>
     read_some_step os self (user_handler os) ec len)"

definition write_some_resume :: "winhttp_os \<Rightarrow>
    (error_code \<Rightarrow> size_t \<Rightarrow> ('z write_some_op_scheme, unit) state) \<Rightarrow>
    error_code \<times> size_t \<Rightarrow> ('z write_some_op_scheme, unit) state" where
  "write_some_resume os self e = (case e of (ec, len) \<Rightarrow>
     write_some_step os self (user_handler os) ec len)"

lemmas compose_simps = exec_simps user_handler_def set_rb_state_def set_rs_state_def set_ws_state_def
  started_simps

interpretation read_body: composed_op "read_body_resume os B self" "\<lambda>s. deliveries (trace s)"
    "\<lambda>s. waits (trace s)" "\<lambda>s. rb_state s \<noteq> RB_done" fst "\<lambda>e. fst (snd e)"
proof (unfold_locales, goal_cases)
  case (1 s e)
  then show ?case
    by (cases e; cases "rb_state s")
      (simp_all add: read_body_resume_def read_body_step_def compose_simps)
next
  case (2 s e)
  then show ?case
    by (cases e) (simp add: read_body_resume_def read_body_step_def compose_simps)
qed

interpretation read_some: composed_op "read_some_resume os self" "\<lambda>s. deliveries (trace s)"
    "\<lambda>s. waits (trace s)" "\<lambda>s. rs_state s \<noteq> RS_done" fst snd
proof (unfold_locales, goal_cases)
  case (1 s e)
  then show ?case
    by (cases e; cases "rs_state s")
      (simp_all add: read_some_resume_def read_some_step_def compose_simps Let_def)
next
  case (2 s e)
  then show ?case
    by (cases e) (simp add: read_some_resume_def read_some_step_def compose_simps)
qed

interpretation write_some: composed_op "write_some_resume os self" "\<lambda>s. deliveries (trace s)"
    "\<lambda>s. waits (trace s)" "\<lambda>s. ws_state s \<noteq> WS_done" fst snd
proof (unfold_locales, goal_cases)
  case (1 s e)
  then show ?case
    by (cases e; cases "ws_state s")
      (simp_all add: write_some_resume_def write_some_step_def compose_simps)
next
  case (2 s e)
  then show ?case
    by (cases e) (simp add: write_some_resume_def write_some_step_def compose_simps)
qed

section \<open>Reading a whole body\<close>

text \<open>
  The completions of one round: \<open>n\<close> bytes are announced by the query, and the read stores
  \<open>xs\<close> and reports its length.
\<close>

fun body_events :: "(size_t \<times> bytes) list \<Rightarrow> completion_event list" where
  "body_events [] = []"
| "body_events ((n, xs) # cs) = (0, n, []) # (0, word_of_nat (length xs), xs) # body_events cs"

text \<open>WinHTTP stores at least one byte and no more than it was asked for; lengths are \<open>DWORD\<close>s.\<close>

definition valid_round :: "size_t \<times> bytes \<Rightarrow> bool" where
  "valid_round c \<longleftrightarrow> snd c \<noteq> [] \<and> length (snd c) \<le> unat (fst c) \<and> unat (fst c) < 2 ^ 32"

lemma unat_Suc_small: "unat (n :: size_t) < 2 ^ 32 \<Longrightarrow> unat (n + 1) = Suc (unat n)"
  by (simp add: unat_word_ariths)

lemma unat_length_small: "length xs < 2 ^ 32 \<Longrightarrow> unat (word_of_nat (length xs) :: size_t) = length xs"
  by (simp add: unat_of_nat)

lemma read_body_query:
  assumes "rb_state s = RB_query_data"
  shows "rb_state (exec (read_body_resume os B self (0, n, ys)) s) = RB_read_data" and "rb_buff (exec (read_body_resume os B self (0, n, ys)) s) = prepare B (rb_buff s) (n + 1)"
    and "deliveries (trace (exec (read_body_resume os B self (0, n, ys)) s)) = deliveries (trace s)"
  using assms(1) by (simp_all add: read_body_resume_def read_body_step_def compose_simps)

lemma read_body_read:
  assumes "rb_state s = RB_read_data" and "len \<noteq> 0"
  shows "rb_state (exec (read_body_resume os B self (0, len, xs)) s) = RB_query_data" and "rb_buff (exec (read_body_resume os B self (0, len, xs)) s) = commit B (store B (rb_buff s) xs) len"
    and "deliveries (trace (exec (read_body_resume os B self (0, len, xs)) s)) = deliveries (trace s)"
  using assms(1,2) by (simp_all add: read_body_resume_def read_body_step_def compose_simps)

lemma read_body_end:
  assumes "rb_state s = RB_read_data"
  shows "rb_state (exec (read_body_resume os B self (0, 0, xs)) s) = RB_done" and "rb_buff (exec (read_body_resume os B self (0, 0, xs)) s) = store B (rb_buff s) xs"
    and "deliveries (trace (exec (read_body_resume os B self (0, 0, xs)) s)) = deliveries (trace s) @ [(0, 0)]"
  using assms(1) by (simp_all add: read_body_resume_def read_body_step_def compose_simps)

lemma read_body_fail:
  assumes "failed e"
  shows "deliveries (trace (exec (read_body_resume os B self (e, len, xs)) s)) = deliveries (trace s) @ [(e, len)]"
    and "rb_buff (exec (read_body_resume os B self (e, len, xs)) s) = (if rb_state s = RB_read_data then store B (rb_buff s) xs else rb_buff s)"
  using assms(1) by (simp_all add: read_body_resume_def read_body_step_def compose_simps)

text \<open>Between two rounds: waiting for a query, \<open>d\<close> collected so far.\<close>

definition collecting :: "'b dynbuf_ops \<Rightarrow> bytes \<Rightarrow> ('b, 'z) read_body_op_scheme \<Rightarrow> bool" where
  "collecting B d s \<longleftrightarrow>
     rb_state s = RB_query_data \<and> deliveries (trace s) = [] \<and> readable B (rb_buff s) = d"

text \<open>Within a round: \<open>d\<close> collected, waiting for a read into memory for \<open>n\<close> bytes.\<close>

definition reading :: "'b dynbuf_ops \<Rightarrow> bytes \<Rightarrow> nat \<Rightarrow> ('b, 'z) read_body_op_scheme \<Rightarrow> bool" where
  "reading B d n s \<longleftrightarrow> rb_state s = RB_read_data \<and> deliveries (trace s) = [] \<and>
     readable B (rb_buff s) = d \<and> n \<le> length (region B (rb_buff s))"

lemma read_body_announced:
  assumes "dynbuf_ok B" and "collecting B d s" and "unat n < 2 ^ 32"
  shows "reading B d (unat n) (exec (read_body_resume os B self (0, n, ys)) s)"
proof -
  from assms(2) have "rb_state s = RB_query_data" by (simp add: collecting_def)
  from read_body_query [OF this, of os B self n ys] show ?thesis
    using assms unat_Suc_small [OF assms(3)]
    by (simp add: reading_def collecting_def readable_prepare length_region_prepare)
qed

lemma read_body_arrived:
  assumes "dynbuf_ok B" and "reading B d n s" and "xs \<noteq> []" and "length xs \<le> n"
    and "unat (len :: size_t) = length xs"
  shows "collecting B (d @ xs) (exec (read_body_resume os B self (0, len, xs)) s)"
proof -
  have "len \<noteq> 0" using assms(3,5) by (metis length_0_conv unat_0)
  moreover from assms(2) have "rb_state s = RB_read_data" by (simp add: reading_def)
  ultimately show ?thesis
    using assms(2,4) readable_commit_store [OF assms(1) _ assms(5), of "rb_buff s"]
    by (simp add: collecting_def reading_def read_body_read)
qed

lemma read_body_round:
  assumes "dynbuf_ok B" and "collecting B d s" and "valid_round (n, xs)"
  shows "collecting B (d @ xs)
    (exec (read_body_resume os B self (0, word_of_nat (length xs), xs))
      (exec (read_body_resume os B self (0, n, [])) s))"
  using assms(3)
  by (intro read_body_arrived [OF assms(1) read_body_announced [OF assms(1,2)]] unat_length_small)
    (simp_all add: valid_round_def)

abbreviation read_body_run :: "winhttp_os \<Rightarrow> 'b dynbuf_ops \<Rightarrow>
    (error_code \<Rightarrow> size_t \<Rightarrow> (('b, 'z) read_body_op_scheme, unit) state) \<Rightarrow>
    completion_event list \<Rightarrow> ('b, 'z) read_body_op_scheme \<Rightarrow> ('b, 'z) read_body_op_scheme" where
  "read_body_run os B self \<equiv> drive (read_body_resume os B self) (\<lambda>s. deliveries (trace s) \<noteq> [])"

lemma read_body_rounds:
  assumes "dynbuf_ok B" and "\<And>c. c \<in> set cs \<Longrightarrow> valid_round c" and "collecting B d s"
  shows "collecting B (d @ concat (map snd cs)) (read_body_run os B self (body_events cs) s)"
  using assms(2,3)
proof (induction cs arbitrary: d s)
  case (Cons c cs)
  obtain n xs where c: "c = (n, xs)" by (cases c)
  have "collecting B (d @ xs) (exec (read_body_resume os B self (0, word_of_nat (length xs), xs))
      (exec (read_body_resume os B self (0, n, [])) s))"
    using Cons.prems(1) [of c] by (intro read_body_round assms Cons.prems) (simp add: c)
  from Cons.IH [OF _ this] Cons.prems show ?case
    by (simp add: c collecting_def read_body_query)
qed simp

lemma async_read_body_starts:
  "deliveries (trace s) = [] \<Longrightarrow>
   collecting B (readable B (rb_buff s)) (exec (async_read_body os B self complete) s)"
  by (simp add: async_read_body_def read_body_step_def collecting_def compose_simps)

lemma read_body_collects_lemma:
  assumes "dynbuf_ok B" and "\<And>c. c \<in> set cs \<Longrightarrow> valid_round c" and "deliveries (trace s) = []"
  shows "let s' = read_body_run os B self (body_events cs @ (0, n, []) # (0, 0, []) # later)
    (exec (async_read_body os B self (user_handler os)) s)
    in deliveries (trace s') = [(0, 0)] \<and> rb_state s' = RB_done \<and>
    readable B (rb_buff s') = readable B (rb_buff s) @ concat (map snd cs)"
proof -
  let ?s0 = "exec (async_read_body os B self (user_handler os)) s"
  let ?s1 = "read_body_run os B self (body_events cs) ?s0"
  have c: "collecting B (readable B (rb_buff s) @ concat (map snd cs)) ?s1"
    by (intro read_body_rounds async_read_body_starts assms)
  then show ?thesis
    using assms(1)
    by (simp add: Let_def drive_append drive_finished collecting_def read_body_query read_body_end
        readable_store readable_prepare)
qed

text \<open>
  C9: \<open>async_read_body\<close> collects the whole body: after rounds that announce and deliver
  arbitrary chunks, a read of length 0 completes the operation exactly once, successfully, and
  the buffer holds what it held before followed by all chunks in order.  Completions that
  arrive later change nothing.
\<close>

theorem read_body_collects:
  assumes "dynbuf_ok B" and "\<And>c. c \<in> set cs \<Longrightarrow> valid_round c" and "deliveries (trace s) = []"
  shows "let s' = read_body_run os B self (body_events cs @ (0, n, []) # (0, 0, []) # later)
    (exec (async_read_body os B self (user_handler os)) s)
    in deliveries (trace s') = [(0, 0)] \<and> rb_state s' = RB_done \<and>
    readable B (rb_buff s') = readable B (rb_buff s) @ concat (map snd cs)"
  by (rule read_body_collects_lemma) (use assms in auto)

definition sample_read_body :: "(vector_buffer, unit) read_body_op_scheme" where
  "sample_read_body = asio_request.extend sample_request
     \<lparr>rb_state = RB_idle, rb_buff = Vector_buffer ''>'' [], \<dots> = ()\<rparr>"

lemma sample_read_body_fields:
  "deliveries (trace sample_read_body) = []" "readable vector_ops (rb_buff sample_read_body) = ''>''"
  by (simp_all add: sample_read_body_def sample_request_def asio_request.defs vector_ops_def)

definition sample_chunks :: "(size_t \<times> bytes) list" where
  "sample_chunks = [(3, ''abc''), (8, ''de'')]"

lemma sample_chunks_valid: "c \<in> set sample_chunks \<Longrightarrow> valid_round c"
  by (auto simp: sample_chunks_def valid_round_def)

lemma sample_chunks_concat: "concat (map snd sample_chunks) = ''abcde''"
  by (simp add: sample_chunks_def)

theorem read_body_collects_witness:
  "readable vector_ops (rb_buff (read_body_run willing_os vector_ops (user_handler willing_os)
     (body_events sample_chunks @ [(0, 0, []), (0, 0, [])])
     (exec (async_read_body willing_os vector_ops (user_handler willing_os) (user_handler willing_os))
       sample_read_body))) = ''>abcde''"
  using read_body_collects [where s = sample_read_body and cs = sample_chunks and os = willing_os and n = 0 and later = "[]"
      and self = "user_handler willing_os", OF vector_ops_ok sample_chunks_valid]
  by (simp add: sample_read_body_fields sample_chunks_concat Let_def)

text \<open>
  An error ends the operation wherever it strikes: after any rounds, a failed query or a
  failed read completes it exactly once with that error and length, and what was collected
  before stays readable.
\<close>

theorem read_body_error:
  assumes "dynbuf_ok B" and "\<And>c. c \<in> set cs \<Longrightarrow> valid_round c" and "deliveries (trace s) = []"
    and "failed e" and "fs = [(e, len, [])] \<or> fs = [(0, n, []), (e, len, [])]"
  shows "let s' = read_body_run os B self (body_events cs @ fs @ later)
    (exec (async_read_body os B self (user_handler os)) s)
    in deliveries (trace s') = [(e, len)] \<and>
    readable B (rb_buff s') = readable B (rb_buff s) @ concat (map snd cs)"
proof -
  let ?s0 = "exec (async_read_body os B self (user_handler os)) s"
  let ?s1 = "read_body_run os B self (body_events cs) ?s0"
  have c: "collecting B (readable B (rb_buff s) @ concat (map snd cs)) ?s1"
    by (intro read_body_rounds async_read_body_starts assms)
  with assms(5) show ?thesis
    using assms(1,4)
    by (auto simp: Let_def drive_append drive_finished collecting_def read_body_query read_body_fail
        readable_store readable_prepare)
qed

theorem read_body_error_witness:
  "deliveries (trace (read_body_run willing_os vector_ops (user_handler willing_os)
     (body_events sample_chunks @ [(12002, 0, [])] @ [])
     (exec (async_read_body willing_os vector_ops (user_handler willing_os) (user_handler willing_os))
       sample_read_body))) = [(12002, 0)]"
  using read_body_error [where e = 12002 and cs = sample_chunks and fs = "[(12002, 0, [])]" and len = 0 and os = willing_os
      and later = "[]" and self = "user_handler willing_os",
      OF vector_ops_ok sample_chunks_valid sample_read_body_fields(1)]
  by (simp add: failed_def Let_def)

section \<open>Requested lengths\<close>

fun read_request :: "winhttp_call \<Rightarrow> DWORD option" where
  "read_request (WinHttpReadData _ n) = Some n"
| "read_request _ = None"

fun write_request :: "winhttp_call \<Rightarrow> (bytes \<times> DWORD) option" where
  "write_request (WinHttpWriteData _ b n) = Some (b, n)"
| "write_request _ = None"

lemma request_quiet [adds_intros]:
  "adds read_request [] (set_state st)" "adds read_request [] (step_reset os)"
  "adds read_request [] (step_complete os e l)" "adds read_request [] (check os b e)"
  "adds read_request [] (query_data_available os e)" "adds read_request [] (async_len_op_start os tok 0)"
  "adds write_request [] (set_state st)" "adds write_request [] (step_reset os)"
  "adds write_request [] (step_complete os e l)" "adds write_request [] (check os b e)"
  "adds write_request [] (async_len_op_start os tok 0)"
  unfolding set_state_def step_reset_def step_complete_def check_def query_data_available_def
    native_handle_def async_len_op_start_def
  by (auto intro!: adds_intros)

lemma read_data_adds: "adds read_request [n] (read_data os n e)"
  unfolding read_data_def native_handle_def
  by (rule adds_bind_right [OF adds_basic(2)], rule adds_bind_left [OF adds_invoke])
    (auto intro!: adds_intros)

lemma write_data_adds: "adds write_request [(b, n)] (write_data os b n e)"
  unfolding write_data_def native_handle_def
  by (rule adds_bind_right [OF adds_basic(2)], rule adds_bind_left [OF adds_invoke])
    (auto intro!: adds_intros)

lemma async_read_data_adds: "adds read_request [n] (async_read_data os n tok)"
  unfolding async_read_data_def async_read_data_issue_def
  by (rule adds_bind_left, rule adds_bind_right [OF request_quiet(1)],
      rule adds_bind_right [OF request_quiet(2)], rule adds_bind_left [OF read_data_adds])
    (auto intro!: adds_intros)

lemma async_write_data_adds: "adds write_request [(b, n)] (async_write_data os b n tok)"
  unfolding async_write_data_def async_write_data_issue_def
  by (rule adds_bind_left, rule adds_bind_right [OF request_quiet(7)],
      rule adds_bind_right [OF request_quiet(8)], rule adds_bind_left [OF write_data_adds])
    (auto intro!: adds_intros)

lemma async_query_data_adds: "adds read_request [] (async_query_data_available os tok)"
  unfolding async_query_data_available_def async_query_data_available_issue_def
  by (auto intro!: adds_intros)

lemmas request_facts = async_read_data_adds [THEN addsD] async_write_data_adds [THEN addsD]
  async_query_data_adds [THEN addsD]

text \<open>
  C32: a body read never asks for more than was prepared: when the query announces \<open>len\<close> bytes
  (WinHTTP announces a \<open>DWORD\<close>), exactly one read is requested, for \<open>len\<close> bytes without
  truncation, into a region of \<open>len + 1\<close> bytes.
\<close>

theorem read_within_prepared:
  assumes "dynbuf_ok B" and "rb_state s = RB_query_data" and "unat len < 2 ^ 32"
  shows "\<exists>n. observe read_request (trace (exec (read_body_step os B self complete 0 len) s)) =
      observe read_request (trace s) @ [n] \<and> unat n = unat len \<and>
      length (region B (rb_buff (exec (read_body_step os B self complete 0 len) s))) = unat n + 1"
  using assms
  by (simp add: read_body_step_def compose_simps request_facts length_region_prepare
      unat_Suc_small unat_ucast_small)

theorem read_within_prepared_witness:
  "\<exists>n. observe read_request (trace (exec (read_body_step willing_os vector_ops
        (user_handler willing_os) (user_handler willing_os) 0 700)
        (sample_read_body\<lparr>rb_state := RB_query_data\<rparr>))) = [n] \<and> unat n = 700"
  using read_within_prepared [OF vector_ops_ok, of "sample_read_body\<lparr>rb_state := RB_query_data\<rparr>" 700
      willing_os "user_handler willing_os" "user_handler willing_os"]
  by (auto simp: sample_read_body_def sample_request_def asio_request.defs)

text \<open>
  \<open>async_read_some\<close> asks for the announced bytes but never for more than the user's buffer
  holds, with exactly one read, and completes once with that read's own result.
\<close>

theorem read_some_bounded:
  assumes "deliveries (trace s) = []" and "unat n < 2 ^ 32"
  shows "let s' = drive (read_some_resume os self) (\<lambda>s. deliveries (trace s) \<noteq> [])
        ((0, available) # (ec, got) # later) (exec (async_read_some os n self (user_handler os)) s)
    in deliveries (trace s') = [(ec, got)] \<and>
       (\<exists>k. observe read_request (trace s') = observe read_request (trace s) @ [k] \<and>
            unat k = min (unat available) (unat n))"
proof -
  have k: "unat (ucast (min available n) :: DWORD) = min (unat available) (unat n)"
    using assms(2) by (auto simp: min_def unat_ucast_small word_le_nat_alt)
  show ?thesis
    using assms(1) k
    by (simp add: async_read_some_def read_some_resume_def read_some_step_def compose_simps
        request_facts drive_finished Let_def)
qed

definition sample_read_some :: "(unit) read_some_op_scheme" where
  "sample_read_some = asio_request.extend sample_request \<lparr>rs_state = RS_idle, rs_size = 0, \<dots> = ()\<rparr>"

lemma sample_read_some_fields:
  "deliveries (trace sample_read_some) = []" "trace sample_read_some = []"
  by (simp_all add: sample_read_some_def sample_request_def asio_request.defs)

theorem read_some_bounded_witness:
  "let s' = drive (read_some_resume willing_os (user_handler willing_os))
        (\<lambda>s. deliveries (trace s) \<noteq> []) [(0, 5000), (0, 9)]
        (exec (async_read_some willing_os 1024 (user_handler willing_os) (user_handler willing_os))
          sample_read_some)
   in \<exists>k. observe read_request (trace s') = [k] \<and> unat k = 1024"
  using read_some_bounded [where s = sample_read_some and os = willing_os and n = 1024
      and self = "user_handler willing_os" and available = 5000 and ec = 0 and got = 9 and later = "[]"]
  by (simp add: sample_read_some_def sample_request_def asio_request.defs Let_def)

text \<open>
  \<open>one_in_flight s k s'\<close>: either the handler was called exactly once, or not yet, and then \<open>k\<close>
  operations were started since \<open>s\<close>.
\<close>

definition one_in_flight :: "'z asio_request_scheme \<Rightarrow> nat \<Rightarrow> 'z asio_request_scheme \<Rightarrow> bool" where
  "one_in_flight s k s' \<longleftrightarrow>
     (deliveries (trace s') = [] \<and> waits (trace s') = waits (trace s) + k) \<or>
     length (deliveries (trace s')) = 1"

lemma async_read_body_linear:
  assumes "deliveries (trace s) = []"
  shows "one_in_flight s (Suc (length es)) (read_body_run os B self es
    (exec (async_read_body os B self (user_handler os)) s))"
proof -
  let ?s0 = "exec (async_read_body os B self (user_handler os)) s"
  have "deliveries (trace ?s0) = []" "rb_state ?s0 \<noteq> RB_done" "waits (trace ?s0) = waits (trace s) + 1"
    using assms by (simp_all add: async_read_body_def read_body_step_def compose_simps)
  with read_body.run_linear [where s = ?s0 and es = es and os = os and B = B and self = self]
  show ?thesis by (auto simp: one_in_flight_def)
qed

lemma async_read_some_linear:
  assumes "deliveries (trace s) = []"
  shows "one_in_flight s (Suc (length es))
    (drive (read_some_resume os self) (\<lambda>s. deliveries (trace s) \<noteq> []) es
      (exec (async_read_some os n self (user_handler os)) s))"
proof -
  let ?s0 = "exec (async_read_some os n self (user_handler os)) s"
  have "deliveries (trace ?s0) = []" "rs_state ?s0 \<noteq> RS_done" "waits (trace ?s0) = waits (trace s) + 1"
    using assms by (simp_all add: async_read_some_def read_some_step_def compose_simps)
  with read_some.run_linear [where s = ?s0 and es = es and os = os and self = self]
  show ?thesis by (auto simp: one_in_flight_def)
qed

lemma async_write_some_linear:
  assumes "deliveries (trace s) = []"
  shows "one_in_flight s (Suc (length es))
    (drive (write_some_resume os self) (\<lambda>s. deliveries (trace s) \<noteq> []) es
      (exec (async_write_some os d self (user_handler os)) s))"
proof -
  let ?s0 = "exec (async_write_some os d self (user_handler os)) s"
  have "deliveries (trace ?s0) = []" "ws_state ?s0 \<noteq> WS_done" "waits (trace ?s0) = waits (trace s) + 1"
    using assms by (simp_all add: async_write_some_def write_some_step_def compose_simps)
  with write_some.run_linear [where s = ?s0 and es = es and os = os and self = self]
  show ?thesis by (auto simp: one_in_flight_def)
qed

text \<open>
  C23: the composed operations are linear.  From their start, whatever the platform answers
  and whatever completions arrive, each of the three calls its handler at most once, and while
  it has not, exactly one operation is in flight per completion received.
\<close>

theorem composed_operations_linear:
  assumes "deliveries (trace s) = []" and "deliveries (trace s1) = []" and "deliveries (trace s2) = []"
  shows "one_in_flight s (Suc (length es)) (drive (read_body_resume os B self)
        (\<lambda>s. deliveries (trace s) \<noteq> []) es (exec (async_read_body os B self (user_handler os)) s)) \<and>
    one_in_flight s1 (Suc (length fs)) (drive (read_some_resume os self1)
        (\<lambda>s. deliveries (trace s) \<noteq> []) fs (exec (async_read_some os n self1 (user_handler os)) s1)) \<and>
    one_in_flight s2 (Suc (length gs)) (drive (write_some_resume os self2)
        (\<lambda>s. deliveries (trace s) \<noteq> []) gs (exec (async_write_some os d self2 (user_handler os)) s2))"
  using async_read_body_linear [OF assms(1)] async_read_some_linear [OF assms(2)]
    async_write_some_linear [OF assms(3)] by blast

definition sample_write_some :: "(unit) write_some_op_scheme" where
  "sample_write_some = asio_request.extend sample_request \<lparr>ws_state = WS_idle, ws_data = [], \<dots> = ()\<rparr>"

lemma sample_write_some_fields: "deliveries (trace sample_write_some) = []"
  by (simp add: sample_write_some_def sample_request_def asio_request.defs)

theorem composed_operations_linear_witness:
  "one_in_flight sample_read_some 2 (drive (read_some_resume willing_os (user_handler willing_os))
     (\<lambda>s. deliveries (trace s) \<noteq> []) [(0, 3)]
     (exec (async_read_some willing_os 4 (user_handler willing_os) (user_handler willing_os))
       sample_read_some))"
  using composed_operations_linear [OF sample_read_body_fields(1) sample_read_some_fields(1)
      sample_write_some_fields, where os = willing_os and n = 4 and fs = "[(0, 3)]" and
      ?self1.0 = "user_handler willing_os"]
  by (simp del: drive.simps add: numeral_2_eq_2)

end
