(* ===== verification/Winhttp_Client.thy ===== *)
theory Winhttp_Client
  imports Winhttp_Compose
begin

text \<open>
  \<^verbatim>\<open>winhttp/client.hpp\<close>: \<open>async_exec\<close> opens a request, sends it with the headers and the body
  of a payload, receives the response and reads the whole body, as the composed operation
  \<open>async_exec_op\<close> whose last step nests \<open>async_read_body\<close>.
\<close>

section \<open>Payload and operation\<close>

record payload =
  p_secure :: bool
  p_method :: wstring
  p_path :: "wstring option"
  p_accept :: "accept_types option"
  p_header :: "wstring option"
  p_body :: "bytes option"
  p_insecure_skip_verify :: bool

datatype exec_state = EX_idle | EX_send | EX_receive_response | EX_done

text \<open>\<open>ex_payload\<close> is the payload that \<open>async_exec\<close> takes by reference.\<close>

record 'b exec_op = "'b read_body_op" +
  ex_payload :: payload
  ex_state :: exec_state
  ex_headers :: "wstring option"
  ex_headers_length :: DWORD
  ex_optional :: "bytes option"
  ex_optional_length :: DWORD
  ex_total_length :: DWORD

definition set_ex_state :: "exec_state \<Rightarrow> (('b, 'z) exec_op_scheme, unit) state" where
  "set_ex_state st = modify (\<lambda>s. s\<lparr>ex_state := st\<rparr>)"

text \<open>
  \<open>operator()\<close> of \<open>async_exec_op\<close>; \<open>rb_self\<close> is the token of the nested \<open>async_read_body_op\<close>,
  whose \<open>self.complete\<close> resumes this operation, that is \<open>self\<close>.
\<close>

definition exec_step :: "winhttp_os \<Rightarrow> DWORD_PTR \<Rightarrow> 'b dynbuf_ops \<Rightarrow>
    (error_code \<Rightarrow> size_t \<Rightarrow> (('b, 'z) exec_op_scheme, unit) state) \<Rightarrow>
    (error_code \<Rightarrow> size_t \<Rightarrow> (('b, 'z) exec_op_scheme, unit) state) \<Rightarrow>
    (error_code \<Rightarrow> size_t \<Rightarrow> (('b, 'z) exec_op_scheme, unit) state) \<Rightarrow>
    error_code \<Rightarrow> size_t \<Rightarrow> (('b, 'z) exec_op_scheme, unit) state" where
  "exec_step os this B rb_self self complete ec len =
     (if failed ec then complete ec len
      else do {
        st \<leftarrow> gets ex_state;
        (case st of
           EX_idle \<Rightarrow> do {
             set_ex_state EX_send;
             s \<leftarrow> State_Monad.get;
             async_send os this (ex_headers s) (ex_headers_length s) (ex_optional s)
               (ex_optional_length s) (ex_total_length s) self }
         | EX_send \<Rightarrow> do {
             set_ex_state EX_receive_response;
             async_recieve_response os self }
         | EX_receive_response \<Rightarrow> do {
             set_ex_state EX_done;
             async_read_body os B rb_self self }
         | EX_done \<Rightarrow> complete ec 0)
      })"

section \<open>async_exec\<close>

abbreviation (input) SECURITY_FLAG_IGNORE_UNKNOWN_CA :: DWORD where
  "SECURITY_FLAG_IGNORE_UNKNOWN_CA \<equiv> 0x100"
abbreviation (input) SECURITY_FLAG_IGNORE_CERT_WRONG_USAGE :: DWORD where
  "SECURITY_FLAG_IGNORE_CERT_WRONG_USAGE \<equiv> 0x200"
abbreviation (input) SECURITY_FLAG_IGNORE_CERT_CN_INVALID :: DWORD where
  "SECURITY_FLAG_IGNORE_CERT_CN_INVALID \<equiv> 0x1000"
abbreviation (input) SECURITY_FLAG_IGNORE_CERT_DATE_INVALID :: DWORD where
  "SECURITY_FLAG_IGNORE_CERT_DATE_INVALID \<equiv> 0x2000"
abbreviation (input) WINHTTP_OPTION_SECURITY_FLAGS :: DWORD where
  "WINHTTP_OPTION_SECURITY_FLAGS \<equiv> 31"

unbundle bit_operations_syntax

text \<open>The array of accepted types is built inside the payload.\<close>

definition exec_accept :: "(('b, 'z) exec_op_scheme, wstring list option) state" where
  "exec_accept = do {
     p \<leftarrow> gets ex_payload;
     (case p_accept p of
        None \<Rightarrow> ret None
      | Some a \<Rightarrow> do {
          let (arr, a') = run_state accept_types_get a;
          modify (\<lambda>s. s\<lparr>ex_payload := p\<lparr>p_accept := Some a'\<rparr>\<rparr>);
          ret (map_option c_array arr) })
   }"

text \<open>The first part of \<open>async_exec\<close>: open the request and relax the certificate checks.\<close>

definition exec_open :: "winhttp_os \<Rightarrow> HINTERNET \<Rightarrow> (('b, 'z) exec_op_scheme, error_code) state" where
  "exec_open os hConnect = do {
     p \<leftarrow> gets ex_payload;
     accept \<leftarrow> exec_accept;
     let flags = (if p_secure p then 0 OR WINHTTP_FLAG_SECURE else 0);
     ec \<leftarrow> managed_open os hConnect (p_method p) (p_path p) None None accept flags 0;
     if failed ec then ret ec
     else if p_secure p \<and> p_insecure_skip_verify p then
       set_option os WINHTTP_OPTION_SECURITY_FLAGS
         (SECURITY_FLAG_IGNORE_CERT_CN_INVALID OR SECURITY_FLAG_IGNORE_CERT_DATE_INVALID OR
          SECURITY_FLAG_IGNORE_UNKNOWN_CA OR SECURITY_FLAG_IGNORE_CERT_WRONG_USAGE) 4 ec
     else ret ec
   }"

text \<open>The second part: the operation is constructed from its arguments, and run for the first time.\<close>

definition async_exec_op_new :: "wstring option \<Rightarrow> DWORD \<Rightarrow> bytes option \<Rightarrow> DWORD \<Rightarrow> DWORD \<Rightarrow>
    (('b, 'z) exec_op_scheme, unit) state" where
  "async_exec_op_new lpszHeaders dwHeadersLength lpOptional dwOptionalLength dwTotalLength =
     modify (\<lambda>s. s\<lparr>ex_state := EX_idle, ex_headers := lpszHeaders,
       ex_headers_length := dwHeadersLength, ex_optional := lpOptional,
       ex_optional_length := dwOptionalLength, ex_total_length := dwTotalLength\<rparr>)"

declare async_exec_op_new_def [simp]

definition exec_start :: "winhttp_os \<Rightarrow> DWORD_PTR \<Rightarrow> 'b dynbuf_ops \<Rightarrow>
    (error_code \<Rightarrow> size_t \<Rightarrow> (('b, 'z) exec_op_scheme, unit) state) \<Rightarrow>
    (error_code \<Rightarrow> size_t \<Rightarrow> (('b, 'z) exec_op_scheme, unit) state) \<Rightarrow>
    (error_code \<Rightarrow> size_t \<Rightarrow> (('b, 'z) exec_op_scheme, unit) state) \<Rightarrow>
    (('b, 'z) exec_op_scheme, unit) state" where
  "exec_start os this B rb_self self complete = do {
     p \<leftarrow> gets ex_payload;
     let lpszHeaders = (case p_header p of None \<Rightarrow> None | Some h \<Rightarrow> headers_get h);
     let dwHeadersLength = (case p_header p of None \<Rightarrow> 0 | Some h \<Rightarrow> headers_size h);
     let dwOptionalLength = (case p_body p of None \<Rightarrow> 0 | Some b \<Rightarrow> word_of_nat (length b));
     let dwTotalLength = dwOptionalLength;
     async_exec_op_new lpszHeaders dwHeadersLength (p_body p) dwOptionalLength dwTotalLength;
     exec_step os this B rb_self self complete 0 0
   }"

definition async_exec :: "winhttp_os \<Rightarrow> DWORD_PTR \<Rightarrow> 'b dynbuf_ops \<Rightarrow> HINTERNET \<Rightarrow>
    (error_code \<Rightarrow> size_t \<Rightarrow> (('b, 'z) exec_op_scheme, unit) state) \<Rightarrow>
    (error_code \<Rightarrow> size_t \<Rightarrow> (('b, 'z) exec_op_scheme, unit) state) \<Rightarrow>
    (error_code \<Rightarrow> size_t \<Rightarrow> (('b, 'z) exec_op_scheme, unit) state) \<Rightarrow>
    (('b, 'z) exec_op_scheme, unit) state" where
  "async_exec os this B hConnect rb_self self complete = do {
     ec \<leftarrow> exec_open os hConnect;
     if failed ec then do { _ \<leftarrow> invoke os (Post_handler ec 0); ret () }
     else exec_start os this B rb_self self complete
   }"

definition buff_to_string :: "'b dynbuf_ops \<Rightarrow> 'b \<Rightarrow> string" where
  "buff_to_string B buff = readable B buff"

section \<open>The operation meets the contract\<close>

lemma more_exec:
  assumes "asio_request.more s' = asio_request.more s"
  shows "rb_state s' = rb_state s" and "rb_buff s' = rb_buff s" and "ex_state s' = ex_state s"
    and "ex_payload s' = ex_payload s"
  using assms by (cases s; cases s'; simp)+

text \<open>
  A completion of the operation: once the response is there it belongs to the nested
  operation, whose own completion runs \<open>exec_step\<close> again.
\<close>

definition exec_resume :: "winhttp_os \<Rightarrow> DWORD_PTR \<Rightarrow> 'b dynbuf_ops \<Rightarrow>
    (error_code \<Rightarrow> size_t \<Rightarrow> (('b, 'z) exec_op_scheme, unit) state) \<Rightarrow>
    (error_code \<Rightarrow> size_t \<Rightarrow> (('b, 'z) exec_op_scheme, unit) state) \<Rightarrow>
    completion_event \<Rightarrow> (('b, 'z) exec_op_scheme, unit) state" where
  "exec_resume os this B rb_self self e = (case e of (ec, len, xs) \<Rightarrow> do {
     st \<leftarrow> gets ex_state;
     (if st = EX_done then do {
        modify (\<lambda>s. if rb_state s = RB_read_data then s\<lparr>rb_buff := store B (rb_buff s) xs\<rparr> else s);
        read_body_step os B rb_self (exec_step os this B rb_self self (user_handler os)) ec len }
      else exec_step os this B rb_self self (user_handler os) ec len)
   })"

lemmas exec_op_simps = compose_simps set_ex_state_def
  ops_start_one [THEN started_facts(3), THEN more_exec(3)]

lemma exec_resume_body:
  assumes "ex_state s = EX_done"
  shows "exec (exec_resume os this B rb_self self e) s = exec (read_body_resume os B rb_self e) s"
    and "ex_state (exec (read_body_resume os B rb_self e) s) = EX_done"
  using assms
  by (cases e; cases "rb_state s"; simp add: exec_resume_def read_body_resume_def
      read_body_step_def exec_step_def exec_op_simps)+

lemma exec_body_run:
  "ex_state s = EX_done \<Longrightarrow>
   drive (exec_resume os this B rb_self self) (\<lambda>s. deliveries (trace s) \<noteq> []) es s =
   read_body_run os B rb_self es s"
  by (induction es arbitrary: s) (simp_all add: exec_resume_body)

interpretation exec_op: composed_op "exec_resume os this B rb_self self"
    "\<lambda>s. deliveries (trace s)" "\<lambda>s. waits (trace s)"
    "\<lambda>s. ex_state s = EX_done \<longrightarrow> rb_state s \<noteq> RB_done" fst "\<lambda>e. fst (snd e)"
proof (unfold_locales, goal_cases)
  case (1 s e)
  show ?case
  proof (cases "ex_state s = EX_done")
    case True
    with 1 read_body.resume_linear [of s os B rb_self e] show ?thesis
      by (auto simp: exec_resume_body)
  next
    case False
    with 1 show ?thesis
      by (cases e; cases "ex_state s")
        (simp_all add: exec_resume_def exec_step_def async_read_body_def read_body_step_def exec_op_simps)
  qed
next
  case (2 s e)
  then show ?case
    by (cases e; cases "ex_state s = EX_done")
      (simp_all add: exec_resume_def read_body_step_def exec_step_def exec_op_simps)
qed

section \<open>What async_exec sends\<close>

text \<open>Observers: the request that is sent, and the security options and open flags chosen.\<close>

fun sent_request :: "winhttp_call \<Rightarrow>
    (wstring option \<times> DWORD \<times> bytes option \<times> DWORD \<times> DWORD \<times> DWORD_PTR) option" where
  "sent_request (WinHttpSendRequest _ h hl b bl tot ctx) = Some (h, hl, b, bl, tot, ctx)"
| "sent_request _ = None"

fun security_option :: "winhttp_call \<Rightarrow> DWORD option" where
  "security_option (WinHttpSetOption _ opt buf _) =
     (if opt = WINHTTP_OPTION_SECURITY_FLAGS then Some buf else None)"
| "security_option _ = None"

fun opened_flags :: "winhttp_call \<Rightarrow> DWORD option" where
  "opened_flags (WinHttpOpenRequest _ _ _ _ _ _ flags) = Some flags"
| "opened_flags _ = None"

lemma deliveries_observe: "deliveries t = observe completion t"
  by (simp add: deliveries_def observe_def)

definition exec_frame :: "(('b, 'z) exec_op_scheme \<Rightarrow> 'x) \<Rightarrow> bool" where
  "exec_frame f \<longleftrightarrow> (\<forall>s t. f (s\<lparr>trace := t\<rparr>) = f s) \<and> (\<forall>s t. f (s\<lparr>violations := t\<rparr>) = f s) \<and>
     (\<forall>s h. f (s\<lparr>handle := h\<rparr>) = f s)"

lemma managed_open_keeps:
  "exec_frame f \<Longrightarrow> keeps f (managed_open os hc v p ver r a fl ec)"
  "exec_frame f \<Longrightarrow> keeps f (set_option os opt buf len ec)"
  unfolding managed_open_def request_open_def set_status_callback_def check_def native_handle_def
    assign_def close_def set_option_def
  by (auto intro!: keeps_intros simp: exec_frame_def)

lemma exec_accept_frame:
  "trace (exec exec_accept s) = trace s" "rb_buff (exec exec_accept s) = rb_buff s"
  "p_header (ex_payload (exec exec_accept s)) = p_header (ex_payload s)"
  "p_body (ex_payload (exec exec_accept s)) = p_body (ex_payload s)"
  by (simp_all add: exec_accept_def exec_simps split: option.split prod.split)

lemma exec_open_keeps:
  "rb_buff (exec (exec_open os hc) s) = rb_buff s"
  "p_header (ex_payload (exec (exec_open os hc) s)) = p_header (ex_payload s)"
  "p_body (ex_payload (exec (exec_open os hc) s)) = p_body (ex_payload s)"
  unfolding exec_open_def Let_def
  by (simp_all add: exec_simps exec_accept_frame managed_open_keeps [THEN keepsD] exec_frame_def)

lemma opening_adds [adds_intros]:
  "adds completion [] (managed_open os hc v p ver r a fl ec)"
  "adds sent_request [] (managed_open os hc v p ver r a fl ec)"
  "adds security_option [] (managed_open os hc v p ver r a fl ec)"
  "adds completion [] (set_option os opt buf len ec)"
  "adds sent_request [] (set_option os opt buf len ec)"
  unfolding managed_open_def request_open_def set_status_callback_def check_def native_handle_def
    assign_def close_def set_option_def
  by (auto intro!: adds_intros)

lemma exec_accept_adds [adds_intros]: "adds ob [] exec_accept"
  by (simp add: adds_def exec_accept_frame)

lemma exec_open_adds:
  "adds completion [] (exec_open os hc)" "adds sent_request [] (exec_open os hc)"
  unfolding exec_open_def Let_def by (auto intro!: adds_intros)

lemma sent_quiet [adds_intros]:
  "adds sent_request [] (set_state st)" "adds sent_request [] (step_reset os)"
  "adds sent_request [] (step_complete os e l)" "adds sent_request [] (check os b e)"
  "adds sent_request [] (query_data_available os e)" "adds sent_request [] (read_data os n e)"
  "adds sent_request [] (receive_response os e)" "adds sent_request [] (user_handler os e l)"
  "adds sent_request [] (async_len_op_start os tok 0)" "adds sent_request [] (async_op_start os tok 0)"
  unfolding set_state_def step_reset_def step_complete_def check_def query_data_available_def
    read_data_def receive_response_def native_handle_def async_len_op_start_def async_op_start_def
    user_handler_def
  by (auto intro!: adds_intros)

lemma sent_quiet_ops [adds_intros]:
  "adds sent_request [] (async_query_data_available os tok)"
  "adds sent_request [] (async_read_data os n tok)"
  "adds sent_request [] (async_recieve_response os tok)"
  unfolding async_query_data_available_def async_query_data_available_issue_def async_read_data_def
    async_read_data_issue_def async_recieve_response_def async_recieve_response_issue_def
  by (auto intro!: adds_intros)

lemma send_adds: "adds sent_request [(h, hl, b, bl, tot, this)] (send os h hl b bl tot this e)"
  unfolding send_def native_handle_def
  by (rule adds_bind_right [OF adds_basic(2)], rule adds_bind_left [OF adds_invoke])
    (auto intro!: adds_intros)

lemma async_send_adds:
  "adds sent_request [(h, hl, b, bl, tot, this)] (async_send os this h hl b bl tot tok)"
  unfolding async_send_def async_send_issue_def
  by (rule adds_bind_left, rule adds_bind_right [OF sent_quiet(1)],
      rule adds_bind_right [OF sent_quiet(2)], rule adds_bind_left [OF send_adds])
    (auto intro!: adds_intros)

lemma read_body_resume_sent: "adds sent_request [] (read_body_resume os B self e)"
  unfolding read_body_resume_def read_body_step_def set_rb_state_def
  by (auto intro!: adds_intros split: prod.split read_body_state.split)

lemma read_body_run_sent:
  "observe sent_request (trace (read_body_run os B self es s)) = observe sent_request (trace s)"
  by (induction es arbitrary: s) (simp_all add: read_body_resume_sent [THEN addsD])

lemma async_read_body_sent: "adds sent_request [] (async_read_body os B self complete)"
  by (simp add: adds_def async_read_body_def read_body_step_def set_rb_state_def exec_simps
      sent_quiet_ops [THEN addsD])

lemmas sent_facts = async_read_body_sent [THEN addsD] async_send_adds [THEN addsD] sent_quiet_ops [THEN addsD]
  exec_open_adds(2) [THEN addsD] read_body_run_sent

lemma exec_start_state:
  assumes "deliveries (trace s) = []"
  shows "deliveries (trace (exec (exec_start os this B rb_self self (user_handler os)) s)) = []" and "ex_state (exec (exec_start os this B rb_self self (user_handler os)) s) = EX_send" and "rb_buff (exec (exec_start os this B rb_self self (user_handler os)) s) = rb_buff s"
  using assms(1)
  by (simp_all add: exec_start_def exec_step_def exec_op_simps Let_def
      ops_start_one [THEN started_facts(3), THEN more_exec(2)])

lemma exec_start_sent:
  "observe sent_request (trace (exec (exec_start os this B rb_self self (user_handler os)) s)) =
   observe sent_request (trace s) @
     [(Option.bind (p_header (ex_payload s)) headers_get,
       case_option 0 headers_size (p_header (ex_payload s)), p_body (ex_payload s),
       case_option 0 (\<lambda>b. word_of_nat (length b)) (p_body (ex_payload s)),
       case_option 0 (\<lambda>b. word_of_nat (length b)) (p_body (ex_payload s)), this)]"
  by (simp add: exec_start_def exec_step_def exec_op_simps sent_facts Let_def Option.bind_def
      split: option.split)

lemma exec_sent_response:
  assumes "deliveries (trace s) = []" and "ex_state s = EX_send"
  shows "(drive (exec_resume os this B rb_self self) (\<lambda>s. deliveries (trace s) \<noteq> []) [(0, n, xs), (0, m, ys)] s) = exec (async_read_body os B rb_self (user_handler os))
           (exec (async_recieve_response os self) (s\<lparr>ex_state := EX_receive_response\<rparr>)\<lparr>ex_state := EX_done\<rparr>)"
    and "ex_state (drive (exec_resume os this B rb_self self) (\<lambda>s. deliveries (trace s) \<noteq> []) [(0, n, xs), (0, m, ys)] s) = EX_done"
  using assms(1,2)
  by (simp_all add: exec_resume_def exec_step_def async_read_body_def read_body_step_def exec_op_simps
      sent_facts)

text \<open>
  The whole exchange.  When the request can be opened, the send and the response
  complete, and the body arrives in any rounds, \<open>async_exec\<close> sends exactly one request with the
  payload's headers and body and their lengths, and completes exactly once, successfully, with
  the complete body in the buffer.
\<close>

theorem client_exchange:
  assumes "dynbuf_ok B" and "\<And>c. c \<in> set cs \<Longrightarrow> valid_round c" and "deliveries (trace s) = []"
    and "\<not> failed (result (exec_open os hConnect) s)"
  shows "let s' = drive (exec_resume os this B rb_self self) (\<lambda>s. deliveries (trace s) \<noteq> [])
        ([(0, 0, []), (0, 0, [])] @ body_events cs @ (0, n, []) # (0, 0, []) # later)
        (exec (async_exec os this B hConnect rb_self self (user_handler os)) s);
      p = ex_payload s
    in deliveries (trace s') = [(0, 0)] \<and>
       buff_to_string B (rb_buff s') = readable B (rb_buff s) @ concat (map snd cs) \<and>
       observe sent_request (trace s') = observe sent_request (trace s) @
         [(Option.bind (p_header p) headers_get, case_option 0 headers_size (p_header p), p_body p,
           case_option 0 (\<lambda>b. word_of_nat (length b)) (p_body p),
           case_option 0 (\<lambda>b. word_of_nat (length b)) (p_body p), this)]"
proof -
  let ?s1 = "exec (exec_open os hConnect) s"
  let ?s2 = "exec (exec_start os this B rb_self self (user_handler os)) ?s1"
  let ?s3 = "drive (exec_resume os this B rb_self self) (\<lambda>s. deliveries (trace s) \<noteq> [])
      [(0, 0, []), (0, 0, [])] ?s2"
  let ?r = "(exec (async_recieve_response os self)
      (?s2\<lparr>ex_state := EX_receive_response\<rparr>)\<lparr>ex_state := EX_done\<rparr>)"
  let ?es = "body_events cs @ (0, n, []) # (0, 0, []) # later"
  have start: "exec (async_exec os this B hConnect rb_self self (user_handler os)) s = ?s2"
    using assms(4) by (simp add: async_exec_def exec_bind)
  have d1: "deliveries (trace ?s1) = []"
    using assms(3) by (simp add: deliveries_observe exec_open_adds(1) [THEN addsD])
  note s2 = exec_start_state [OF d1, of os this B rb_self self]
  note s3 = exec_sent_response [OF s2(1,2), of os this B rb_self self 0 "[]" 0 "[]"]
  have d: "deliveries (trace ?r) = []" and b: "rb_buff ?r = rb_buff s"
    using s2 by (simp_all add: started_simps exec_open_keeps)
  have run: "drive (exec_resume os this B rb_self self) (\<lambda>s. deliveries (trace s) \<noteq> [])
      ([(0, 0, []), (0, 0, [])] @ ?es) ?s2 =
      read_body_run os B rb_self ?es (exec (async_read_body os B rb_self (user_handler os)) ?r)"
    unfolding drive_append [of _ _ "[(0, 0, []), (0, 0, [])]"] exec_body_run [OF s3(2)]
    unfolding s3(1) ..
  note body = read_body_collects_lemma [OF assms(1,2) d, of cs os rb_self n later, unfolded Let_def b]
  have sent: "observe sent_request (trace (read_body_run os B rb_self ?es
      (exec (async_read_body os B rb_self (user_handler os)) ?r))) = observe sent_request (trace ?s2)"
    by (simp only: sent_facts) (simp add: sent_facts)
  show ?thesis
    unfolding start Let_def run sent buff_to_string_def
    using body by (simp add: exec_start_sent exec_open_keeps sent_facts del: drive.simps)
qed

definition sample_payload :: payload where
  "sample_payload = \<lparr>p_secure = True, p_method = L ''POST'', p_path = Some (L ''/upload''),
     p_accept = None, p_header = Some (L ''Content-Type: text/plain''), p_body = Some ''hello'',
     p_insecure_skip_verify = True\<rparr>"

definition sample_exec :: "(vector_buffer, unit) exec_op_scheme" where
  "sample_exec = read_body_op.extend (asio_request.extend sample_request
       \<lparr>rb_state = RB_idle, rb_buff = Vector_buffer [] [], \<dots> = ()\<rparr>)
     \<lparr>ex_payload = sample_payload, ex_state = EX_idle, ex_headers = None, ex_headers_length = 0,
      ex_optional = None, ex_optional_length = 0, ex_total_length = 0, \<dots> = ()\<rparr>"

lemma sample_exec_fields:
  "trace sample_exec = []" "deliveries (trace sample_exec) = []" "handle sample_exec = 7"
  "readable vector_ops (rb_buff sample_exec) = []" "ex_payload sample_exec = sample_payload"
  by (simp_all add: sample_exec_def sample_request_def asio_request.defs read_body_op.defs vector_ops_def)

lemma sample_exec_opens: "\<not> failed (result (exec_open willing_os 5) sample_exec)"
  by (simp add: exec_open_def exec_accept_def managed_open_def request_open_def assign_def close_def
      set_status_callback_def set_option_def check_def native_handle_def exec_simps
      sample_exec_fields sample_payload_def willing_os_def truthy_def failed_def)

theorem client_exchange_witness:
  "let s' = drive (exec_resume willing_os 16 vector_ops (user_handler willing_os) (user_handler willing_os))
        (\<lambda>s. deliveries (trace s) \<noteq> [])
        ([(0, 0, []), (0, 0, [])] @ body_events sample_chunks @ [(0, 0, []), (0, 0, [])])
        (exec (async_exec willing_os 16 vector_ops 5 (user_handler willing_os) (user_handler willing_os)
          (user_handler willing_os)) sample_exec)
   in buff_to_string vector_ops (rb_buff s') = ''abcde'' \<and>
      observe sent_request (trace s') =
        [(Some (L ''Content-Type: text/plain''), 24, Some ''hello'', 5, 5, 16)]"
  using client_exchange [where s = sample_exec and cs = sample_chunks and later = "[]" and n = 0
      and this = 16 and rb_self = "user_handler willing_os" and self = "user_handler willing_os",
      OF vector_ops_ok sample_chunks_valid sample_exec_fields(2) sample_exec_opens]
  by (simp add: Let_def sample_exec_fields sample_payload_def sample_chunks_concat headers_get_def
      headers_size_def L_def del: drive.simps)

section \<open>The announced length of the body\<close>

text \<open>
  C31: the body is announced to WinHTTP with the low 32 bits of its length.  When the request can be
  opened, \<open>async_exec\<close> sends one request, with the payload's headers and body, and both lengths
  that it passes along, of the data and in total, are the length of the body modulo \<open>2 ^ 32\<close>: the
  whole body is sent exactly when it is shorter than 4 GiB, a longer one is cut off silently.
\<close>

theorem request_body_announced:
  assumes "\<not> failed (result (exec_open os hConnect) s)" and "p_body (ex_payload s) = Some b"
  shows "\<exists>bl. observe sent_request (trace (exec (async_exec os this B hConnect rb_self self (user_handler os)) s)) =
       observe sent_request (trace s) @ [(Option.bind (p_header (ex_payload s)) headers_get,
         case_option 0 headers_size (p_header (ex_payload s)), Some b, bl, bl, this)] \<and>
     unat bl = length b mod 2 ^ 32 \<and> (unat bl = length b \<longleftrightarrow> length b < 2 ^ 32)"
proof -
  have "unat (word_of_nat (length b) :: DWORD) = length b mod 2 ^ 32" by (simp add: unat_of_nat)
  moreover have "length b mod 2 ^ 32 = length b \<longleftrightarrow> length b < 2 ^ 32"
    by (metis mod_less mod_less_divisor zero_less_numeral zero_less_power)
  ultimately show ?thesis using assms
    by (simp add: async_exec_def exec_bind exec_start_sent exec_open_keeps sent_facts)
qed

text \<open>A body of 4 GiB and five bytes is announced as one of five bytes.\<close>

theorem request_body_announced_witness:
  "\<exists>b. length b = 2 ^ 32 + 5 \<and>
     observe sent_request (trace (exec (async_exec willing_os 16 vector_ops 5 (user_handler willing_os)
       (user_handler willing_os) (user_handler willing_os))
       (sample_exec\<lparr>ex_payload := sample_payload\<lparr>p_body := Some b\<rparr>\<rparr>))) =
     [(Some (L ''Content-Type: text/plain''), 24, Some b, 5, 5, 16)]"
proof -
  obtain b :: bytes where b: "length b = 2 ^ 32 + 5" by (metis Ex_list_of_length)
  let ?s = "sample_exec\<lparr>ex_payload := sample_payload\<lparr>p_body := Some b\<rparr>\<rparr>"
  have "\<not> failed (result (exec_open willing_os 5) ?s)"
    by (simp add: exec_open_def exec_accept_def managed_open_def request_open_def assign_def close_def
        set_status_callback_def set_option_def check_def native_handle_def exec_simps
        sample_exec_fields sample_payload_def willing_os_def truthy_def failed_def)
  from request_body_announced [OF this, of b 16 vector_ops "user_handler willing_os" "user_handler willing_os"]
  obtain bl where sent: "observe sent_request (trace (exec (async_exec willing_os 16 vector_ops 5
      (user_handler willing_os) (user_handler willing_os) (user_handler willing_os)) ?s)) =
      [(Some (L ''Content-Type: text/plain''), 24, Some b, bl, bl, 16)]"
    and bl: "unat bl = length b mod 2 ^ 32"
    by (auto simp: sample_exec_fields sample_payload_def headers_get_def headers_size_def L_def)
  have "(2 ^ 32 + 5) mod 2 ^ 32 = (5 :: nat)" by simp
  with bl b have "unat bl = 5" by (simp only:)
  then have "bl = 5" by (metis of_nat_numeral of_nat_unat unsigned_1 ucast_id)
  with sent b show ?thesis by blast
qed

section \<open>Failures before the request is sent\<close>

fun posted :: "winhttp_call \<Rightarrow> (error_code \<times> size_t) option" where
  "posted (Post_handler e n) = Some (e, n)"
| "posted _ = None"

lemma posted_opening [adds_intros]:
  "adds posted [] (managed_open os hc v p ver r a fl ec)" "adds posted [] (set_option os opt buf len ec)"
  unfolding managed_open_def request_open_def set_status_callback_def check_def native_handle_def
    assign_def close_def set_option_def
  by (auto intro!: adds_intros)

lemma exec_open_posts: "adds posted [] (exec_open os hc)"
  unfolding exec_open_def Let_def by (auto intro!: adds_intros)

text \<open>
  What has to be done to a request before it can be sent, as calls in their order: open it, close the
  handle that the object held before, install the callback, and for a secure payload that asks
  for it relax the certificate checks.
\<close>

definition setup_calls :: "winhttp_os \<Rightarrow> HINTERNET \<Rightarrow> ('b, 'z) exec_op_scheme \<Rightarrow> winhttp_call list" where
  "setup_calls os hConnect s =
     (let p = ex_payload s;
          open_call = WinHttpOpenRequest hConnect (p_method p) (p_path p) None None (result exec_accept s)
            (if p_secure p then WINHTTP_FLAG_SECURE else 0);
          h = rv (os (trace s) open_call)
      in [open_call] @ (if handle s = 0 then [] else [WinHttpCloseHandle (handle s)]) @
         [WinHttpSetStatusCallback h BasicAsioAsyncCallback_ptr WINHTTP_CALLBACK_FLAG_ALL_COMPLETIONS] @
         (if p_secure p \<and> p_insecure_skip_verify p
          then [WinHttpSetOption h WINHTTP_OPTION_SECURITY_FLAGS 0x3300 4] else []))"

text \<open>How each of them says that it failed, and the error of the first one in a list that does.\<close>

fun refused :: "winhttp_call \<Rightarrow> reply \<Rightarrow> bool" where
  "refused (WinHttpOpenRequest _ _ _ _ _ _ _) r = (rv r = 0)"
| "refused (WinHttpSetStatusCallback _ _ _) r = (rv r = WINHTTP_INVALID_STATUS_CALLBACK)"
| "refused (WinHttpSetOption _ _ _ _) r = (rv r = 0)"
| "refused _ r = False"

fun first_refusal :: "winhttp_os \<Rightarrow> winhttp_call list \<Rightarrow> (winhttp_call, reply) history \<Rightarrow> error_code" where
  "first_refusal os [] t = 0"
| "first_refusal os (c # cs) t =
     (if refused c (os t c) then last_error os c t else first_refusal os cs (call_on os c t))"

text \<open>Documented: a refused call leaves an error.\<close>

definition reports_refusals :: "winhttp_os \<Rightarrow> bool" where
  "reports_refusals os \<longleftrightarrow> (\<forall>t c. refused c (os t c) \<longrightarrow> failed (last_error os c t))"

lemma exec_accept_handle: "handle (exec exec_accept s) = handle s"
  by (simp add: exec_accept_def exec_simps split: option.split prod.split)

lemma send_posts:
  "adds posted [] (async_send os this h hl b bl tot tok)"
  unfolding async_send_def async_send_issue_def set_state_def step_reset_def step_complete_def send_def
    check_def native_handle_def async_op_start_def
  by (auto intro!: adds_intros)

lemma exec_start_posts:
  "observe posted (trace (exec (exec_start os this B rb_self self complete) s)) = observe posted (trace s)"
  by (simp add: exec_start_def exec_step_def exec_op_simps Let_def send_posts [THEN addsD])

lemma exec_start_sends:
  "length (observe sent_request (trace (exec (exec_start os this B rb_self self complete) s))) =
   Suc (length (observe sent_request (trace s)))"
  by (simp add: exec_start_def exec_step_def exec_op_simps sent_facts Let_def)

lemma exec_open_refusal:
  assumes "reports_refusals os" and "closes_handles os"
  shows "result (exec_open os hConnect) s = first_refusal os (setup_calls os hConnect s) (trace s)"
  using assms
  by (auto simp: exec_open_def managed_open_def request_open_def assign_def close_def set_status_callback_def
      set_option_def check_def native_handle_def exec_simps exec_accept_frame exec_accept_handle
      setup_calls_def Let_def reports_refusals_def last_error_def call_on_def closes_handles_def truthy_def)

text \<open>
  C30: when one of the calls that prepare the request is refused, its opening, the callback or the
  relaxation of the certificate checks, the handler is posted exactly once, with the error
  that the platform reported for the first of them and length 0, nothing is sent and no operation
  completes; when none is refused, nothing is posted and exactly one request is sent.
\<close>

theorem client_open_failure:
  assumes "reports_refusals os" and "closes_handles os"
    and "e = first_refusal os (setup_calls os hConnect s) (trace s)"
  shows "let s' = exec (async_exec os this B hConnect rb_self self complete) s
    in if failed e
       then observe posted (trace s') = observe posted (trace s) @ [(e, 0)] \<and>
         observe sent_request (trace s') = observe sent_request (trace s) \<and>
         deliveries (trace s') = deliveries (trace s)
       else observe posted (trace s') = observe posted (trace s) \<and>
         length (observe sent_request (trace s')) = Suc (length (observe sent_request (trace s)))"
  using exec_open_refusal [OF assms(1,2), of hConnect s] assms(3)
  by (simp add: async_exec_def exec_simps exec_open_posts [THEN addsD] exec_open_adds [THEN addsD]
      deliveries_observe exec_start_sends exec_start_posts Let_def)

text \<open>A platform on which opening a request fails with a name resolution error.\<close>

fun unresolved_os :: winhttp_os where
  "unresolved_os t (WinHttpOpenRequest _ _ _ _ _ _ _) = answer 0"
| "unresolved_os t GetLastError = answer 12007"
| "unresolved_os t _ = answer 1"

text \<open>One on which the certificate checks cannot be relaxed: 12009 is \<open>ERROR_WINHTTP_INVALID_OPTION\<close>.\<close>

fun strict_os :: winhttp_os where
  "strict_os t (WinHttpSetOption _ _ _ _) = answer 0"
| "strict_os t GetLastError = answer 12009"
| "strict_os t _ = answer 1"

lemma refusing_platforms:
  "reports_refusals unresolved_os" "closes_handles unresolved_os"
  "reports_refusals strict_os" "closes_handles strict_os"
  by (simp_all add: reports_refusals_def closes_handles_def last_error_def failed_def dword_def truthy_def)

lemma sample_setup:
  "first_refusal unresolved_os (setup_calls unresolved_os 5 sample_exec) [] = 12007"
  "first_refusal strict_os (setup_calls strict_os 5 sample_exec) [] = 12009"
  by (simp_all add: setup_calls_def sample_exec_fields sample_payload_def last_error_def dword_def Let_def)

theorem client_open_failure_witness:
  "observe posted (trace (exec (async_exec unresolved_os 16 vector_ops 5 (user_handler unresolved_os)
     (user_handler unresolved_os) (user_handler unresolved_os)) sample_exec)) = [(12007, 0)] \<and>
   observe posted (trace (exec (async_exec strict_os 16 vector_ops 5 (user_handler strict_os)
     (user_handler strict_os) (user_handler strict_os)) sample_exec)) = [(12009, 0)]"
  using client_open_failure [OF refusing_platforms(1,2), of 12007 5 sample_exec 16 vector_ops
      "user_handler unresolved_os" "user_handler unresolved_os"]
    client_open_failure [OF refusing_platforms(3,4), of 12009 5 sample_exec 16 vector_ops
      "user_handler strict_os" "user_handler strict_os"]
  by (simp add: sample_setup sample_exec_fields failed_def Let_def)

section \<open>Certificate checks\<close>

lemma security_quiet [adds_intros]:
  "adds security_option [] (set_state st)" "adds security_option [] (step_reset os)"
  "adds security_option [] (step_complete os e l)" "adds security_option [] (send os h hl b bl tot this e)"
  "adds security_option [] (async_op_start os tok 0)" "adds security_option [] (invoke os (Post_handler e l))"
  "adds opened_flags [] (set_state st)" "adds opened_flags [] (step_reset os)"
  "adds opened_flags [] (step_complete os e l)" "adds opened_flags [] (send os h hl b bl tot this e)"
  "adds opened_flags [] (async_op_start os tok 0)" "adds opened_flags [] (invoke os (Post_handler e l))"
  "adds opened_flags [] (set_option os opt buf len ec)"
  unfolding set_state_def step_reset_def step_complete_def check_def send_def native_handle_def
    async_op_start_def set_option_def
  by (auto intro!: adds_intros)

lemma exec_start_security:
  "adds security_option [] (async_send os this h hl b bl tot tok)"
  "adds opened_flags [] (async_send os this h hl b bl tot tok)"
  unfolding async_send_def async_send_issue_def by (auto intro!: adds_intros)

lemma exec_start_quiet:
  "observe security_option (trace (exec (exec_start os this B rb_self self complete) s)) =
   observe security_option (trace s)"
  "observe opened_flags (trace (exec (exec_start os this B rb_self self complete) s)) =
   observe opened_flags (trace s)"
  by (simp_all add: exec_start_def exec_step_def exec_op_simps Let_def
      exec_start_security [THEN addsD])

lemma set_option_security:
  "adds security_option [buf] (set_option os WINHTTP_OPTION_SECURITY_FLAGS buf len ec)"
  unfolding set_option_def native_handle_def check_def
  by (rule adds_bind_right [OF adds_basic(2)], rule adds_bind_left [OF adds_invoke])
    (auto intro!: adds_intros)

lemma open_flags: "adds opened_flags [fl] (managed_open os hc v p ver r a fl ec)"
  unfolding managed_open_def request_open_def
  by (rule adds_bind_left, rule adds_bind_left [OF adds_invoke])
    (auto intro!: adds_intros simp: set_status_callback_def check_def native_handle_def assign_def close_def)

text \<open>
  C28: certificate checks are relaxed only on request: whatever the platform answers,
  \<open>async_exec\<close> opens one request, with the secure flag exactly when the payload is secure, and
  sets the security option at most once and only for a payload that is both secure and
  marked \<open>insecure_skip_verify\<close>; then the four checks are ignored and no other flag is set.
\<close>

theorem certificate_checks:
  "let s' = exec (async_exec os this B hConnect rb_self self complete) s; p = ex_payload s
   in observe opened_flags (trace s') = observe opened_flags (trace s) @
        [if p_secure p then WINHTTP_FLAG_SECURE else 0] \<and>
      (\<exists>opts. observe security_option (trace s') = observe security_option (trace s) @ opts \<and>
        (opts = [] \<or> opts = [0x3300] \<and> p_secure p \<and> p_insecure_skip_verify p))"
  by (auto simp: async_exec_def exec_open_def exec_simps exec_start_quiet Let_def
      open_flags [THEN addsD] opening_adds(3) [THEN addsD] security_quiet(6,12,13) [THEN addsD]
      set_option_security [THEN addsD] exec_accept_frame)

end
