(* ===== verification/Winhttp_Exchange.thy ===== *)
theory Winhttp_Exchange
  imports Winhttp_Client
begin

text \<open>
  The client's exchange as WinHTTP drives it: the completions of \<open>Winhttp_Client\<close> are not given
  but produced by the code, by the status callback, which stores the result in the request
  context and signals the event, and by the waiting operation, which hands it on.  Reports are
  those of \<open>Winhttp_Protocol\<close>; each one is answered by the code of \<open>Winhttp_Context\<close> and resumes
  the operation of \<open>Winhttp_Client\<close>, which issues the next call.
\<close>

section \<open>A report, from the callback to the operation\<close>

text \<open>No assertion has failed so far; an operation in state \<open>st\<close> is in flight.\<close>

definition sound :: "winhttp_os \<Rightarrow> 'z asio_request_scheme \<Rightarrow> bool" where
  "sound os s \<longleftrightarrow> event_usable os s \<and> violations s = []"

definition flowing :: "winhttp_os \<Rightarrow> ctx_state \<Rightarrow> 'z asio_request_scheme \<Rightarrow> bool" where
  "flowing os st s \<longleftrightarrow> sound os s \<and> ctx_state s = st"

definition deliver :: "winhttp_os \<Rightarrow> DWORD_PTR \<Rightarrow> async_api \<Rightarrow> report \<Rightarrow> 'z token \<Rightarrow>
    ('z asio_request_scheme, unit) state" where
  "deliver os this api rep tok = do { callback_of os this api rep; wake_of os tok api }"

text \<open>The context after the callback, just before the handler of the wait runs.\<close>

definition reported :: "winhttp_os \<Rightarrow> error_code \<Rightarrow> size_t \<Rightarrow> 'z asio_request_scheme \<Rightarrow>
    'z asio_request_scheme" where
  "reported os ec len s = s\<lparr>step_ec := ec, step_len := len,
     trace := trace s @ [(SetEvent (step_event s), os (trace s) (SetEvent (step_event s)))]\<rparr>"

lemma wake_reported:
  "with_length api \<or> len = 0 \<Longrightarrow>
   exec (wake_of os tok api) (reported os ec len s) = exec (tok ec len) (reported os ec len s)"
  by (auto simp: wake_of_def async_op_wake_def async_len_op_wake_def exec_simps reported_def)

lemma deliver_eq:
  assumes "flowing os (state_of api) s" and "this \<noteq> 0" and "valid_report rep"
    and "outcome api rep = (ec, len)"
  shows "exec (deliver os this api rep tok) s = exec (tok ec len) (reported os ec len s)"
proof -
  have "exec (callback_of os this api rep) s = reported os ec len s"
    using assms by (simp add: flowing_def sound_def callback_matches exec_step_complete reported_def)
  moreover have "with_length api \<or> len = 0"
    using assms(4) by (cases rep) (auto split: if_splits)
  ultimately show ?thesis
    by (simp add: deliver_def exec_bind wake_reported)
qed

lemma reported_fields [simp]:
  "asio_request.more (reported os ec len s) = asio_request.more s"
  "deliveries (trace (reported os ec len s)) = deliveries (trace s)"
  "flowing os st (reported os ec len s) = flowing os st s"
  "observe sent_request (trace (reported os ec len s)) = observe sent_request (trace s)"
  by (simp_all add: reported_def flowing_def sound_def event_usable_def)

section \<open>The operations start the next step\<close>

text \<open>WinHTTP accepts the calls of an exchange; what it reports later is left open.\<close>

definition accepts_calls :: "winhttp_os \<Rightarrow> bool" where
  "accepts_calls os \<longleftrightarrow> (\<forall>t h hs hl b bl tot ctx. truthy (os t (WinHttpSendRequest h hs hl b bl tot ctx))) \<and>
     (\<forall>t h. truthy (os t (WinHttpReceiveResponse h))) \<and>
     (\<forall>t h. truthy (os t (WinHttpQueryDataAvailable h))) \<and>
     (\<forall>t h n. truthy (os t (WinHttpReadData h n)))"

lemma sound_fields [simp]:
  "sound os (s\<lparr>ctx_state := st\<rparr>) = sound os s"
  "sound os (e\<lparr>ex_state := x\<rparr>) = sound os e" "sound os (e\<lparr>ex_payload := p\<rparr>) = sound os e"
  "sound os (b\<lparr>rb_state := r\<rparr>) = sound os b" "sound os (b\<lparr>rb_buff := u\<rparr>) = sound os b"
  by (simp_all add: sound_def event_usable_def)

lemma ops_flow:
  assumes "accepts_calls os" and "sound os s"
  shows "flowing os Send_request (exec (async_send os this h hl b bl tot tok) s)"
    and "flowing os Headers_available (exec (async_recieve_response os tok) s)"
    and "flowing os Data_available (exec (async_query_data_available os tok) s)"
    and "flowing os Read_complete (exec (async_read_data os n tok) s)"
proof -
  have usable: "event_usable os s" using assms(2) by (simp add: sound_def)
  have "accepted os (WinHttpSendRequest (handle s) h hl b bl tot this) t"
    "accepted os (WinHttpReceiveResponse (handle s)) t" "accepted os (WinHttpQueryDataAvailable (handle s)) t"
    "accepted os (WinHttpReadData (handle s) n) t" for t
    using assms(1) [unfolded accepts_calls_def] by (simp_all add: accepted_def)
  note issued = send_step.issue_accepted [OF usable refl this(1)] receive_step.issue_accepted [OF usable refl this(2)]
    query_step.issue_accepted [OF usable refl this(3)] read_step.issue_accepted [OF usable refl this(4)]
  show "flowing os Send_request (exec (async_send os this h hl b bl tot tok) s)"
    and "flowing os Headers_available (exec (async_recieve_response os tok) s)"
    and "flowing os Data_available (exec (async_query_data_available os tok) s)"
    and "flowing os Read_complete (exec (async_read_data os n tok) s)"
    using assms(2)
    by (simp_all add: async_send_def async_recieve_response_def async_query_data_available_def
        async_read_data_def exec_bind issued async_op_start_def async_len_op_start_def exec_simps
        flowing_def sound_def at_reset_def event_usable_def)
qed

section \<open>The exchange, callback by callback\<close>

text \<open>
  What WinHTTP reports during an exchange: the call that is answered, its length, and for a
  read the bytes stored in the buffer before the report.
\<close>

type_synonym wire_event = "async_api \<times> report \<times> bytes"

definition exec_wire :: "winhttp_os \<Rightarrow> DWORD_PTR \<Rightarrow> 'b dynbuf_ops \<Rightarrow>
    (error_code \<Rightarrow> size_t \<Rightarrow> (('b, 'z) exec_op_scheme, unit) state) \<Rightarrow>
    (error_code \<Rightarrow> size_t \<Rightarrow> (('b, 'z) exec_op_scheme, unit) state) \<Rightarrow>
    wire_event \<Rightarrow> (('b, 'z) exec_op_scheme, unit) state" where
  "exec_wire os this B rb_self self e = (case e of (api, rep, xs) \<Rightarrow>
     deliver os this api rep (\<lambda>ec len. exec_resume os this B rb_self self (ec, len, xs)))"

text \<open>Each round of the body is a query that announces \<open>n\<close> bytes and a read of up to \<open>n\<close>.\<close>

fun wire_rounds :: "(DWORD \<times> bytes) list \<Rightarrow> wire_event list" where
  "wire_rounds [] = []"
| "wire_rounds ((n, xs) # cs) =
     (Api_query, Done n, []) # (Api_read n, Done (word_of_nat (length xs)), xs) # wire_rounds cs"

definition wire_ok :: "DWORD \<times> bytes \<Rightarrow> bool" where
  "wire_ok c \<longleftrightarrow> snd c \<noteq> [] \<and> length (snd c) \<le> unat (fst c)"

lemma wire_eq:
  assumes "flowing os (state_of api) s" and "this \<noteq> 0"
  shows "exec (exec_wire os this B rb_self self (api, Done n, xs)) s =
    exec (exec_resume os this B rb_self self (0, if with_length api then ucast n else 0, xs))
      (reported os 0 (if with_length api then ucast n else 0) s)"
  by (simp add: exec_wire_def deliver_eq [OF assms])

lemmas reported_more [simp] = reported_fields(1) [THEN more_exec(1)] reported_fields(1) [THEN more_exec(2)]
  reported_fields(1) [THEN more_exec(3)]

lemma wire_send:
  assumes "accepts_calls os" and "this \<noteq> 0" and "flowing os Send_request s" and "ex_state s = EX_send"
    and s': "s' = exec (exec_wire os this B rb_self self (Api_send h hl b bl tot, Done n, xs)) s"
  shows "flowing os Headers_available s'" and "ex_state s' = EX_receive_response"
    and "deliveries (trace s') = deliveries (trace s)" and "rb_buff s' = rb_buff s"
proof -
  have eq: "s' = exec (async_recieve_response os self) ((reported os 0 0 s)\<lparr>ex_state := EX_receive_response\<rparr>)"
    using wire_eq [of os "Api_send h hl b bl tot" s this B rb_self self n xs] assms(2-4)
    by (simp add: s' exec_resume_def exec_step_def exec_op_simps)
  have "sound os (reported os 0 0 s)"
    using assms(3) reported_fields(3) [of os Send_request 0 0 s] by (simp add: flowing_def)
  then show "flowing os Headers_available s'"
    unfolding eq by (intro ops_flow assms(1)) simp
  show "ex_state s' = EX_receive_response" "deliveries (trace s') = deliveries (trace s)"
    "rb_buff s' = rb_buff s"
    by (simp_all add: eq exec_op_simps)
qed

lemma wire_headers:
  assumes "accepts_calls os" and "this \<noteq> 0" and "flowing os Headers_available s"
    and "ex_state s = EX_receive_response"
    and s': "s' = exec (exec_wire os this B rb_self self (Api_receive, Done n, xs)) s"
  shows "flowing os Data_available s'" and "ex_state s' = EX_done" and "rb_state s' = RB_query_data"
    and "deliveries (trace s') = deliveries (trace s)" and "rb_buff s' = rb_buff s"
proof -
  have eq: "s' = exec (async_query_data_available os rb_self)
      ((reported os 0 0 s)\<lparr>ex_state := EX_done, rb_state := RB_query_data\<rparr>)"
    using wire_eq [of os Api_receive s this B rb_self self n xs] assms(2-4)
    by (simp add: s' exec_resume_def exec_step_def async_read_body_def read_body_step_def exec_op_simps)
  have "sound os (reported os 0 0 s)"
    using assms(3) reported_fields(3) [of os Headers_available 0 0 s] by (simp add: flowing_def)
  then show "flowing os Data_available s'"
    unfolding eq by (intro ops_flow assms(1)) simp
  show "ex_state s' = EX_done" "rb_state s' = RB_query_data" "deliveries (trace s') = deliveries (trace s)"
    "rb_buff s' = rb_buff s"
    by (simp_all add: eq exec_op_simps)
qed

text \<open>Between two rounds of the body and within one.\<close>

definition between :: "winhttp_os \<Rightarrow> 'b dynbuf_ops \<Rightarrow> bytes \<Rightarrow> ('b, 'z) exec_op_scheme \<Rightarrow> bool" where
  "between os B d s \<longleftrightarrow> collecting B d s \<and> ex_state s = EX_done \<and> flowing os Data_available s"

definition within :: "winhttp_os \<Rightarrow> 'b dynbuf_ops \<Rightarrow> bytes \<Rightarrow> nat \<Rightarrow> ('b, 'z) exec_op_scheme \<Rightarrow> bool" where
  "within os B d n s \<longleftrightarrow> reading B d n s \<and> ex_state s = EX_done \<and> flowing os Read_complete s"

lemma reported_stages [simp]:
  "collecting B d (reported os ec len s) = collecting B d s" "reading B d n (reported os ec len s) = reading B d n s"
  by (simp_all add: collecting_def reading_def reported_def)

lemma body_flow:
  assumes "accepts_calls os" and "sound os s"
  shows "rb_state s = RB_query_data \<Longrightarrow> flowing os Read_complete (exec (read_body_resume os B tok (0, len, xs)) s)"
    and "rb_state s = RB_read_data \<Longrightarrow> len \<noteq> 0 \<Longrightarrow>
      flowing os Data_available (exec (read_body_resume os B tok (0, len, xs)) s)"
  using assms(2)
  by (simp_all add: read_body_resume_def read_body_step_def compose_simps ops_flow [OF assms(1)])

lemma wire_query:
  assumes "accepts_calls os" and "this \<noteq> 0" and "dynbuf_ok B" and "between os B d s"
  shows "within os B d (unat n) (exec (exec_wire os this B rb_self self (Api_query, Done n, ys)) s)"
proof -
  let ?r = "reported os 0 (ucast n) s"
  from assms(4) have f: "flowing os (state_of Api_query) s" and "ex_state s = EX_done"
    "collecting B d ?r" and st: "rb_state ?r = RB_query_data"
    by (simp_all add: between_def collecting_def)
  then have ex: "ex_state ?r = EX_done" by simp
  have sound: "sound os ?r"
    using f reported_fields(3) [of os "state_of Api_query" 0 "ucast n" s] by (simp add: flowing_def)
  have "unat n < 2 ^ LENGTH(32)" by (rule unsigned_less)
  then have "unat (ucast n :: size_t) = unat n" "unat n < 2 ^ 32"
    by (simp_all add: unsigned_ucast_eq take_bit_nat_eq_self)
  with read_body_announced [OF assms(3) \<open>collecting B d ?r\<close>, of "ucast n" os rb_self ys]
    body_flow(1) [OF assms(1) sound st, of B rb_self "ucast n" ys]
    exec_resume_body(1) [OF ex, of os this B rb_self self "(0, ucast n, ys)"] exec_resume_body(2) [OF ex, of os B rb_self "(0, ucast n, ys)"]
  show ?thesis
    by (simp add: wire_eq [OF f assms(2)] within_def)
qed

lemma wire_read:
  assumes "accepts_calls os" and "this \<noteq> 0" and "dynbuf_ok B" and "within os B d (unat n) s"
    and "wire_ok (n, xs)"
  shows "between os B (d @ xs)
    (exec (exec_wire os this B rb_self self (Api_read n, Done (word_of_nat (length xs)), xs)) s)"
proof -
  let ?len = "ucast (word_of_nat (length xs) :: DWORD) :: size_t"
  let ?r = "reported os 0 ?len s"
  from assms(4) have f: "flowing os (state_of (Api_read n)) s" and "ex_state s = EX_done"
    "reading B d (unat n) ?r" and st: "rb_state ?r = RB_read_data"
    by (simp_all add: within_def reading_def)
  then have ex: "ex_state ?r = EX_done" by simp
  have sound: "sound os ?r"
    using f reported_fields(3) [of os "state_of (Api_read n)" 0 ?len s] by (simp add: flowing_def)
  from assms(5) have xs: "xs \<noteq> []" "length xs \<le> unat n" by (simp_all add: wire_ok_def)
  have "unat n < 2 ^ LENGTH(32)" by (rule unsigned_less)
  with xs have len: "unat ?len = length xs"
    by (simp add: unsigned_ucast_eq take_bit_nat_eq_self unat_of_nat)
  then have "?len \<noteq> 0" using xs(1) by (metis length_0_conv unat_0)
  with read_body_arrived [OF assms(3) \<open>reading B d (unat n) ?r\<close> xs len, of os rb_self]
    body_flow(2) [OF assms(1) sound st, of ?len B rb_self xs]
    exec_resume_body(1) [OF ex, of os this B rb_self self "(0, ?len, xs)"] exec_resume_body(2) [OF ex, of os B rb_self "(0, ?len, xs)"]
  show ?thesis
    by (simp add: wire_eq [OF f assms(2)] between_def)
qed

lemma wire_end:
  assumes "this \<noteq> 0" and "dynbuf_ok B" and "within os B d (unat n) s"
    and s': "s' = exec (exec_wire os this B rb_self self (Api_read n, Done 0, [])) s"
  shows "deliveries (trace s') = [(0, 0)]" and "readable B (rb_buff s') = d" and "violations s' = []"
proof -
  let ?r = "reported os 0 0 s"
  from assms(3) have f: "flowing os (state_of (Api_read n)) s" and ex: "ex_state ?r = EX_done"
    and r: "reading B d (unat n) ?r" and st: "rb_state ?r = RB_read_data"
    by (simp_all add: within_def reading_def)
  have viol: "violations ?r = []"
    using f by (simp add: reported_def flowing_def sound_def)
  have eq: "s' = exec (read_body_resume os B rb_self (0, 0, [])) ?r"
    by (simp add: s' wire_eq [OF f assms(1)] exec_resume_body [OF ex])
  show "deliveries (trace s') = [(0, 0)]" "readable B (rb_buff s') = d"
    using read_body_end [OF st, of os B rb_self "[]"] r
    by (simp_all add: eq reading_def readable_store [OF assms(2)])
  show "violations s' = []"
    using st viol by (simp add: eq read_body_resume_def read_body_step_def compose_simps)
qed

text \<open>
  A run of reports in which each report finds the operation it answers in flight and nothing
  completed before it.
\<close>

fun smooth :: "winhttp_os \<Rightarrow> (wire_event \<Rightarrow> (('b, 'z) exec_op_scheme, unit) state) \<Rightarrow>
    wire_event list \<Rightarrow> ('b, 'z) exec_op_scheme \<Rightarrow> bool" where
  "smooth os w [] s \<longleftrightarrow> True"
| "smooth os w (e # es) s \<longleftrightarrow>
     flowing os (state_of (fst e)) s \<and> deliveries (trace s) = [] \<and> smooth os w es (exec (w e) s)"

abbreviation wire_run :: "(wire_event \<Rightarrow> (('b, 'z) exec_op_scheme, unit) state) \<Rightarrow>
    wire_event list \<Rightarrow> ('b, 'z) exec_op_scheme \<Rightarrow> ('b, 'z) exec_op_scheme" where
  "wire_run w \<equiv> drive w (\<lambda>s. deliveries (trace s) \<noteq> [])"

lemma smooth_append:
  "smooth os w (es @ es') s \<longleftrightarrow> smooth os w es s \<and> smooth os w es' (wire_run w es s)"
  by (induction es arbitrary: s) auto

lemma wire_body:
  assumes "accepts_calls os" and "this \<noteq> 0" and "dynbuf_ok B" and "\<And>c. c \<in> set cs \<Longrightarrow> wire_ok c"
    and "between os B d s"
  shows "between os B (d @ concat (map snd cs)) (wire_run (exec_wire os this B rb_self self) (wire_rounds cs) s)"
    and "smooth os (exec_wire os this B rb_self self) (wire_rounds cs) s"
proof -
  let ?w = "exec_wire os this B rb_self self"
  have "between os B (d @ concat (map snd cs)) (wire_run ?w (wire_rounds cs) s) \<and>
    smooth os ?w (wire_rounds cs) s"
    using assms(4,5)
  proof (induction cs arbitrary: d s)
    case (Cons c cs)
    obtain n xs where c: "c = (n, xs)" by (cases c)
    note q = wire_query [OF assms(1-3) Cons.prems(2), of n rb_self self "[]"]
    have "wire_ok (n, xs)" using Cons.prems(1) c by simp
    note r = wire_read [OF assms(1-3) q this, of rb_self self]
    have "deliveries (trace s) = []" and "deliveries (trace (exec (?w (Api_query, Done n, [])) s)) = []"
      "flowing os Data_available s" "flowing os Read_complete (exec (?w (Api_query, Done n, [])) s)"
      using Cons.prems(2) q by (simp_all add: between_def within_def collecting_def reading_def)
    with Cons.IH [OF _ r] Cons.prems(1) c show ?case by simp
  qed simp
  then show "between os B (d @ concat (map snd cs)) (wire_run ?w (wire_rounds cs) s)"
    and "smooth os ?w (wire_rounds cs) s" by simp_all
qed

lemma wire_fails:
  assumes "flowing os (state_of api) s" and "this \<noteq> 0" and "deliveries (trace s) = []" and "failed e"
    and s': "s' = exec (exec_wire os this B rb_self self (api, Failed e, xs)) s"
  shows "violations s' = []" and "deliveries (trace s') = [(e, 0)]"
proof -
  let ?r = "reported os e 0 s"
  have eq: "s' = exec (exec_resume os this B rb_self self (e, 0, xs)) ?r"
    using assms(4) by (simp add: s' exec_wire_def deliver_eq [OF assms(1,2)])
  have "violations ?r = []" using assms(1) by (simp add: reported_def flowing_def sound_def)
  with assms(3,4) show "violations s' = []" "deliveries (trace s') = [(e, 0)]"
    by (simp_all add: eq exec_resume_def read_body_step_def exec_step_def user_handler_def exec_simps)
qed

section \<open>The exchange from end to end\<close>

lemma sound_frame [simp]:
  "sound os (s\<lparr>trace := t\<rparr>) = sound os s" "sound os (s\<lparr>handle := h\<rparr>) = sound os s"
  by (simp_all add: sound_def event_usable_def)

lemma sound_close: "closes_handles os \<Longrightarrow> keeps (sound os) (close os)"
  by (simp add: keeps_def close_def closes_handles_def exec_simps)

lemma exec_open_sound:
  assumes "closes_handles os"
  shows "keeps (sound os) (exec_open os hConnect)"
  unfolding exec_open_def exec_accept_def managed_open_def request_open_def set_status_callback_def
    check_def native_handle_def assign_def set_option_def Let_def
  by (auto intro!: keeps_intros sound_close assms split: option.split prod.split)

lemma exec_start_flow:
  assumes "accepts_calls os" and "sound os s"
  shows "flowing os Send_request (exec (exec_start os this B rb_self self complete) s)"
  using assms(2)
  by (simp add: exec_start_def exec_step_def exec_op_simps Let_def sound_def event_usable_def
      ops_flow [OF assms(1), unfolded sound_def event_usable_def])

text \<open>The reports of an exchange that succeeds.\<close>

definition wire_exchange :: "(DWORD \<times> bytes) list \<Rightarrow> async_api \<Rightarrow> DWORD \<Rightarrow> wire_event list" where
  "wire_exchange cs snd_api n =
     [(snd_api, Done 0, []), (Api_receive, Done 0, [])] @ wire_rounds cs @
     [(Api_query, Done n, []), (Api_read n, Done 0, [])]"

definition is_send :: "async_api \<Rightarrow> bool" where
  "is_send api \<longleftrightarrow> state_of api = Send_request"

lemma exchange_runs:
  assumes "accepts_calls os" and "closes_handles os" and "this \<noteq> 0" and "dynbuf_ok B"
    and "\<And>c. c \<in> set cs \<Longrightarrow> wire_ok c" and "sound os s" and "deliveries (trace s) = []"
    and "\<not> failed (result (exec_open os hConnect) s)" and "is_send api"
    and s0: "s0 = exec (async_exec os this B hConnect rb_self self (user_handler os)) s"
    and s': "s' = wire_run (exec_wire os this B rb_self self) (wire_exchange cs api n)
      (exec (async_exec os this B hConnect rb_self self (user_handler os)) s)"
  shows "smooth os (exec_wire os this B rb_self self) (wire_exchange cs api n) s0"
    and "violations s' = []" and "deliveries (trace s') = [(0, 0)]"
    and "readable B (rb_buff s') = readable B (rb_buff s) @ concat (map snd cs)"
proof -
  let ?w = "exec_wire os this B rb_self self"
  let ?s1 = "exec (exec_open os hConnect) s"
  let ?s2 = "exec (exec_start os this B rb_self self (user_handler os)) ?s1"
  let ?s3 = "exec (?w (api, Done 0, [])) ?s2"
  let ?s4 = "exec (?w (Api_receive, Done 0, [])) ?s3"
  let ?s5 = "wire_run ?w (wire_rounds cs) ?s4"
  let ?s6 = "exec (?w (Api_query, Done n, [])) ?s5"
  let ?d = "readable B (rb_buff s) @ concat (map snd cs)"
  have start: "s0 = ?s2" using assms(8) by (simp add: s0 async_exec_def exec_bind)
  have d1: "deliveries (trace ?s1) = []"
    using assms(7) by (simp add: deliveries_observe exec_open_adds(1) [THEN addsD])
  have "sound os ?s1" by (simp add: keepsD [OF exec_open_sound [OF assms(2)]] assms(6))
  note f2 = exec_start_flow [OF assms(1) this, of this B rb_self self "user_handler os"]
  note s2 = exec_start_state [OF d1, of os this B rb_self self]
  obtain h hl b bl tot where api: "api = Api_send h hl b bl tot"
    using assms(9) by (cases api) (simp_all add: is_send_def)
  note s3 = wire_send [OF assms(1,3) f2 s2(2) refl, of B rb_self self h hl b bl tot 0 "[]", folded api]
  note s4 = wire_headers [OF assms(1,3) s3(1,2) refl, of B rb_self self 0 "[]"]
  have "between os B (readable B (rb_buff s)) ?s4"
    by (simp only: between_def collecting_def s4 s3 s2 exec_open_keeps simp_thms)
  note s5 = wire_body [OF assms(1,3-5) this, of cs rb_self self]
  note s6 = wire_query [OF assms(1,3,4) s5(1), of n rb_self self "[]"]
  note s7 = wire_end [OF assms(3,4) s6 refl, of rb_self self]
  have d: "deliveries (trace ?s5) = []" "deliveries (trace ?s6) = []"
    and f: "flowing os Data_available ?s5" "flowing os Read_complete ?s6"
    using s5(1) s6 by (simp_all add: between_def within_def collecting_def reading_def)
  have run: "s' = exec (?w (Api_read n, Done 0, [])) ?s6"
    using d s7(1) s2(1) s3(3) s4(4) start s0
    by (simp add: s' wire_exchange_def drive_append)
  show "violations s' = []" "deliveries (trace s') = [(0, 0)]" "readable B (rb_buff s') = ?d"
    by (simp_all only: run s7)
  show "smooth os ?w (wire_exchange cs api n) s0"
    using f2 s2(1) s3(1,3) s4(1,4) s5(2) d f
    by (simp add: start wire_exchange_def smooth_append api)
qed

text \<open>
  C4: the whole exchange, driven by the callbacks of WinHTTP: when the request opens and WinHTTP
  accepts the calls, the reports of the send, of the headers, of each round of the body and of
  its end take \<open>async_exec\<close> to exactly one completion, without error and with the complete body in
  the buffer, and no assertion of the code fails on the way: every callback finds the context in
  the state it expects.
\<close>

theorem exchange_by_callbacks:
  assumes "accepts_calls os" and "closes_handles os" and "this \<noteq> 0" and "dynbuf_ok B"
    and "\<And>c. c \<in> set cs \<Longrightarrow> wire_ok c" and "sound os s" and "deliveries (trace s) = []"
    and "\<not> failed (result (exec_open os hConnect) s)" and "is_send api"
  shows "let s' = wire_run (exec_wire os this B rb_self self) (wire_exchange cs api n @ later)
        (exec (async_exec os this B hConnect rb_self self (user_handler os)) s)
    in violations s' = [] \<and> deliveries (trace s') = [(0, 0)] \<and>
       buff_to_string B (rb_buff s') = readable B (rb_buff s) @ concat (map snd cs)"
  using exchange_runs(2-4) [OF assms refl refl, where cs = cs and n = n and rb_self = rb_self and self = self]
  by (simp add: Let_def buff_to_string_def drive_append)

text \<open>
  C5: the same exchange when WinHTTP reports an error instead: at whatever point of the exchange the
  request fails, in the send, the response, a query or a read, \<open>async_exec\<close> completes exactly once
  with the error that the callback carried, and no assertion of the code fails.
\<close>

theorem exchange_error:
  assumes "accepts_calls os" and "closes_handles os" and "this \<noteq> 0" and "dynbuf_ok B"
    and "\<And>c. c \<in> set cs \<Longrightarrow> wire_ok c" and "sound os s" and "deliveries (trace s) = []"
    and "\<not> failed (result (exec_open os hConnect) s)" and "is_send api"
    and "wire_exchange cs api n = es @ (api', rep, xs) # rest" and "failed e"
  shows "let s' = wire_run (exec_wire os this B rb_self self) (es @ (api', Failed e, ys) # later)
        (exec (async_exec os this B hConnect rb_self self (user_handler os)) s)
    in violations s' = [] \<and> deliveries (trace s') = [(e, 0)]"
proof -
  let ?w = "exec_wire os this B rb_self self"
  let ?s = "wire_run ?w es (exec (async_exec os this B hConnect rb_self self (user_handler os)) s)"
  have "flowing os (state_of api') ?s" and d: "deliveries (trace ?s) = []"
    using exchange_runs(1) [OF assms(1-9) refl refl, where cs = cs and n = n and rb_self = rb_self and self = self]
    by (simp_all add: assms(10) smooth_append split: if_splits)
  from wire_fails [OF this(1) assms(3) d assms(11) refl, of B rb_self self ys] d show ?thesis
    by (simp add: Let_def drive_append)
qed

lemma sample_wire:
  "accepts_calls willing_os" "closes_handles willing_os" "sound willing_os sample_exec"
  "\<And>c. c \<in> set [(3, ''abc''), (2, ''de'')] \<Longrightarrow> wire_ok c" "is_send (Api_send None 0 None 0 0)"
  by (auto simp: accepts_calls_def closes_handles_def willing_os_def truthy_def sound_def wire_ok_def
      event_usable_def sample_exec_def sample_request_def asio_request.defs read_body_op.defs is_send_def)

theorem exchange_by_callbacks_witness:
  "let s' = wire_run (exec_wire willing_os 16 vector_ops (user_handler willing_os) (user_handler willing_os))
        [(Api_send None 0 None 0 0, Done 0, []), (Api_receive, Done 0, []),
         (Api_query, Done 3, []), (Api_read 3, Done 3, ''abc''), (Api_query, Done 2, []),
         (Api_read 2, Done 2, ''de''), (Api_query, Done 0, []), (Api_read 0, Done 0, [])]
        (exec (async_exec willing_os 16 vector_ops 5 (user_handler willing_os) (user_handler willing_os)
          (user_handler willing_os)) sample_exec)
   in violations s' = [] \<and> buff_to_string vector_ops (rb_buff s') = ''abcde''"
  using exchange_by_callbacks [where cs = "[(3, ''abc''), (2, ''de'')]" and later = "[]" and n = 0 and rb_self = "user_handler willing_os"
      and self = "user_handler willing_os" and this = 16,
      OF sample_wire(1,2) _ vector_ops_ok sample_wire(4,3) sample_exec_fields(2) sample_exec_opens sample_wire(5)]
  by (simp add: Let_def sample_exec_fields wire_exchange_def del: drive.simps)

theorem exchange_error_witness:
  "let s' = wire_run (exec_wire willing_os 16 vector_ops (user_handler willing_os) (user_handler willing_os))
        [(Api_send None 0 None 0 0, Done 0, []), (Api_receive, Done 0, []),
         (Api_query, Done 3, []), (Api_read 3, Failed 12152, [])]
        (exec (async_exec willing_os 16 vector_ops 5 (user_handler willing_os) (user_handler willing_os)
          (user_handler willing_os)) sample_exec)
   in violations s' = [] \<and> deliveries (trace s') = [(12152, 0)]"
  using exchange_error [where cs = "[(3, ''abc''), (2, ''de'')]" and later = "[]" and n = 0 and rb_self = "user_handler willing_os"
      and self = "user_handler willing_os" and this = 16 and api' = "Api_read 3" and ys = "[]" and e = 12152
      and es = "[(Api_send None 0 None 0 0, Done 0, []), (Api_receive, Done 0, []), (Api_query, Done 3, [])]",
      OF sample_wire(1,2) _ vector_ops_ok sample_wire(4,3) sample_exec_fields(2) sample_exec_opens sample_wire(5)]
  by (simp add: Let_def wire_exchange_def failed_def del: drive.simps)

end
