(* ===== verification/Winhttp_Lifetime.thy ===== *)
theory Winhttp_Lifetime
  imports Winhttp_Exchange
begin

text \<open>
  \<^verbatim>\<open>winhttp/winhttp_asio.hpp\<close>: how long a request object has to live.  WinHTTP holds the address of
  the object's context and the waiting operation holds pointers into it, so the context must
  outlast both; the comments of \<open>async_op\<close> say so.  Here the protocol of \<open>Winhttp_Protocol\<close> goes
  on after the object is closed or destroyed: a call that WinHTTP has accepted is still
  reported, by the same callback, and asio still runs the lambda of a wait that was registered.
  Both then work on a context that is gone: what they do to its event, and the results they
  read from it, come after its destruction in the history.
\<close>

section \<open>The end of a request object\<close>

text \<open>
  The implicit destructor of \<open>basic_winhttp_request_asio_handle\<close>: first the member \<open>ctx_\<close>, whose event
  belongs to an asio object handle, then the base class, which closes the WinHTTP handle.
\<close>

definition destroy_asio_request :: "winhttp_os \<Rightarrow> ('z asio_request_scheme, unit) state" where
  "destroy_asio_request os = do {
     ev \<leftarrow> gets step_event;
     _ \<leftarrow> invoke os (Object_handle_destroy ev);
     destroy_handle os
   }"

record life =
  mach :: machine
  alive :: bool

fun issuing :: "phase \<Rightarrow> bool" where
  "issuing (Issued api) = True"
| "issuing _ = False"

definition close_step :: "winhttp_os \<Rightarrow> life \<Rightarrow> life" where
  "close_step os l = l\<lparr>mach := (mach l)\<lparr>req := exec (close os) (req (mach l))\<rparr>\<rparr>"

definition destroy_step :: "winhttp_os \<Rightarrow> life \<Rightarrow> life" where
  "destroy_step os l =
     l\<lparr>mach := (mach l)\<lparr>req := exec (destroy_asio_request os) (req (mach l))\<rparr>, alive := False\<rparr>"

text \<open>
  The waiting lambda with the error code asio gives it.  Documented: the destructor of an asio object
  handle cancels its waits, whose handlers then run with \<open>operation_aborted\<close>; a wait that was
  complete before, because the event was signalled, is a success.
\<close>

abbreviation (input) OPERATION_ABORTED :: error_code where "OPERATION_ABORTED \<equiv> 995"

definition wake_with :: "winhttp_os \<Rightarrow> 'z token \<Rightarrow> async_api \<Rightarrow> error_code \<Rightarrow> ('z asio_request_scheme, unit) state" where
  "wake_with os tok api ec =
     (if with_length api then async_len_op_wake os tok ec else async_op_wake os tok ec)"

definition wait_result :: "asio_request \<Rightarrow> error_code \<Rightarrow> bool" where
  "wait_result s ec \<longleftrightarrow> ec = 0 \<and> signalled (step_event s) (trace s) \<or>
     ec = OPERATION_ABORTED \<and> Object_handle_destroy (step_event s) \<in> fst ` set (trace s)"

definition callback_step :: "winhttp_os \<Rightarrow> DWORD_PTR \<Rightarrow> async_api \<Rightarrow> report \<Rightarrow> life \<Rightarrow> life" where
  "callback_step os this api rep l = l\<lparr>mach := report_step os this api rep (mach l)\<rparr>"

definition wait_step :: "winhttp_os \<Rightarrow> async_api \<Rightarrow> error_code \<Rightarrow> life \<Rightarrow> life" where
  "wait_step os api ec l = l\<lparr>mach := (mach l)
     \<lparr>req := exec (wake_with os (user_handler os) api ec) (req (mach l)), phase := Quiet\<rparr>\<rparr>"

text \<open>
  While the object lives, the protocol runs, and between two of its member functions the user
  may close the handle or destroy the object.  Afterwards WinHTTP reports what is pending, and
  asio runs a wait that was registered.
\<close>

inductive life_step :: "winhttp_os \<Rightarrow> DWORD_PTR \<Rightarrow> life \<Rightarrow> life \<Rightarrow> bool"
  for os this where
  work: "alive l \<Longrightarrow> machine_step os this (mach l) m' \<Longrightarrow> life_step os this l (l\<lparr>mach := m'\<rparr>)"
| shut: "alive l \<Longrightarrow> \<not> issuing (phase (mach l)) \<Longrightarrow> life_step os this l (close_step os l)"
| destroy: "alive l \<Longrightarrow> \<not> issuing (phase (mach l)) \<Longrightarrow> life_step os this l (destroy_step os l)"
| late_callback: "\<not> alive l \<Longrightarrow> pending (mach l) = Some api \<Longrightarrow> valid_report rep \<Longrightarrow>
     life_step os this l (callback_step os this api rep l)"
| late_wait: "\<not> alive l \<Longrightarrow> phase (mach l) = Waiting api \<Longrightarrow> wait_result (req (mach l)) ec \<Longrightarrow>
     life_step os this l (wait_step os api ec l)"

definition life_init :: "asio_request \<Rightarrow> life" where
  "life_init s = \<lparr>mach = machine_init s, alive = True\<rparr>"

definition lives :: "winhttp_os \<Rightarrow> DWORD_PTR \<Rightarrow> asio_request \<Rightarrow> life \<Rightarrow> bool" where
  "lives os this s0 l \<longleftrightarrow> (life_step os this)\<^sup>*\<^sup>* (life_init s0) l"

section \<open>Closing keeps the protocol going\<close>

lemma close_only_handle:
  fixes s :: "'z winhttp_handle_scheme"
  assumes "closes_handles os"
  shows "\<exists>t. exec (close os) s = s\<lparr>handle := 0, trace := t\<rparr> \<and> deliveries t = deliveries (trace s) \<and>
    signalled ev t = signalled ev (trace s)"
  by (rule exI [of _ "trace (exec (close os) s)"], cases s)
    (use assms in \<open>simp add: close_def exec_simps closes_handles_def\<close>)

lemma close_inv:
  assumes "machine_inv os m" and "closes_handles os"
  shows "machine_inv os (m\<lparr>req := exec (close os) (req m)\<rparr>)"
proof -
  obtain t where "exec (close os) (req m) = (req m)\<lparr>handle := 0, trace := t\<rparr>"
    "deliveries t = deliveries (trace (req m))" "signalled (step_event (req m)) t = signalled (step_event (req m)) (trace (req m))"
    using close_only_handle [OF assms(2)] by blast
  with assms(1) show ?thesis
    by (auto simp: machine_inv_def in_flight_def event_usable_def Let_def split: phase.splits option.splits)
qed

definition life_inv :: "winhttp_os \<Rightarrow> life \<Rightarrow> bool" where
  "life_inv os l \<longleftrightarrow> (alive l \<longrightarrow> machine_inv os (mach l))"

lemma life_step_inv:
  assumes "life_step os this l l'" and "life_inv os l"
    and "reports_errors os" and "closes_handles os" and "this \<noteq> 0"
  shows "life_inv os l'"
  using assms(1)
proof (cases rule: life_step.cases)
  case (work m')
  from work(3) work(2) assms(2) have "machine_inv os m'"
    by (cases rule: machine_step.cases)
      (auto simp: life_inv_def intro: issue_step_inv [OF _ _ assms(3)] inner_step_inv [OF _ _ assms(5)])
  with work assms(2) show ?thesis by (simp add: life_inv_def)
next
  case shut
  then show ?thesis using assms(2) close_inv [OF _ assms(4)] by (simp add: life_inv_def close_step_def)
qed (use assms(2) in \<open>auto simp: life_inv_def destroy_step_def callback_step_def wait_step_def\<close>)

lemma lives_inv:
  assumes "lives os this s0 l" and "fresh_request os s0" and "reports_errors os" and "closes_handles os"
    and "this \<noteq> 0"
  shows "life_inv os l"
  using assms(1) unfolding lives_def
proof (induction rule: rtranclp_induct)
  case base
  then show ?case using assms(2)
    by (simp add: life_inv_def life_init_def machine_inv_def machine_init_def fresh_request_def)
next
  case (step l l')
  show ?case by (rule life_step_inv [OF step(2,3) assms(3-5)])
qed

section \<open>When destroying is safe\<close>

text \<open>
  What is done with the context after its destruction, read off the calls that follow the
  destruction of its event in the history: calls on the event, waits for it, and results handed to
  a handler, which the waiting lambda reads from the context.
\<close>

fun after_destroy :: "HANDLE \<Rightarrow> winhttp_call list \<Rightarrow> winhttp_call list" where
  "after_destroy ev [] = []"
| "after_destroy ev (c # cs) = (if c = Object_handle_destroy ev then cs else after_destroy ev cs)"

fun uses_context :: "HANDLE \<Rightarrow> winhttp_call \<Rightarrow> bool" where
  "uses_context ev (SetEvent h) = (h = ev)"
| "uses_context ev (ResetEvent h) = (h = ev)"
| "uses_context ev (Event_async_wait h w) = (h = ev)"
| "uses_context ev (Complete e n) = True"
| "uses_context ev _ = False"

definition context_uses :: "life \<Rightarrow> life \<Rightarrow> winhttp_call list" where
  "context_uses l l' = (let s = req (mach l); s' = req (mach l') in
     filter (uses_context (step_event s))
       (after_destroy (step_event s) (map fst (drop (length (trace s)) (trace s')))))"

lemma destroy_effect:
  fixes s :: asio_request
  assumes "closes_handles os"
  shows "\<exists>r t. exec (destroy_asio_request os) s =
      s\<lparr>handle := 0, trace := trace s @ (Object_handle_destroy (step_event s), r) # t\<rparr> \<and>
    filter (uses_context (step_event s)) (map fst t) = []"
  by (cases "handle s = 0"; cases s)
    (use assms in \<open>simp_all add: destroy_asio_request_def destroy_handle_def close_def exec_simps closes_handles_def\<close>)

lemma destroyed_req: "req (mach (destroy_step os l)) = exec (destroy_asio_request os) (req (mach l))"
  "phase (mach (destroy_step os l)) = phase (mach l)" "pending (mach (destroy_step os l)) = pending (mach l)"
  "\<not> alive (destroy_step os l)"
  by (simp_all add: destroy_step_def)

lemma late_report_uses:
  assumes "machine_inv os (mach l)" and "closes_handles os" and "this \<noteq> 0"
    and "pending (mach l) = Some api" and "valid_report rep"
  shows "context_uses l (callback_step os this api rep (destroy_step os l)) = [SetEvent (step_event (req (mach l)))]"
proof -
  let ?s = "req (mach l)"
  obtain r t where d: "exec (destroy_asio_request os) ?s =
      ?s\<lparr>handle := 0, trace := trace ?s @ (Object_handle_destroy (step_event ?s), r) # t\<rparr>"
    and t: "filter (uses_context (step_event ?s)) (map fst t) = []"
    using destroy_effect [OF assms(2)] by blast
  let ?d = "exec (destroy_asio_request os) ?s"
  have "event_usable os ?s" "ctx_state ?s = state_of api"
    using assms(1,4) by (auto simp: machine_inv_def in_flight_def Let_def split: phase.splits)
  then have u: "event_usable os ?d" "ctx_state ?d = state_of api" by (simp_all add: d event_usable_def)
  have "exec (callback_of os this api rep) ?d = exec (step_complete os (fst (outcome api rep)) (snd (outcome api rep))) ?d"
    by (rule callback_matches [OF u assms(5,3)])
  then show ?thesis using t
    by (simp add: context_uses_def callback_step_def report_step_def destroyed_req exec_step_complete [OF u(1)] Let_def)
      (simp add: d)
qed

lemma late_wait_uses:
  assumes "closes_handles os"
  shows "let s = req (mach l); l' = wait_step os api OPERATION_ABORTED (destroy_step os l)
    in context_uses l l' = [Complete (step_ec s) (if with_length api then step_len s else 0)] \<and>
      violations (req (mach l')) \<noteq> []"
proof -
  let ?s = "req (mach l)"
  obtain r t where d: "exec (destroy_asio_request os) ?s =
      ?s\<lparr>handle := 0, trace := trace ?s @ (Object_handle_destroy (step_event ?s), r) # t\<rparr>"
    and t: "filter (uses_context (step_event ?s)) (map fst t) = []"
    using destroy_effect [OF assms] by blast
  then show ?thesis
    by (simp add: context_uses_def wait_step_def destroyed_req d wake_with_def async_len_op_wake_def
        async_op_wake_def exec_simps user_handler_def failed_def Let_def)
qed

lemma late_steps:
  fixes l :: life
  assumes "closes_handles os"
  shows "pending (mach l) = Some api \<Longrightarrow> valid_report rep \<Longrightarrow>
      life_step os this (destroy_step os l) (callback_step os this api rep (destroy_step os l))"
    and "phase (mach l) = Waiting api \<Longrightarrow>
      life_step os this (destroy_step os l) (wait_step os api OPERATION_ABORTED (destroy_step os l))"
proof -
  show "pending (mach l) = Some api \<Longrightarrow> valid_report rep \<Longrightarrow>
      life_step os this (destroy_step os l) (callback_step os this api rep (destroy_step os l))"
    by (rule late_callback) (simp_all add: destroyed_req)
  have "wait_result (req (mach (destroy_step os l))) OPERATION_ABORTED"
    using destroy_effect [OF assms, of "req (mach l)"] by (auto simp: wait_result_def destroyed_req)
  then show "phase (mach l) = Waiting api \<Longrightarrow>
      life_step os this (destroy_step os l) (wait_step os api OPERATION_ABORTED (destroy_step os l))"
    by (intro late_wait) (simp_all add: destroyed_req)
qed

text \<open>A destroyed object with nothing in flight is left alone.\<close>

lemma nothing_left:
  assumes "(life_step os this)\<^sup>*\<^sup>* l l'" and "\<not> alive l" and "phase (mach l) = Quiet"
    and "pending (mach l) = None"
  shows "l' = l"
  using assms(1)
proof (cases rule: converse_rtranclpE)
  case (step l'')
  from step(1) assms(2-4) show ?thesis by (cases rule: life_step.cases) simp_all
qed simp

text \<open>
  C6: the context must outlive the operations, and not longer.  Take any state of a request object
  that its user can reach by operations and by closing the handle, between two member functions.
  If the object is destroyed now, its event and its handle are released, and the context is not used any
  more and no assertion fails, whatever WinHTTP and asio still do, exactly when no operation is in
  flight: every operation that was started has run its handler.  Otherwise closing the handle first
  does not help.  A call that WinHTTP accepted is reported by a callback that sets the event that
  is gone, and a wait is aborted: its lambda, which asserts that this never happens, gives
  the handler a result read from the context that is gone.
\<close>

theorem context_outlives_operations:
  assumes "lives os this s0 l" and "alive l" and "\<not> issuing (phase (mach l))"
    and "fresh_request os s0" and "reports_errors os" and "closes_handles os" and "this \<noteq> 0"
  shows "let s = req (mach l); d = destroy_step os l
    in handle (req (mach d)) = 0 \<and>
      ((\<forall>l'. (life_step os this)\<^sup>*\<^sup>* d l' \<longrightarrow> context_uses l l' = [] \<and> violations (req (mach l')) = []) \<longleftrightarrow>
         phase (mach l) = Quiet) \<and>
      (\<forall>api rep. pending (mach l) = Some api \<and> valid_report rep \<longrightarrow>
         life_step os this d (callback_step os this api rep d) \<and>
         context_uses l (callback_step os this api rep d) = [SetEvent (step_event s)]) \<and>
      (\<forall>api. phase (mach l) = Waiting api \<longrightarrow>
         life_step os this d (wait_step os api OPERATION_ABORTED d) \<and>
         context_uses l (wait_step os api OPERATION_ABORTED d) =
           [Complete (step_ec s) (if with_length api then step_len s else 0)])"
proof -
  let ?s = "req (mach l)" and ?d = "destroy_step os l"
  have inv: "machine_inv os (mach l)" using lives_inv [OF assms(1,4-7)] assms(2) by (simp add: life_inv_def)
  obtain r t where d: "exec (destroy_asio_request os) ?s =
      ?s\<lparr>handle := 0, trace := trace ?s @ (Object_handle_destroy (step_event ?s), r) # t\<rparr>"
    and t: "filter (uses_context (step_event ?s)) (map fst t) = []"
    using destroy_effect [OF assms(6)] by blast
  have "(\<forall>l'. (life_step os this)\<^sup>*\<^sup>* ?d l' \<longrightarrow> context_uses l l' = [] \<and> violations (req (mach l')) = []) \<longleftrightarrow>
    phase (mach l) = Quiet"
  proof (cases "phase (mach l)")
    case Quiet
    with inv have "pending (mach l) = None" by (simp add: machine_inv_def)
    with Quiet have "l' = ?d" if "(life_step os this)\<^sup>*\<^sup>* ?d l'" for l'
      by (intro nothing_left [OF that]) (simp_all add: destroyed_req)
    moreover have "context_uses l ?d = []" using t by (simp add: context_uses_def destroyed_req d Let_def)
    moreover have "violations (req (mach ?d)) = []" using inv by (simp add: destroyed_req d machine_inv_def)
    ultimately show ?thesis using Quiet by metis
  next
    case (Waiting api)
    with late_steps(2) [OF assms(6)] late_wait_uses [OF assms(6), of l api]
    have "\<exists>l'. (life_step os this)\<^sup>*\<^sup>* ?d l' \<and> violations (req (mach l')) \<noteq> []" by (metis r_into_rtranclp)
    then show ?thesis using Waiting by auto
  qed (use assms(3) in simp)
  then show ?thesis
    using late_steps [OF assms(6)] late_report_uses [OF inv assms(6,7)] late_wait_uses [OF assms(6), of l]
    by (simp add: Let_def destroyed_req d)
qed

text \<open>A new object may go; one that waits for the amount of data may not.\<close>

definition waiting_life :: life where
  "waiting_life = (life_init sample_request)\<lparr>mach :=
     (let m = issue_step willing_os 16 Api_query (machine_init sample_request)
      in m\<lparr>req := exec (start_of willing_os (user_handler willing_os) Api_query) (req m), phase := Waiting Api_query\<rparr>)\<rparr>"

lemma willing_os_closes: "closes_handles willing_os"
  by (simp add: closes_handles_def willing_os_def truthy_def)

lemma waiting_life_fields:
  "alive waiting_life" "phase (mach waiting_life) = Waiting Api_query" "pending (mach waiting_life) = Some Api_query"
  "deliveries (trace (req (mach waiting_life))) = []" "step_ec (req (mach waiting_life)) = 0"
  "step_len (req (mach waiting_life)) = 0"
  by (simp_all add: waiting_life_def life_init_def issue_step_def Let_def machine_init_def call_accepted_def
      accepted_def start_of_def async_len_op_start_def async_query_data_available_issue_def query_data_available_def
      native_handle_def check_def set_state_def step_reset_def exec_simps willing_os_def truthy_def sample_request_def)

lemma waiting_life_lives: "lives willing_os 16 sample_request waiting_life"
proof -
  let ?m = "issue_step willing_os 16 Api_query (machine_init sample_request)"
  have "life_step willing_os 16 (life_init sample_request) ((life_init sample_request)\<lparr>mach := ?m\<rparr>)"
    by (intro work) (simp_all add: life_init_def machine_init_def machine_step.issue)
  moreover have "life_step willing_os 16 ((life_init sample_request)\<lparr>mach := ?m\<rparr>) waiting_life"
  proof -
    have "phase ?m = Issued Api_query" by (simp add: issue_step_def Let_def)
    from machine_step.inner [OF inner_step.register [OF this, of willing_os 16]]
    have "machine_step willing_os 16 (mach ((life_init sample_request)\<lparr>mach := ?m\<rparr>)) (mach waiting_life)"
      by (simp add: waiting_life_def Let_def)
    from work [OF _ this] show ?thesis by (simp add: waiting_life_def life_init_def)
  qed
  ultimately show ?thesis unfolding lives_def by (metis rtranclp.simps)
qed

text \<open>
  A new object may be destroyed at once.  One that waits for the amount of data may not, even after
  closing the handle: the wait is aborted, and the handler is told \<open>0\<close> bytes with no error.
\<close>

theorem context_outlives_operations_witness:
  "\<not> (\<exists>l'. (life_step willing_os 16)\<^sup>*\<^sup>* (destroy_step willing_os (life_init sample_request)) l' \<and>
      violations (req (mach l')) \<noteq> []) \<and>
   context_uses waiting_life (wait_step willing_os Api_query 995 (destroy_step willing_os waiting_life)) = [Complete 0 0] \<and>
   (\<exists>l'. (life_step willing_os 16)\<^sup>*\<^sup>* (destroy_step willing_os waiting_life) l' \<and> context_uses waiting_life l' \<noteq> [])"
proof -
  have "lives willing_os 16 sample_request (life_init sample_request)" by (simp add: lives_def)
  note new = context_outlives_operations [OF this _ _ sample_request_fresh willing_os_reports willing_os_closes]
  note waiting = context_outlives_operations [OF waiting_life_lives _ _ sample_request_fresh willing_os_reports willing_os_closes]
  have "phase (mach (life_init sample_request)) = Quiet" "alive (life_init sample_request)"
    by (simp_all add: life_init_def machine_init_def)
  then have "\<not> (\<exists>l'. (life_step willing_os 16)\<^sup>*\<^sup>* (destroy_step willing_os (life_init sample_request)) l' \<and>
      violations (req (mach l')) \<noteq> [])"
    using new by (simp add: Let_def)
  moreover have "context_uses waiting_life (wait_step willing_os Api_query 995 (destroy_step willing_os waiting_life)) =
      [Complete 0 0]"
    "life_step willing_os 16 (destroy_step willing_os waiting_life)
      (wait_step willing_os Api_query 995 (destroy_step willing_os waiting_life))"
    using waiting by (simp_all add: waiting_life_fields Let_def)
  ultimately show ?thesis by (metis r_into_rtranclp not_Cons_self2)
qed

text \<open>
  C29: closing the handle cancels.  When an operation waits and WinHTTP has not reported it yet, the
  handle may be closed: WinHTTP then reports the call as failed, and the handler runs once, with
  that error and no length; no assertion of the code fails and the object no longer holds a handle.
\<close>

theorem close_cancels:
  assumes "lives os this s0 l" and "alive l" and "phase (mach l) = Waiting api" and "pending (mach l) \<noteq> None"
    and "fresh_request os s0" and "reports_errors os" and "closes_handles os" and "this \<noteq> 0" and "failed e"
  shows "let s = req (mach l);
      s' = exec (do { close os; callback_of os this api (Failed e); wake_of os (user_handler os) api }) s
    in deliveries (trace s') = deliveries (trace s) @ [(e, 0)] \<and> violations s' = [] \<and> handle s' = 0"
proof -
  let ?s = "req (mach l)"
  let ?s1 = "exec (close os) ?s"
  have inv: "machine_inv os (mach l)" using lives_inv [OF assms(1,5-8)] assms(2) by (simp add: life_inv_def)
  obtain t where t: "?s1 = ?s\<lparr>handle := 0, trace := t\<rparr>" "deliveries t = deliveries (trace ?s)"
    using close_only_handle [OF assms(7)] by blast
  have s: "event_usable os ?s" "ctx_state ?s = state_of api" "violations ?s = []"
    using inv assms(3,4) by (auto simp: machine_inv_def in_flight_def Let_def split: option.splits)
  then have u: "event_usable os ?s1" "ctx_state ?s1 = state_of api"
    unfolding t(1) by (simp_all add: event_usable_def)
  have "exec (callback_of os this api (Failed e)) ?s1 = exec (step_complete os e 0) ?s1"
    using callback_matches [OF u, of "Failed e" this] assms(8,9) by simp
  then show ?thesis using u s(3)
    by (simp add: Let_def exec_bind exec_step_complete t wake_of_def async_len_op_wake_def async_op_wake_def
        exec_simps user_handler_def)
qed

text \<open>12017 is \<open>ERROR_WINHTTP_OPERATION_CANCELLED\<close>.\<close>

theorem close_cancels_witness:
  "let s = req (mach waiting_life);
     s' = exec (do { close willing_os; callback_of willing_os 16 Api_query (Failed 12017);
       wake_of willing_os (user_handler willing_os) Api_query }) s
   in deliveries (trace s') = [(12017, 0)] \<and> violations s' = [] \<and> handle s' = 0"
  using close_cancels [OF waiting_life_lives waiting_life_fields(1,2) _ sample_request_fresh willing_os_reports
      willing_os_closes, of 12017]
  by (simp add: waiting_life_fields failed_def Let_def)

end
