(* ===== verification/Std_Map.thy ===== *)
theory Std_Map
  imports Prelude "HOL-Library.Char_ord" "HOL-Library.List_Lexorder"
begin

text \<open>
  \<open>std::map\<close>, which the HTTP components use for headers and handlers: its interface as a locale,
  and the model of it that the components run on, the list of its entries in key order.  String
  keys compare lexicographically by unsigned code units (\<open>List_Lexorder\<close>), header identifiers by
  their number.
\<close>

section \<open>Keys\<close>

datatype http_header_id = Header_id (header_index: nat)

instantiation http_header_id :: linorder
begin

definition less_eq_http_header_id :: "http_header_id \<Rightarrow> http_header_id \<Rightarrow> bool" where
  "less_eq_http_header_id a b \<longleftrightarrow> header_index a \<le> header_index b"

definition less_http_header_id :: "http_header_id \<Rightarrow> http_header_id \<Rightarrow> bool" where
  "less_http_header_id a b \<longleftrightarrow> header_index a < header_index b"

instance
  by standard (auto simp: less_eq_http_header_id_def less_http_header_id_def intro: http_header_id.expand)

end

section \<open>The interface\<close>

text \<open>
  \<open>assign\<close> is \<open>m[k] = v\<close>, \<open>lookup\<close> is \<open>find\<close>, \<open>entries\<close> what iteration yields; \<open>inv\<close> holds of
  every map that the operations produce.
\<close>

locale std_map =
  fixes empty :: 'm
    and assign :: "'k::linorder \<Rightarrow> 'v \<Rightarrow> 'm \<Rightarrow> 'm"
    and lookup :: "'m \<Rightarrow> 'k \<Rightarrow> 'v option"
    and entries :: "'m \<Rightarrow> ('k \<times> 'v) list"
    and inv :: "'m \<Rightarrow> bool"
  assumes inv_empty: "inv empty"
    and inv_assign: "inv m \<Longrightarrow> inv (assign k v m)"
    and lookup_empty: "lookup empty k = None"
    and lookup_assign: "inv m \<Longrightarrow> lookup (assign k v m) k' = (if k' = k then Some v else lookup m k')"
    and entries_lookup: "inv m \<Longrightarrow> map_of (entries m) = lookup m"
    and entries_ordered: "inv m \<Longrightarrow> sorted_wrt (<) (map fst (entries m))"
begin

definition assign_all :: "('k \<times> 'v) list \<Rightarrow> 'm \<Rightarrow> 'm" where
  "assign_all kvs m = fold (\<lambda>(k, v). assign k v) kvs m"

lemma inv_assign_all: "inv m \<Longrightarrow> inv (assign_all kvs m)"
  unfolding assign_all_def by (induction kvs arbitrary: m) (auto simp: inv_assign)

text \<open>When entries are assigned in sequence the last one with a key wins.\<close>

lemma lookup_assign_all:
  "inv m \<Longrightarrow> lookup (assign_all kvs m) = lookup m ++ map_of (rev kvs)"
proof (induction kvs arbitrary: m)
  case (Cons e kvs)
  obtain k v where e: "e = (k, v)" by (cases e)
  have "lookup (assign k v m) = (lookup m)(k \<mapsto> v)"
    using Cons.prems by (auto simp: lookup_assign)
  with Cons.IH [OF inv_assign [OF Cons.prems]] show ?case
    by (simp add: assign_all_def e map_add_def fun_eq_iff split: option.split)
qed (simp add: assign_all_def)

lemma entries_distinct: "inv m \<Longrightarrow> distinct (map fst (entries m))"
  using entries_ordered strict_sorted_iff by blast

lemma entries_iff: "inv m \<Longrightarrow> (k, v) \<in> set (entries m) \<longleftrightarrow> lookup m k = Some v"
  by (metis entries_distinct entries_lookup map_of_eq_Some_iff)

end

section \<open>The model\<close>

type_synonym ('k, 'v) std_map_entries = "('k \<times> 'v) list"

fun map_assign :: "'k::linorder \<Rightarrow> 'v \<Rightarrow> ('k, 'v) std_map_entries \<Rightarrow> ('k, 'v) std_map_entries" where
  "map_assign k v [] = [(k, v)]"
| "map_assign k v ((k', v') # m) =
     (if k < k' then (k, v) # (k', v') # m
      else if k = k' then (k, v) # m
      else (k', v') # map_assign k v m)"

abbreviation map_lookup :: "('k, 'v) std_map_entries \<Rightarrow> 'k \<Rightarrow> 'v option" where
  "map_lookup \<equiv> map_of"

definition map_ok :: "('k::linorder, 'v) std_map_entries \<Rightarrow> bool" where
  "map_ok m \<longleftrightarrow> sorted_wrt (<) (map fst m)"

text \<open>\<open>m[k]\<close> as an expression inserts a default value for a missing key.\<close>

definition map_subscript :: "'v \<Rightarrow> 'k::linorder \<Rightarrow> ('k, 'v) std_map_entries \<Rightarrow>
    'v \<times> ('k, 'v) std_map_entries" where
  "map_subscript d k m = (case map_lookup m k of
     Some v \<Rightarrow> (v, m)
   | None \<Rightarrow> (d, map_assign k d m))"

lemma map_lookup_assign: "map_lookup (map_assign k v m) k' = (if k' = k then Some v else map_lookup m k')"
  by (induction k v m rule: map_assign.induct) auto

lemma keys_map_assign: "fst ` set (map_assign k v m) = insert k (fst ` set m)"
  by (induction k v m rule: map_assign.induct) auto

lemma map_ok_assign: "map_ok m \<Longrightarrow> map_ok (map_assign k v m)"
proof (induction k v m rule: map_assign.induct)
  case (2 k v k' v' m)
  then have "\<forall>x \<in> fst ` set m. k' < x" and "map_ok m" by (auto simp: map_ok_def)
  with 2 keys_map_assign [of k v m] show ?case
    by (fastforce simp: map_ok_def)
qed (simp add: map_ok_def)

lemma map_ok_basic [simp]: "map_ok []"
  and map_ok_sorted: "map_ok m \<Longrightarrow> sorted_wrt (<) (map fst m)"
  by (simp_all add: map_ok_def)

interpretation smap: std_map "[]" map_assign map_lookup "\<lambda>m. m" map_ok
  by unfold_locales (simp_all add: map_ok_assign map_lookup_assign map_ok_sorted)

lemma map_ok_subscript: "map_ok m \<Longrightarrow> map_ok (snd (map_subscript d k m))"
  by (simp add: map_subscript_def map_ok_assign split: option.split)

lemma map_lookup_subscript:
  "map_lookup (snd (map_subscript d k m)) k' =
     (if k' = k \<and> map_lookup m k = None then Some d else map_lookup m k')"
  "fst (map_subscript d k m) = (case map_lookup m k of Some v \<Rightarrow> v | None \<Rightarrow> d)"
  by (auto simp: map_subscript_def map_lookup_assign split: option.split)

end
