(* ===== verification/Http_Convert.thy ===== *)
theory Http_Convert
  imports Std_Map Compose_Op Winhttp_Headers
begin

text \<open>
  \<^verbatim>\<open>http/convert.hpp\<close>: reading the headers of an \<open>HTTP_REQUEST\<close> into maps, \<open>simple_request\<close> that
  owns the buffers a request is received into, and \<open>simple_response\<close> that assembles an
  \<open>HTTP_RESPONSE\<close>.  The \<open>HTTP_*\<close> structures are those of \<^verbatim>\<open>http.h\<close>, as far as the code uses them.  A
  pointer is represented by what it points to, so a pointer with a length that exceeds it
  is an invalid access, reported as \<open>None\<close>.
\<close>

section \<open>Structures\<close>

type_synonym HTTP_REQUEST_ID = "64 word"

record http_known_header =
  kh_RawValueLength :: USHORT
  kh_pRawValue :: string

record http_unknown_header =
  uh_NameLength :: USHORT
  uh_RawValueLength :: USHORT
  uh_pName :: string
  uh_pRawValue :: string

text \<open>\<open>pQueryString\<close> points into the full URL; it is kept as an offset, \<open>None\<close> for the null pointer.\<close>

record http_request =
  RequestId :: HTTP_REQUEST_ID
  Verb :: nat
  pFullUrl :: wstring
  FullUrlLength :: USHORT
  pQueryString :: "nat option"
  KnownHeaders :: "http_known_header list"
  UnknownHeaderCount :: USHORT
  pUnknownHeaders :: "http_unknown_header list"

datatype http_data_chunk =
    Chunk_memory (pBuffer: string) (BufferLength: ULONG)
  | Chunk_trailers (TrailerCount: USHORT) (pTrailers: "http_unknown_header list")

record http_response =
  StatusCode :: USHORT
  pReason :: string
  ReasonLength :: USHORT
  resp_KnownHeaders :: "http_known_header list"
  resp_UnknownHeaderCount :: USHORT
  resp_pUnknownHeaders :: "http_unknown_header list"
  EntityChunkCount :: USHORT
  pEntityChunks :: "http_data_chunk list"

abbreviation (input) HttpHeaderContentType :: http_header_id where
  "HttpHeaderContentType \<equiv> Header_id 12"
abbreviation (input) HttpHeaderResponseMaximum :: nat where "HttpHeaderResponseMaximum \<equiv> 30"

definition null_header :: http_known_header where
  "null_header = \<lparr>kh_RawValueLength = 0, kh_pRawValue = []\<rparr>"

text \<open>\<open>HTTP_RESPONSE resp_()\<close>: all zero.\<close>

definition null_response :: http_response where
  "null_response = \<lparr>StatusCode = 0, pReason = [], ReasonLength = 0,
     resp_KnownHeaders = replicate HttpHeaderResponseMaximum null_header,
     resp_UnknownHeaderCount = 0, resp_pUnknownHeaders = [], EntityChunkCount = 0,
     pEntityChunks = []\<rparr>"

section \<open>Reading request headers\<close>

definition chars_at :: "string \<Rightarrow> USHORT \<Rightarrow> string option" where
  "chars_at p n = (if unat n \<le> length p then Some (take (unat n) p) else None)"

fun known_headers_loop :: "http_known_header list \<Rightarrow> nat \<Rightarrow> (http_header_id, string) std_map_entries \<Rightarrow>
    (http_header_id, string) std_map_entries option" where
  "known_headers_loop [] i headers = Some headers"
| "known_headers_loop (header # hs) i headers =
     (if kh_RawValueLength header = 0 then known_headers_loop hs (Suc i) headers
      else do {
        v \<leftarrow> chars_at (kh_pRawValue header) (kh_RawValueLength header);
        known_headers_loop hs (Suc i) (map_assign (Header_id i) v headers)
      })"

definition get_known_headers_all :: "http_request \<Rightarrow> (http_header_id, string) std_map_entries \<Rightarrow>
    (http_header_id, string) std_map_entries option" where
  "get_known_headers_all req headers = known_headers_loop (KnownHeaders req) 0 headers"

text \<open>The result is the returned flag and the out-parameter.\<close>

definition query_known_header_string_view :: "http_request \<Rightarrow> http_header_id \<Rightarrow> string \<Rightarrow>
    (bool \<times> string) option" where
  "query_known_header_string_view req i val =
     (if header_index i < length (KnownHeaders req) then
        (let header = KnownHeaders req ! header_index i in
         if kh_RawValueLength header = 0 then Some (False, val)
         else do {
           v \<leftarrow> chars_at (kh_pRawValue header) (kh_RawValueLength header);
           Some (True, v)
         })
      else None)"

definition query_known_header :: "http_request \<Rightarrow> http_header_id \<Rightarrow> string \<Rightarrow> (bool \<times> string) option" where
  "query_known_header req i val = do {
     (ok, view) \<leftarrow> query_known_header_string_view req i [];
     if \<not> ok then Some (False, val) else Some (True, view)
   }"

fun unknown_headers_loop :: "http_unknown_header list \<Rightarrow> (string, string) std_map_entries \<Rightarrow>
    (string, string) std_map_entries option" where
  "unknown_headers_loop [] headers = Some headers"
| "unknown_headers_loop (header # hs) headers = do {
     k \<leftarrow> chars_at (uh_pName header) (uh_NameLength header);
     v \<leftarrow> chars_at (uh_pRawValue header) (uh_RawValueLength header);
     unknown_headers_loop hs (map_assign k v headers)
   }"

definition get_unknown_headers_all :: "http_request \<Rightarrow> (string, string) std_map_entries \<Rightarrow>
    (string, string) std_map_entries option" where
  "get_unknown_headers_all req headers =
     (if UnknownHeaderCount req = 0 then Some headers
      else if unat (UnknownHeaderCount req) \<le> length (pUnknownHeaders req)
      then unknown_headers_loop (take (unat (UnknownHeaderCount req)) (pUnknownHeaders req)) headers
      else None)"

section \<open>simple_request\<close>

text \<open>
  How the structure lies in a byte buffer is the platform's: \<open>parse_request\<close> reads the structure
  at the start of a buffer, \<open>write_null_id\<close> is
  \<open>HTTP_SET_NULL_ID\<close> on it.
\<close>

record request_layout =
  sizeof_request :: size_t
  parse_request :: "string \<Rightarrow> http_request"
  write_null_id :: "string \<Rightarrow> string"

record simple_request =
  dynamic_request_buff :: vector_buffer
  dynamic_body_buff :: vector_buffer

definition simple_request_new :: simple_request where
  "simple_request_new =
     \<lparr>dynamic_request_buff = Vector_buffer [] [], dynamic_body_buff = Vector_buffer [] []\<rparr>"

definition get_request :: "request_layout \<Rightarrow> simple_request \<Rightarrow> http_request" where
  "get_request rl r = parse_request rl (readable vector_ops (dynamic_request_buff r))"

definition get_request_id :: "request_layout \<Rightarrow> simple_request \<Rightarrow> HTTP_REQUEST_ID" where
  "get_request_id rl r = RequestId (get_request rl r)"

definition get_body_string :: "simple_request \<Rightarrow> string" where
  "get_body_string r = readable vector_ops (dynamic_body_buff r)"

definition get_body_string_veiw :: "simple_request \<Rightarrow> string" where
  "get_body_string_veiw r = readable vector_ops (dynamic_body_buff r)"

text \<open>\<open>operator<<\<close>: the text appended to the stream.\<close>

fun decimal_chars :: "nat \<Rightarrow> string" where
  "decimal_chars n =
     (if n < 10 then [char_of (48 + n)] else decimal_chars (n div 10) @ [char_of (48 + n mod 10)])"

declare decimal_chars.simps [simp del]

definition print_request :: "request_layout \<Rightarrow> simple_request \<Rightarrow> string option" where
  "print_request rl m = do {
     let req = get_request rl m;
     known \<leftarrow> get_known_headers_all req [];
     unknown \<leftarrow> get_unknown_headers_all req [];
     Some (concat (map (\<lambda>(i, v). ''KnonwHeader ['' @ decimal_chars (header_index i) @ ''] '' @ v @
             [CHR 0x0A]) known) @
           concat (map (\<lambda>(k, v). k @ '' '' @ v @ [CHR 0x0A]) unknown) @
           get_body_string_veiw m @ [CHR 0x0A])
   }"

section \<open>simple_response\<close>

record simple_response =
  resp :: http_response
  data_chunks :: "http_data_chunk list"
  reason :: string
  status_code :: USHORT
  body :: string
  known_headers :: "(http_header_id, string) std_map_entries"
  unknown_headers :: "(string, string) std_map_entries"
  unknown_headers_buff :: "http_unknown_header list"
  trailers :: "(string, string) std_map_entries"
  trailers_buff :: "http_unknown_header list"

text \<open>The constructor does not initialise \<open>status_code_\<close>: its value is the argument.\<close>

definition simple_response_new :: "USHORT \<Rightarrow> simple_response" where
  "simple_response_new garbage = \<lparr>resp = null_response, data_chunks = [], reason = [],
     status_code = garbage, body = [], known_headers = [], unknown_headers = [],
     unknown_headers_buff = [], trailers = [], trailers_buff = []\<rparr>"

definition set_reason :: "string \<Rightarrow> simple_response \<Rightarrow> simple_response" where
  "set_reason v r = r\<lparr>reason := v\<rparr>"

definition add_known_header :: "http_header_id \<Rightarrow> string \<Rightarrow> simple_response \<Rightarrow> simple_response" where
  "add_known_header i v r = r\<lparr>known_headers := map_assign i v (known_headers r)\<rparr>"

definition set_content_type :: "string \<Rightarrow> simple_response \<Rightarrow> simple_response" where
  "set_content_type v r = add_known_header HttpHeaderContentType v r"

definition set_status_code :: "USHORT \<Rightarrow> simple_response \<Rightarrow> simple_response" where
  "set_status_code c r = r\<lparr>status_code := c\<rparr>"

definition set_body :: "string \<Rightarrow> simple_response \<Rightarrow> simple_response" where
  "set_body b r = r\<lparr>body := b\<rparr>"

definition add_unknown_header :: "string \<Rightarrow> string \<Rightarrow> simple_response \<Rightarrow> simple_response" where
  "add_unknown_header name v r = r\<lparr>unknown_headers := map_assign name v (unknown_headers r)\<rparr>"

definition add_trailer :: "string \<Rightarrow> string \<Rightarrow> simple_response \<Rightarrow> simple_response" where
  "add_trailer name v r = r\<lparr>trailers := map_assign name v (trailers r)\<rparr>"

subsection \<open>get_response\<close>

text \<open>An index beyond the array is an invalid write.\<close>

fun write_known_headers :: "(http_header_id, string) std_map_entries \<Rightarrow> http_known_header list \<Rightarrow>
    http_known_header list option" where
  "write_known_headers [] arr = Some arr"
| "write_known_headers ((i, v) # hs) arr =
     (if header_index i < length arr
      then write_known_headers hs (arr[header_index i :=
        \<lparr>kh_RawValueLength = word_of_nat (length v), kh_pRawValue = v\<rparr>])
      else None)"

definition unknown_header :: "string \<times> string \<Rightarrow> http_unknown_header" where
  "unknown_header x = \<lparr>uh_NameLength = word_of_nat (length (fst x)),
     uh_RawValueLength = word_of_nat (length (snd x)), uh_pName = fst x, uh_pRawValue = snd x\<rparr>"

definition get_response :: "simple_response \<Rightarrow> (http_response \<times> simple_response) option" where
  "get_response r = do {
     let h = (resp r)\<lparr>StatusCode := status_code r, pReason := reason r,
                ReasonLength := word_of_nat (length (reason r))\<rparr>;
     arr \<leftarrow> write_known_headers (known_headers r) (resp_KnownHeaders h);
     let h = h\<lparr>resp_KnownHeaders := arr\<rparr>;
     let ub = map unknown_header (unknown_headers r);
     let h = (if length ub > 0
       then h\<lparr>resp_UnknownHeaderCount := word_of_nat (length ub), resp_pUnknownHeaders := ub\<rparr> else h);
     let chunks = (if length (body r) > 0
       then data_chunks r @ [Chunk_memory (body r) (word_of_nat (length (body r)))]
       else data_chunks r);
     let tb = map unknown_header (trailers r);
     let chunks = (if length tb > 0
       then chunks @ [Chunk_trailers (word_of_nat (length tb)) tb] else chunks);
     let h = (if length chunks > 0
       then h\<lparr>EntityChunkCount := word_of_nat (length chunks), pEntityChunks := chunks\<rparr> else h);
     Some (h, r\<lparr>resp := h, data_chunks := chunks, unknown_headers_buff := ub, trailers_buff := tb\<rparr>)
   }"

section \<open>Known headers\<close>

definition header_readable :: "http_known_header \<Rightarrow> bool" where
  "header_readable h \<longleftrightarrow> unat (kh_RawValueLength h) \<le> length (kh_pRawValue h)"

definition header_text :: "http_known_header \<Rightarrow> string" where
  "header_text h = take (unat (kh_RawValueLength h)) (kh_pRawValue h)"

lemma chars_at_readable:
  "header_readable h \<Longrightarrow> chars_at (kh_pRawValue h) (kh_RawValueLength h) = Some (header_text h)"
  by (simp add: chars_at_def header_readable_def header_text_def)

lemma known_headers_loop_result:
  assumes "\<And>h. h \<in> set hs \<Longrightarrow> header_readable h" and "map_ok m"
  shows "\<exists>m'. known_headers_loop hs i m = Some m' \<and> map_ok m' \<and>
    (\<forall>j. map_lookup m' (Header_id j) =
      (if i \<le> j \<and> j < i + length hs \<and> kh_RawValueLength (hs ! (j - i)) \<noteq> 0
       then Some (header_text (hs ! (j - i))) else map_lookup m (Header_id j)))"
  using assms
proof (induction hs arbitrary: i m)
  case (Cons h hs)
  let ?m = "if kh_RawValueLength h = 0 then m else map_assign (Header_id i) (header_text h) m"
  have "map_ok ?m" using Cons.prems(2) by (simp add: map_ok_assign)
  from Cons.IH [OF _ this, of "Suc i"] Cons.prems(1) obtain m' where
    m': "known_headers_loop hs (Suc i) ?m = Some m'" "map_ok m'"
      "\<And>j. map_lookup m' (Header_id j) =
        (if Suc i \<le> j \<and> j < Suc i + length hs \<and> kh_RawValueLength (hs ! (j - Suc i)) \<noteq> 0
         then Some (header_text (hs ! (j - Suc i))) else map_lookup ?m (Header_id j))"
    by auto
  have "known_headers_loop (h # hs) i m = Some m'"
    using m'(1) Cons.prems(1) by (simp add: chars_at_readable split: if_splits)
  moreover have "map_lookup m' (Header_id j) =
      (if i \<le> j \<and> j < i + length (h # hs) \<and> kh_RawValueLength ((h # hs) ! (j - i)) \<noteq> 0
       then Some (header_text ((h # hs) ! (j - i))) else map_lookup m (Header_id j))" for j
    by (cases "j = i"; cases "Suc i \<le> j")
      (auto simp: m'(3) map_lookup_assign nth_Cons' Suc_le_eq)
  ultimately show ?case using m'(2) by blast
qed auto

text \<open>
  C27: the two ways to read known headers agree: on a request whose values lie within their
  memory the map of all headers exists, and asking for one header gives exactly what the map
  holds for it, a missing or empty header being reported as not found with the out-parameter
  untouched.
\<close>

theorem known_headers_agree:
  assumes "\<And>h. h \<in> set (KnownHeaders req) \<Longrightarrow> header_readable h"
  shows "\<exists>m. get_known_headers_all req [] = Some m \<and> map_ok m \<and>
    (\<forall>i old. query_known_header req i old =
      (if header_index i < length (KnownHeaders req)
       then Some (case map_lookup m i of None \<Rightarrow> (False, old) | Some v \<Rightarrow> (True, v))
       else None))"
proof -
  from known_headers_loop_result [OF assms, of "KnownHeaders req" "[]" 0] obtain m where
    m: "get_known_headers_all req [] = Some m" "map_ok m"
      "\<And>j. map_lookup m (Header_id j) =
        (if j < length (KnownHeaders req) \<and> kh_RawValueLength (KnownHeaders req ! j) \<noteq> 0
         then Some (header_text (KnownHeaders req ! j)) else None)"
    by (auto simp: get_known_headers_all_def)
  have "query_known_header req (Header_id j) old =
      (if j < length (KnownHeaders req)
       then Some (case map_lookup m (Header_id j) of None \<Rightarrow> (False, old) | Some v \<Rightarrow> (True, v))
       else None)" for j old
    using assms [of "KnownHeaders req ! j"]
    by (auto simp: query_known_header_def query_known_header_string_view_def m(3) chars_at_readable)
  with m(1,2) show ?thesis by (metis http_header_id.collapse)
qed

definition sample_http_request :: http_request where
  "sample_http_request = \<lparr>RequestId = 77, Verb = 4, pFullUrl = L ''http://a/b?q=1'',
     FullUrlLength = 28, pQueryString = Some 10,
     KnownHeaders = (replicate 41 null_header)
       [12 := \<lparr>kh_RawValueLength = 9, kh_pRawValue = ''text/htmlX''\<rparr>],
     UnknownHeaderCount = 3,
     pUnknownHeaders = map unknown_header [(''X-A'', ''1''), (''X-B'', ''2''), (''X-A'', ''3'')]\<rparr>"

theorem known_headers_agree_witness:
  "\<exists>m. get_known_headers_all sample_http_request [] = Some m \<and>
     query_known_header sample_http_request HttpHeaderContentType [] =
       Some (case map_lookup m HttpHeaderContentType of None \<Rightarrow> (False, []) | Some v \<Rightarrow> (True, v))"
proof -
  have "header_readable h" if "h \<in> set (KnownHeaders sample_http_request)" for h
    using that set_update_subset_insert [of "replicate 41 null_header" 12
        "\<lparr>kh_RawValueLength = 9, kh_pRawValue = ''text/htmlX''\<rparr>"]
    by (auto simp: sample_http_request_def header_readable_def null_header_def)
  from known_headers_agree [of sample_http_request, OF this] show ?thesis
    by (auto simp: sample_http_request_def)
qed

section \<open>Unknown headers\<close>

definition unknown_readable :: "http_unknown_header \<Rightarrow> bool" where
  "unknown_readable h \<longleftrightarrow> unat (uh_NameLength h) \<le> length (uh_pName h) \<and>
     unat (uh_RawValueLength h) \<le> length (uh_pRawValue h)"

definition unknown_entry :: "http_unknown_header \<Rightarrow> string \<times> string" where
  "unknown_entry h = (take (unat (uh_NameLength h)) (uh_pName h),
     take (unat (uh_RawValueLength h)) (uh_pRawValue h))"

lemma unknown_headers_loop_assign_all:
  "(\<And>h. h \<in> set hs \<Longrightarrow> unknown_readable h) \<Longrightarrow>
   unknown_headers_loop hs m = Some (smap.assign_all (map unknown_entry hs) m)"
  by (induction hs arbitrary: m)
    (auto simp: smap.assign_all_def chars_at_def unknown_readable_def unknown_entry_def)

text \<open>
  The map of unknown headers holds every header of the request and no other; when a name
  occurs more than once, the last value wins.
\<close>

theorem unknown_headers_last_wins:
  assumes "unat (UnknownHeaderCount req) = length (pUnknownHeaders req)"
    and "\<And>h. h \<in> set (pUnknownHeaders req) \<Longrightarrow> unknown_readable h"
  shows "\<exists>m. get_unknown_headers_all req [] = Some m \<and> map_ok m \<and>
    map_lookup m = map_of (rev (map unknown_entry (pUnknownHeaders req)))"
proof -
  let ?m = "smap.assign_all (map unknown_entry (pUnknownHeaders req)) []"
  have "get_unknown_headers_all req [] = Some ?m"
    using assms unknown_headers_loop_assign_all [of "pUnknownHeaders req" "[]"]
    by (auto simp: get_unknown_headers_all_def smap.assign_all_def)
  moreover have "map_ok ?m" by (rule smap.inv_assign_all) simp
  moreover have "map_lookup ?m = map_of (rev (map unknown_entry (pUnknownHeaders req)))"
    by (subst smap.lookup_assign_all) simp_all
  ultimately show ?thesis by blast
qed

theorem unknown_headers_last_wins_witness:
  "\<exists>m. get_unknown_headers_all sample_http_request [] = Some m \<and> map_lookup m ''X-A'' = Some ''3''"
proof -
  have "unknown_readable h" if "h \<in> set (pUnknownHeaders sample_http_request)" for h
    using that by (auto simp: sample_http_request_def unknown_readable_def unknown_header_def)
  from unknown_headers_last_wins [of sample_http_request, OF _ this] show ?thesis
    by (auto simp: sample_http_request_def unknown_entry_def unknown_header_def)
qed

section \<open>What a response carries\<close>

text \<open>
  The receiver's view of an \<open>HTTP_RESPONSE\<close>: lengths and counts delimit the texts and arrays,
  a known header of length 0 is absent, the memory chunks are the body.
\<close>

definition wire_reason :: "http_response \<Rightarrow> string" where
  "wire_reason h = take (unat (ReasonLength h)) (pReason h)"

definition wire_known :: "http_response \<Rightarrow> http_header_id \<Rightarrow> string option" where
  "wire_known h i =
     (if header_index i < length (resp_KnownHeaders h) \<and>
         kh_RawValueLength (resp_KnownHeaders h ! header_index i) \<noteq> 0
      then Some (header_text (resp_KnownHeaders h ! header_index i)) else None)"

definition wire_unknown :: "http_response \<Rightarrow> (string \<times> string) list" where
  "wire_unknown h =
     map unknown_entry (take (unat (resp_UnknownHeaderCount h)) (resp_pUnknownHeaders h))"

fun chunk_body :: "http_data_chunk \<Rightarrow> string" where
  "chunk_body (Chunk_memory p n) = take (unat n) p"
| "chunk_body (Chunk_trailers _ _) = []"

fun chunk_trailers :: "http_data_chunk \<Rightarrow> (string \<times> string) list" where
  "chunk_trailers (Chunk_memory _ _) = []"
| "chunk_trailers (Chunk_trailers n hs) = map unknown_entry (take (unat n) hs)"

definition wire_chunks :: "http_response \<Rightarrow> http_data_chunk list" where
  "wire_chunks h = take (unat (EntityChunkCount h)) (pEntityChunks h)"

definition wire_body :: "http_response \<Rightarrow> string" where
  "wire_body h = concat (map chunk_body (wire_chunks h))"

definition wire_trailers :: "http_response \<Rightarrow> (string \<times> string) list" where
  "wire_trailers h = concat (map chunk_trailers (wire_chunks h))"

text \<open>What fits the \<open>USHORT\<close> and \<open>ULONG\<close> lengths and the array of known headers.\<close>

definition small_text :: "'a list \<Rightarrow> bool" where
  "small_text v \<longleftrightarrow> length v < 2 ^ 16"

definition fits :: "simple_response \<Rightarrow> bool" where
  "fits r \<longleftrightarrow> small_text (reason r) \<and> length (body r) < 2 ^ 32 \<and>
     (\<forall>(i, v) \<in> set (known_headers r). header_index i < HttpHeaderResponseMaximum \<and> small_text v) \<and>
     (\<forall>(k, v) \<in> set (unknown_headers r) \<union> set (trailers r). small_text k \<and> small_text v) \<and>
     small_text (unknown_headers r) \<and> small_text (trailers r)"

text \<open>No response was taken from the object yet.\<close>

definition untaken :: "simple_response \<Rightarrow> bool" where
  "untaken r \<longleftrightarrow> resp r = null_response \<and> data_chunks r = []"

lemma unat_small: "small_text v \<Longrightarrow> unat (word_of_nat (length v) :: USHORT) = length v"
  by (simp add: small_text_def unat_of_nat)

lemma small_nonzero: "small_text v \<Longrightarrow> (word_of_nat (length v) :: USHORT) = 0 \<longleftrightarrow> v = []"
  using unat_small [of v] by (metis length_0_conv unat_0 unat_eq_zero)

lemma unknown_entry_header: "small_text k \<Longrightarrow> small_text v \<Longrightarrow> unknown_entry (unknown_header (k, v)) = (k, v)"
  by (simp add: unknown_entry_def unknown_header_def unat_small)

lemma map_unknown_entry_header:
  "(\<And>k v. (k, v) \<in> set m \<Longrightarrow> small_text k \<and> small_text v) \<Longrightarrow>
   map unknown_entry (map unknown_header m) = m"
  by (auto simp: unknown_entry_header intro!: map_idI)

lemma write_known_headers_result:
  assumes "\<And>i v. (i, v) \<in> set m \<Longrightarrow> header_index i < length arr" and "distinct (map fst m)"
  shows "\<exists>arr'. write_known_headers m arr = Some arr' \<and> length arr' = length arr \<and>
    (\<forall>j < length arr. arr' ! j = (case map_of m (Header_id j) of None \<Rightarrow> arr ! j
       | Some v \<Rightarrow> \<lparr>kh_RawValueLength = word_of_nat (length v), kh_pRawValue = v\<rparr>))"
  using assms
proof (induction m arbitrary: arr)
  case (Cons e m)
  obtain i v where e: "e = (i, v)" by (cases e)
  let ?arr = "arr[header_index i := \<lparr>kh_RawValueLength = word_of_nat (length v), kh_pRawValue = v\<rparr>]"
  have i: "header_index i < length arr" using Cons.prems(1) e by auto
  have "\<exists>arr'. write_known_headers m ?arr = Some arr' \<and> length arr' = length ?arr \<and>
      (\<forall>j < length ?arr. arr' ! j = (case map_of m (Header_id j) of None \<Rightarrow> ?arr ! j
       | Some v \<Rightarrow> \<lparr>kh_RawValueLength = word_of_nat (length v), kh_pRawValue = v\<rparr>))"
    by (rule Cons.IH) (use Cons.prems in \<open>auto simp: e\<close>)
  moreover have "map_of m i = None"
    using Cons.prems(2) by (simp add: e map_of_eq_None_iff)
  ultimately show ?case using i
    by (auto simp: e nth_list_update split: option.split)
qed simp

lemma get_response_parts:
  assumes "fits r" and "untaken r"
    and "write_known_headers (known_headers r) (replicate HttpHeaderResponseMaximum null_header) = Some arr"
  shows "\<exists>h r'. get_response r = Some (h, r') \<and> resp_KnownHeaders h = arr \<and>
    StatusCode h = status_code r \<and> wire_reason h = reason r \<and>
    wire_unknown h = unknown_headers r \<and> wire_body h = body r \<and> wire_trailers h = trailers r"
proof -
  have u: "unat (word_of_nat (length (unknown_headers r)) :: USHORT) = length (unknown_headers r)"
    "unat (word_of_nat (length (trailers r)) :: USHORT) = length (trailers r)"
    "unat (word_of_nat (length (reason r)) :: USHORT) = length (reason r)"
    "unat (word_of_nat (length (body r)) :: ULONG) = length (body r)"
    using assms(1) by (simp_all add: fits_def small_text_def unat_of_nat)
  have m: "map unknown_entry (map unknown_header (unknown_headers r)) = unknown_headers r"
    "map unknown_entry (map unknown_header (trailers r)) = trailers r"
    using assms(1) by (auto simp: fits_def intro!: map_unknown_entry_header simp del: map_map)
  show ?thesis
    using assms(2,3) u m
    by (cases "unknown_headers r = []"; cases "body r = []"; cases "trailers r = []")
      (simp_all add: get_response_def untaken_def null_response_def Let_def wire_reason_def
        wire_unknown_def wire_body_def wire_trailers_def wire_chunks_def)
qed

text \<open>The response that a fresh object yields.\<close>

lemma get_response_fresh:
  assumes "fits r" and "untaken r" and "map_ok (known_headers r)"
  shows "\<exists>h r'. get_response r = Some (h, r') \<and> StatusCode h = status_code r \<and>
    wire_reason h = reason r \<and>
    (\<forall>i. wire_known h i = (case map_lookup (known_headers r) i of
       None \<Rightarrow> None | Some v \<Rightarrow> if v = [] then None else Some v)) \<and>
    wire_unknown h = unknown_headers r \<and> wire_body h = body r \<and> wire_trailers h = trailers r"
proof -
  let ?arr = "replicate HttpHeaderResponseMaximum null_header"
  have known: "\<And>i v. (i, v) \<in> set (known_headers r) \<Longrightarrow> header_index i < length ?arr"
    "\<And>i v. (i, v) \<in> set (known_headers r) \<Longrightarrow> small_text v"
    using assms(1) by (auto simp: fits_def)
  have "\<exists>arr. write_known_headers (known_headers r) ?arr = Some arr \<and> length arr = length ?arr \<and>
      (\<forall>j < length ?arr. arr ! j = (case map_lookup (known_headers r) (Header_id j) of None \<Rightarrow> ?arr ! j
       | Some v \<Rightarrow> \<lparr>kh_RawValueLength = word_of_nat (length v), kh_pRawValue = v\<rparr>))"
    by (rule write_known_headers_result) (use known(1) smap.entries_distinct [OF assms(3)] in auto)
  then obtain arr where arr: "write_known_headers (known_headers r) ?arr = Some arr" "length arr = 30"
    "\<And>j. j < 30 \<Longrightarrow> arr ! j = (case map_lookup (known_headers r) (Header_id j) of None \<Rightarrow> null_header
       | Some v \<Rightarrow> \<lparr>kh_RawValueLength = word_of_nat (length v), kh_pRawValue = v\<rparr>)"
    by (auto cong: option.case_cong)
  from get_response_parts [OF assms(1,2) arr(1)] obtain h r' where
    g: "get_response r = Some (h, r')" and h: "resp_KnownHeaders h = arr"
    "StatusCode h = status_code r" "wire_reason h = reason r"
    "wire_unknown h = unknown_headers r" "wire_body h = body r" "wire_trailers h = trailers r"
    by auto
  have "wire_known h (Header_id j) = (case map_lookup (known_headers r) (Header_id j) of
       None \<Rightarrow> None | Some v \<Rightarrow> if v = [] then None else Some v)" for j
  proof (cases "map_lookup (known_headers r) (Header_id j)")
    case (Some v)
    from known [OF map_of_SomeD [OF Some]] have "j < 30" "small_text v" by simp_all
    with Some show ?thesis
      by (simp add: wire_known_def h arr header_text_def unat_small small_nonzero)
  qed (simp add: wire_known_def h arr null_header_def)
  then have "wire_known h i = (case map_lookup (known_headers r) i of
       None \<Rightarrow> None | Some v \<Rightarrow> if v = [] then None else Some v)" for i
    by (cases i) simp
  with g h show ?thesis by blast
qed

text \<open>
  C12: a response carries exactly what was put into it: for a fresh object whose contents fit
  the length fields, \<open>get_response\<close> makes no invalid write, and a receiver reads back the
  status code, the reason, each nonempty known header, the unknown headers in key order, the
  body and the trailers.
\<close>

theorem response_roundtrip:
  assumes "fits r" and "untaken r" and "map_ok (known_headers r)"
  shows "\<exists>h r'. get_response r = Some (h, r') \<and> StatusCode h = status_code r \<and>
    wire_reason h = reason r \<and>
    (\<forall>i. wire_known h i = (case map_lookup (known_headers r) i of
       None \<Rightarrow> None | Some v \<Rightarrow> if v = [] then None else Some v)) \<and>
    wire_unknown h = unknown_headers r \<and> wire_body h = body r \<and> wire_trailers h = trailers r"
  using assms by (rule get_response_fresh)

definition sample_response :: simple_response where
  "sample_response = set_body ''hi'' (set_content_type ''text/plain'' (set_reason ''OK''
     (set_status_code 200 (add_unknown_header ''X-A'' ''1'' (simple_response_new 0)))))"

lemmas response_defs = simple_response_new_def set_body_def set_content_type_def add_known_header_def
  set_reason_def set_status_code_def add_unknown_header_def add_trailer_def

lemma sample_response_ok: "fits sample_response" "untaken sample_response"
  "map_ok (known_headers sample_response)"
  by (simp_all add: sample_response_def response_defs fits_def small_text_def untaken_def map_ok_def)

theorem response_roundtrip_witness:
  "\<exists>h r'. get_response sample_response = Some (h, r') \<and> StatusCode h = 200 \<and>
     wire_body h = ''hi'' \<and> wire_known h HttpHeaderContentType = Some ''text/plain''"
  using response_roundtrip [OF sample_response_ok]
  by (auto simp: sample_response_def response_defs)

text \<open>Headers set one after the other, from a fresh object.\<close>

definition put_unknown_headers :: "(string \<times> string) list \<Rightarrow> simple_response \<Rightarrow> simple_response" where
  "put_unknown_headers kvs r = fold (\<lambda>(k, v). add_unknown_header k v) kvs r"

lemma put_unknown_headers_eq:
  "put_unknown_headers kvs r = r\<lparr>unknown_headers := smap.assign_all kvs (unknown_headers r)\<rparr>"
  by (induction kvs arbitrary: r)
    (auto simp: put_unknown_headers_def smap.assign_all_def add_unknown_header_def)

lemma map_assign_entries: "(k', v') \<in> set (map_assign k v m) \<Longrightarrow> (k', v') = (k, v) \<or> (k', v') \<in> set m"
  by (induction k v m rule: map_assign.induct) (auto split: if_splits)

lemma length_map_assign: "length (map_assign k v m) \<le> Suc (length m)"
  by (induction k v m rule: map_assign.induct) auto

lemma assign_all_entries:
  "set (smap.assign_all kvs m) \<subseteq> set kvs \<union> set m"
proof (induction kvs arbitrary: m)
  case (Cons e kvs)
  from Cons.IH [of "map_assign (fst e) (snd e) m"] map_assign_entries [of _ _ "fst e" "snd e" m]
  show ?case by (fastforce simp: smap.assign_all_def split_beta)
qed (simp add: smap.assign_all_def)

lemma length_assign_all: "length (smap.assign_all kvs m) \<le> length kvs + length m"
proof (induction kvs arbitrary: m)
  case (Cons e kvs)
  from Cons.IH [of "map_assign (fst e) (snd e) m"] length_map_assign [of "fst e" "snd e" m]
  show ?case by (simp add: smap.assign_all_def split_beta)
qed (simp add: smap.assign_all_def)

text \<open>
  The unknown headers that reach the receiver are the last values added for each name,
  whatever the order and the repetitions.
\<close>

theorem response_headers_last_wins:
  assumes "small_text kvs" and "\<And>k v. (k, v) \<in> set kvs \<Longrightarrow> small_text k \<and> small_text v"
  shows "\<exists>h r'. get_response (put_unknown_headers kvs (simple_response_new g)) = Some (h, r') \<and>
    map_of (wire_unknown h) = map_of (rev kvs)"
proof -
  let ?m = "smap.assign_all kvs []"
  let ?r = "(simple_response_new g)\<lparr>unknown_headers := ?m\<rparr>"
  have "small_text ?m"
    using assms(1) length_assign_all [of kvs "[]"] by (simp add: small_text_def)
  moreover have "\<forall>(k, v) \<in> set ?m. small_text k \<and> small_text v"
    using assms(2) assign_all_entries [of kvs "[]"] by auto
  ultimately have "fits ?r" by (simp add: fits_def simple_response_new_def small_text_def [of "[]"])
  moreover have "untaken ?r" "map_ok (known_headers ?r)"
    by (simp_all add: untaken_def simple_response_new_def)
  ultimately obtain h r' where "get_response ?r = Some (h, r')" "wire_unknown h = ?m"
    using get_response_fresh [of ?r] by auto
  moreover have "map_of ?m = map_of (rev kvs)" by (subst smap.lookup_assign_all) simp_all
  moreover have "put_unknown_headers kvs (simple_response_new g) = ?r"
    by (simp add: put_unknown_headers_eq simple_response_new_def)
  ultimately show ?thesis by auto
qed

definition sample_headers :: "(string \<times> string) list" where
  "sample_headers = [(''X-B'', ''1''), (''X-A'', ''2''), (''X-B'', ''3'')]"

lemma sample_headers_small: "small_text sample_headers"
  "(k, v) \<in> set sample_headers \<Longrightarrow> small_text k \<and> small_text v"
  by (auto simp: sample_headers_def small_text_def)

theorem response_headers_last_wins_witness:
  "\<exists>h r'. get_response (put_unknown_headers sample_headers (simple_response_new 0)) = Some (h, r') \<and>
     map_of (wire_unknown h) ''X-B'' = Some ''3''"
  using response_headers_last_wins [OF sample_headers_small, of 0]
  by (auto simp: sample_headers_def)

text \<open>
  \<open>get_response\<close> is not repeatable: the chunks of an earlier call stay in
  \<open>data_chunks_\<close>, so a second call on the same object announces the body and the trailers
  twice.
\<close>

theorem second_response_duplicates_body:
  assumes "fits r" and "untaken r" and "map_ok (known_headers r)"
  shows "\<exists>h r' h2 r2. get_response r = Some (h, r') \<and> get_response r' = Some (h2, r2) \<and>
    wire_body h2 = body r @ body r \<and> wire_trailers h2 = trailers r @ trailers r"
proof -
  let ?arr = "replicate HttpHeaderResponseMaximum null_header"
  have known: "\<And>i v. (i, v) \<in> set (known_headers r) \<Longrightarrow> header_index i < HttpHeaderResponseMaximum"
    using assms(1) by (auto simp: fits_def)
  note distinct = smap.entries_distinct [OF assms(3)]
  obtain a1 where a1: "write_known_headers (known_headers r) ?arr = Some a1" "length a1 = 30"
    using write_known_headers_result [of "known_headers r" ?arr] known distinct by auto
  obtain a2 where a2: "write_known_headers (known_headers r) a1 = Some a2"
    using write_known_headers_result [of "known_headers r" a1] known distinct a1(2) by auto
  have u: "unat (word_of_nat (length (trailers r)) :: USHORT) = length (trailers r)"
    "unat (word_of_nat (length (body r)) :: ULONG) = length (body r)"
    using assms(1) by (simp_all add: fits_def small_text_def unat_of_nat)
  have m: "map unknown_entry (map unknown_header (trailers r)) = trailers r"
    using assms(1) by (auto simp: fits_def intro!: map_unknown_entry_header simp del: map_map)
  show ?thesis
    using assms(2) a1(1) a2 u m
    by (cases "unknown_headers r = []"; cases "body r = []"; cases "trailers r = []")
      (simp_all add: get_response_def untaken_def null_response_def Let_def
        wire_body_def wire_trailers_def wire_chunks_def)
qed

theorem second_response_duplicates_body_witness:
  "\<exists>h r' h2 r2. get_response sample_response = Some (h, r') \<and> get_response r' = Some (h2, r2) \<and>
     wire_body h2 = ''hihi''"
  using second_response_duplicates_body [OF sample_response_ok]
  by (auto simp: sample_response_def response_defs)

end
