(* ===== verification/Http_Queue.thy ===== *)
theory Http_Queue
  imports Http_Convert
begin

text \<open>
  \<^verbatim>\<open>http/basic_http_queue_handle.hpp\<close>: the overlapped operations on an http.sys request queue.  Each
  wraps its handler in an \<open>overlapped_ptr\<close>, calls the API and then settles the pointer: it
  releases it to the kernel, which will post the completion to the port, or completes it at
  once with the error.  The entry points of http.sys used by all HTTP components are the
  constructors of \<open>http_call\<close>.
\<close>

section \<open>External entry points\<close>

datatype http_call =
    HttpInitialize nat DWORD
  | HttpTerminate DWORD
  | HttpCreateHttpHandle
  | HttpCreateRequestQueue nat wstring
  | HttpReceiveHttpRequest HANDLE HTTP_REQUEST_ID ULONG ULONG
  | HttpReceiveRequestEntityBody HANDLE HTTP_REQUEST_ID ULONG ULONG
  | HttpSendHttpResponse HANDLE http_response HTTP_REQUEST_ID ULONG bool
  | HttpShutdownRequestQueue HANDLE
  | HttpAddUrl HANDLE wstring
  | HttpRemoveUrl HANDLE wstring
  | HttpCreateServerSession nat
  | HttpCreateUrlGroup "64 word"
  | HttpSetUrlGroupProperty "64 word" HANDLE
  | HttpCloseUrlGroup "64 word"
  | HttpCloseServerSession "64 word"
  | HttpAddUrlToUrlGroup "64 word" wstring
  | HttpRemoveUrlFromUrlGroup "64 word" wstring
  | Optr_release
  | Optr_complete error_code size_t
  | Http_complete error_code size_t

type_synonym http_os = "(http_call, reply) os"

abbreviation (input) HTTP_RECEIVE_REQUEST_ENTITY_BODY_FLAG_FILL_BUFFER :: ULONG where
  "HTTP_RECEIVE_REQUEST_ENTITY_BODY_FLAG_FILL_BUFFER \<equiv> 1"
abbreviation (input) HTTP_SEND_RESPONSE_FLAG_DISCONNECT :: ULONG where
  "HTTP_SEND_RESPONSE_FLAG_DISCONNECT \<equiv> 1"

section \<open>basic_http_queue_handle\<close>

record http_queue = "(http_call, reply) external" +
  queue_handle :: HANDLE

definition async_recieve_request :: "http_os \<Rightarrow> HTTP_REQUEST_ID \<Rightarrow> ULONG \<Rightarrow> ULONG \<Rightarrow>
    ('z http_queue_scheme, unit) state" where
  "async_recieve_request os request_id flags len = do {
     h \<leftarrow> gets queue_handle;
     r \<leftarrow> invoke os (HttpReceiveHttpRequest h request_id flags len);
     let status = dword r;
     if status = NO_ERROR then do { _ \<leftarrow> invoke os Optr_release; ret () }
     else if status = ERROR_IO_PENDING then do { _ \<leftarrow> invoke os Optr_release; ret () }
     else do {
       boost_assert (status \<noteq> ERROR_INSUFFICIENT_BUFFER) ''result != ERROR_INSUFFICIENT_BUFFER'';
       _ \<leftarrow> invoke os (Optr_complete status 0);
       ret ()
     }
   }"

definition async_recieve_body :: "http_os \<Rightarrow> HTTP_REQUEST_ID \<Rightarrow> ULONG \<Rightarrow> ULONG \<Rightarrow>
    ('z http_queue_scheme, unit) state" where
  "async_recieve_body os request_id flags len = do {
     h \<leftarrow> gets queue_handle;
     r \<leftarrow> invoke os (HttpReceiveRequestEntityBody h request_id flags len);
     let status = dword r;
     if status = ERROR_IO_PENDING then do { _ \<leftarrow> invoke os Optr_release; ret () }
     else if status = NO_ERROR then do { _ \<leftarrow> invoke os Optr_release; ret () }
     else do { _ \<leftarrow> invoke os (Optr_complete status 0); ret () }
   }"

definition async_send_response :: "http_os \<Rightarrow> http_response \<Rightarrow> HTTP_REQUEST_ID \<Rightarrow> ULONG \<Rightarrow>
    ('z http_queue_scheme, unit) state" where
  "async_send_response os response request_id flags = do {
     h \<leftarrow> gets queue_handle;
     r \<leftarrow> invoke os (HttpSendHttpResponse h response request_id flags True);
     let status = dword r;
     if status = ERROR_IO_PENDING then do { _ \<leftarrow> invoke os Optr_release; ret () }
     else if status = NO_ERROR then do { _ \<leftarrow> invoke os Optr_release; ret () }
     else do { _ \<leftarrow> invoke os (Optr_complete status 0); ret () }
   }"

definition send_response :: "http_os \<Rightarrow> http_response \<Rightarrow> HTTP_REQUEST_ID \<Rightarrow> ULONG \<Rightarrow>
    ('z http_queue_scheme, error_code) state" where
  "send_response os response request_id flags = do {
     h \<leftarrow> gets queue_handle;
     r \<leftarrow> invoke os (HttpSendHttpResponse h response request_id flags False);
     ret (dword r)
   }"

definition shutdown :: "http_os \<Rightarrow> ('z http_queue_scheme, error_code) state" where
  "shutdown os = do {
     h \<leftarrow> gets queue_handle;
     r \<leftarrow> invoke os (HttpShutdownRequestQueue h);
     ret (dword r)
   }"

section \<open>The interface of an overlapped operation\<close>

text \<open>What became of the overlapped structure.\<close>

datatype settlement = Released | Completed error_code size_t

fun settled_as :: "http_call \<Rightarrow> settlement option" where
  "settled_as Optr_release = Some Released"
| "settled_as (Optr_complete ec n) = Some (Completed ec n)"
| "settled_as _ = None"

definition settle :: "DWORD \<Rightarrow> settlement" where
  "settle status = (if status = NO_ERROR \<or> status = ERROR_IO_PENDING then Released
     else Completed status 0)"

fun settle_call :: "settlement \<Rightarrow> http_call" where
  "settle_call Released = Optr_release"
| "settle_call (Completed ec n) = Optr_complete ec n"

text \<open>
  \<open>api h\<close> is the call of the operation, \<open>refused\<close> the statuses that it asserts never to get.
  After the call the operation settles its pointer exactly once.
\<close>

locale overlapped_op =
  fixes os :: http_os
    and op :: "('z http_queue_scheme, unit) state"
    and api :: "HANDLE \<Rightarrow> http_call"
    and refused :: "DWORD \<Rightarrow> bool"
  assumes op_trace: "status = dword (os (trace s) (api (queue_handle s))) \<Longrightarrow>
      t = trace s @ [(api (queue_handle s), os (trace s) (api (queue_handle s)))] \<Longrightarrow>
      c = settle_call (settle status) \<Longrightarrow> trace (exec op s) = t @ [(c, os t c)]"
    and op_violations: "\<not> refused (dword (os (trace s) (api (queue_handle s)))) \<Longrightarrow>
      violations (exec op s) = violations s"
    and op_state: "queue_handle (exec op s) = queue_handle s"
      "http_queue.more (exec op s) = http_queue.more s"
    and api_no_settlement: "settled_as (api h) = None"
begin

lemma observe_op:
  assumes "status = dword (os (trace s) (api (queue_handle s)))"
  shows "observe ob (trace (exec op s)) = observe ob (trace s) @
    (case ob (api (queue_handle s)) of None \<Rightarrow> [] | Some x \<Rightarrow> [x]) @
    (case ob (settle_call (settle status)) of None \<Rightarrow> [] | Some x \<Rightarrow> [x])"
  by (simp add: op_trace [OF assms refl refl] split: option.split)

lemma settled_once:
  "observe settled_as (trace (exec op s)) =
   observe settled_as (trace s) @ [settle (dword (os (trace s) (api (queue_handle s))))]"
  by (subst observe_op [OF refl]) (simp add: api_no_settlement settle_def)

lemma no_completion:
  "(\<And>h. ob (api h) = None) \<Longrightarrow> ob Optr_release = None \<Longrightarrow> (\<And>e n. ob (Optr_complete e n) = None) \<Longrightarrow>
   observe ob (trace (exec op s)) = observe ob (trace s)"
  by (subst observe_op [OF refl]) (simp add: settle_def)

end

lemmas overlapped_defs = async_recieve_request_def async_recieve_body_def async_send_response_def

interpretation receive_io: overlapped_op os "async_recieve_request os i f n"
    "\<lambda>h. HttpReceiveHttpRequest h i f n" "\<lambda>st. st = ERROR_INSUFFICIENT_BUFFER"
  by unfold_locales (auto simp: overlapped_defs exec_simps settle_def Let_def)

interpretation body_io: overlapped_op os "async_recieve_body os i f n"
    "\<lambda>h. HttpReceiveRequestEntityBody h i f n" "\<lambda>st. False"
  by unfold_locales (auto simp: overlapped_defs exec_simps settle_def Let_def)

interpretation send_io: overlapped_op os "async_send_response os r i f"
    "\<lambda>h. HttpSendHttpResponse h r i f True" "\<lambda>st. False"
  by unfold_locales (auto simp: overlapped_defs exec_simps settle_def Let_def)

section \<open>Every overlapped operation settles exactly once\<close>

datatype http_io =
    Io_request HTTP_REQUEST_ID ULONG ULONG
  | Io_body HTTP_REQUEST_ID ULONG ULONG
  | Io_send http_response HTTP_REQUEST_ID ULONG

fun io_op :: "http_os \<Rightarrow> http_io \<Rightarrow> ('z http_queue_scheme, unit) state" where
  "io_op os (Io_request i f n) = async_recieve_request os i f n"
| "io_op os (Io_body i f n) = async_recieve_body os i f n"
| "io_op os (Io_send r i f) = async_send_response os r i f"

fun io_call :: "http_io \<Rightarrow> HANDLE \<Rightarrow> http_call" where
  "io_call (Io_request i f n) h = HttpReceiveHttpRequest h i f n"
| "io_call (Io_body i f n) h = HttpReceiveRequestEntityBody h i f n"
| "io_call (Io_send r i f) h = HttpSendHttpResponse h r i f True"

text \<open>
  C20: each overlapped operation settles its handler exactly once, and on the right side: a
  status of success or pending leaves it to the completion port, which will post it; any other
  status completes it at once with that error.  It is never dropped and never settled twice.
\<close>

theorem overlapped_settled_once:
  "observe settled_as (trace (exec (io_op os io) s)) = observe settled_as (trace s) @
     [let status = dword (os (trace s) (io_call io (queue_handle s)))
      in if status = NO_ERROR \<or> status = ERROR_IO_PENDING then Released else Completed status 0]"
  by (cases io)
    (simp_all add: receive_io.settled_once body_io.settled_once send_io.settled_once settle_def Let_def)

end
