(* ===== verification/Http_Url.thy ===== *)
theory Http_Url
  imports Http_Queue
begin

text \<open>
  Initialisation of http.sys and registration of URLs: \<^verbatim>\<open>http/http_major_version.hpp\<close>,
  \<^verbatim>\<open>http/http_initializer.hpp\<close>, \<open>open_raw_http_queue\<close> of \<^verbatim>\<open>http/http.hpp\<close>, the two specialisations of
  \<open>url_handler\<close> in \<^verbatim>\<open>http/http_url_handler.hpp\<close> and the scoped \<open>basic_http_url\<close> of
  \<^verbatim>\<open>http/basic_http_url.hpp\<close>.
\<close>

section \<open>Versions and initialisation\<close>

datatype HTTP_MAJOR_VERSION = Http_ver_1 | Http_ver_2

fun api_version :: "HTTP_MAJOR_VERSION \<Rightarrow> nat" where
  "api_version Http_ver_1 = 1"
| "api_version Http_ver_2 = 2"

unbundle bit_operations_syntax

abbreviation (input) HTTP_INITIALIZE_SERVER :: DWORD where "HTTP_INITIALIZE_SERVER \<equiv> 1"
abbreviation (input) HTTP_INITIALIZE_CONFIG :: DWORD where "HTTP_INITIALIZE_CONFIG \<equiv> 2"

definition do_init :: "http_os \<Rightarrow> HTTP_MAJOR_VERSION \<Rightarrow> ((http_call, reply, 'z) external_scheme, unit) state" where
  "do_init os ver = do {
     r \<leftarrow> invoke os (HttpInitialize (api_version ver) (HTTP_INITIALIZE_SERVER OR HTTP_INITIALIZE_CONFIG));
     boost_assert (dword r = NO_ERROR) ''do_init: retCode == NO_ERROR''
   }"

definition http_initializer_new :: "http_os \<Rightarrow> HTTP_MAJOR_VERSION \<Rightarrow>
    ((http_call, reply, 'z) external_scheme, unit) state" where
  "http_initializer_new os ver = do_init os ver"

definition http_initializer_destroy :: "http_os \<Rightarrow> ((http_call, reply, 'z) external_scheme, unit) state" where
  "http_initializer_destroy os = do {
     r \<leftarrow> invoke os (HttpTerminate (HTTP_INITIALIZE_SERVER OR HTTP_INITIALIZE_CONFIG));
     boost_assert (dword r = NO_ERROR) ''HttpTerminate: retCode == NO_ERROR''
   }"

text \<open>The queue handle and the error code; \<open>out_num\<close> is what the call left in \<open>req_queue\<close>.\<close>

definition create_http_queue :: "http_os \<Rightarrow> HTTP_MAJOR_VERSION \<Rightarrow>
    ((http_call, reply, 'z) external_scheme, HANDLE \<times> error_code) state" where
  "create_http_queue os ver = (case ver of
     Http_ver_1 \<Rightarrow> do {
       r \<leftarrow> invoke os HttpCreateHttpHandle;
       ret (out_num r, dword r) }
   | Http_ver_2 \<Rightarrow> do {
       r \<leftarrow> invoke os (HttpCreateRequestQueue 2 (L ''Test_Http_Server_HTTPAPI_V2''));
       ret (out_num r, dword r) })"

definition open_raw_http_queue :: "http_os \<Rightarrow> ((http_call, reply, 'z) external_scheme, HANDLE) state" where
  "open_raw_http_queue os = do {
     r \<leftarrow> invoke os HttpCreateHttpHandle;
     boost_assert (dword r = NO_ERROR) ''open_raw_http_queue: retCode == NO_ERROR'';
     ret (out_num r)
   }"

section \<open>url_handler\<close>

text \<open>
  The handler keeps a reference to the queue; the state extends it.  The version 1
  specialisation has no state of its own.
\<close>

record url_handler = http_queue +
  session_id :: "64 word"
  group_id :: "64 word"

definition url_handler_v2_new :: "http_os \<Rightarrow> ('z url_handler_scheme, unit) state" where
  "url_handler_v2_new os = do {
     modify (\<lambda>s. s\<lparr>session_id := 0, group_id := 0\<rparr>);
     r \<leftarrow> invoke os (HttpCreateServerSession 2);
     if dword r \<noteq> NO_ERROR then ret ()
     else do {
       modify (\<lambda>s. s\<lparr>session_id := out_num r\<rparr>);
       sid \<leftarrow> gets session_id;
       r \<leftarrow> invoke os (HttpCreateUrlGroup sid);
       if dword r \<noteq> NO_ERROR then ret ()
       else do {
         modify (\<lambda>s. s\<lparr>group_id := out_num r\<rparr>);
         gid \<leftarrow> gets group_id;
         h \<leftarrow> gets queue_handle;
         r \<leftarrow> invoke os (HttpSetUrlGroupProperty gid h);
         boost_assert (dword r = NO_ERROR) ''bind: retCode == NO_ERROR''
       }
     }
   }"

definition url_handler_v2_destroy :: "http_os \<Rightarrow> ('z url_handler_scheme, unit) state" where
  "url_handler_v2_destroy os = do {
     gid \<leftarrow> gets group_id;
     only_if (gid \<noteq> 0) (do {
       r \<leftarrow> invoke os (HttpCloseUrlGroup gid);
       boost_assert (dword r = NO_ERROR) ''HttpCloseUrlGroup: retCode == NO_ERROR'' });
     sid \<leftarrow> gets session_id;
     only_if (sid \<noteq> 0) (do {
       r \<leftarrow> invoke os (HttpCloseServerSession sid);
       boost_assert (dword r = NO_ERROR) ''HttpCloseServerSession: retCode == NO_ERROR'' })
   }"

definition add_url_v1 :: "http_os \<Rightarrow> wstring \<Rightarrow> ('z url_handler_scheme, error_code) state" where
  "add_url_v1 os url = do {
     h \<leftarrow> gets queue_handle;
     r \<leftarrow> invoke os (HttpAddUrl h url);
     ret (dword r)
   }"

definition remove_url_v1 :: "http_os \<Rightarrow> wstring \<Rightarrow> ('z url_handler_scheme, error_code) state" where
  "remove_url_v1 os url = do {
     h \<leftarrow> gets queue_handle;
     r \<leftarrow> invoke os (HttpRemoveUrl h url);
     ret (dword r)
   }"

definition add_url_v2 :: "http_os \<Rightarrow> wstring \<Rightarrow> ('z url_handler_scheme, error_code) state" where
  "add_url_v2 os url = do {
     g \<leftarrow> gets group_id;
     r \<leftarrow> invoke os (HttpAddUrlToUrlGroup g url);
     ret (dword r)
   }"

definition remove_url_v2 :: "http_os \<Rightarrow> wstring \<Rightarrow> ('z url_handler_scheme, error_code) state" where
  "remove_url_v2 os url = do {
     g \<leftarrow> gets group_id;
     r \<leftarrow> invoke os (HttpRemoveUrlFromUrlGroup g url);
     ret (dword r)
   }"

text \<open>The template dispatch on the version.\<close>

fun url_handler_new :: "http_os \<Rightarrow> HTTP_MAJOR_VERSION \<Rightarrow> ('z url_handler_scheme, unit) state" where
  "url_handler_new os Http_ver_1 = ret ()"
| "url_handler_new os Http_ver_2 = url_handler_v2_new os"

fun url_handler_destroy :: "http_os \<Rightarrow> HTTP_MAJOR_VERSION \<Rightarrow> ('z url_handler_scheme, unit) state" where
  "url_handler_destroy os Http_ver_1 = ret ()"
| "url_handler_destroy os Http_ver_2 = url_handler_v2_destroy os"

fun add_url :: "http_os \<Rightarrow> HTTP_MAJOR_VERSION \<Rightarrow> wstring \<Rightarrow> ('z url_handler_scheme, error_code) state" where
  "add_url os Http_ver_1 url = add_url_v1 os url"
| "add_url os Http_ver_2 url = add_url_v2 os url"

fun remove_url :: "http_os \<Rightarrow> HTTP_MAJOR_VERSION \<Rightarrow> wstring \<Rightarrow> ('z url_handler_scheme, error_code) state" where
  "remove_url os Http_ver_1 url = remove_url_v1 os url"
| "remove_url os Http_ver_2 url = remove_url_v2 os url"

section \<open>basic_http_url\<close>

definition basic_http_url_new :: "http_os \<Rightarrow> HTTP_MAJOR_VERSION \<Rightarrow> wstring \<Rightarrow>
    ('z url_handler_scheme, unit) state" where
  "basic_http_url_new os ver url = do {
     url_handler_new os ver;
     ec \<leftarrow> add_url os ver url;
     boost_assert (\<not> failed ec) ''add_url: !ec.failed()''
   }"

text \<open>The destructor's body, then the destructor of the member \<open>url_handler_\<close>.\<close>

definition basic_http_url_destroy :: "http_os \<Rightarrow> HTTP_MAJOR_VERSION \<Rightarrow> wstring \<Rightarrow>
    ('z url_handler_scheme, unit) state" where
  "basic_http_url_destroy os ver url = do {
     ec \<leftarrow> remove_url os ver url;
     boost_assert (\<not> failed ec) ''remove_url: !ec.failed()'';
     url_handler_destroy os ver
   }"

section \<open>What is open\<close>

datatype http_resource = Api | Session "64 word" | Group "64 word" | Url "64 word" wstring

datatype resource_change = Opened http_resource | Closed http_resource

text \<open>
  What a call with its answer opens or closes.  The API and a URL count as open from the call that
  asks for them, whatever it returns, because the destructors undo them in any case; a session
  and a group exist when their call succeeded with an identifier, which is documented not to be
  null.  The first word of a URL is the queue (version 1) or the group (version 2) it is added to.
\<close>

fun resource_event :: "http_call \<times> reply \<Rightarrow> resource_change option" where
  "resource_event (HttpInitialize _ _, _) = Some (Opened Api)"
| "resource_event (HttpTerminate _, _) = Some (Closed Api)"
| "resource_event (HttpCreateServerSession _, r) =
     (if dword r = NO_ERROR \<and> out_num r \<noteq> 0 then Some (Opened (Session (out_num r))) else None)"
| "resource_event (HttpCreateUrlGroup _, r) =
     (if dword r = NO_ERROR \<and> out_num r \<noteq> 0 then Some (Opened (Group (out_num r))) else None)"
| "resource_event (HttpCloseUrlGroup g, _) = Some (Closed (Group g))"
| "resource_event (HttpCloseServerSession i, _) = Some (Closed (Session i))"
| "resource_event (HttpAddUrl h u, _) = Some (Opened (Url h u))"
| "resource_event (HttpRemoveUrl h u, _) = Some (Closed (Url h u))"
| "resource_event (HttpAddUrlToUrlGroup g u, _) = Some (Opened (Url g u))"
| "resource_event (HttpRemoveUrlFromUrlGroup g u, _) = Some (Closed (Url g u))"
| "resource_event _ = None"

definition ledger :: "(http_call, reply) history \<Rightarrow> resource_change list" where
  "ledger t = List.map_filter resource_event t"

lemma ledger_simps [simp]:
  "ledger [] = []"
  "ledger (t @ u) = ledger t @ ledger u"
  "ledger (e # t) = (case resource_event e of None \<Rightarrow> ledger t | Some x \<Rightarrow> x # ledger t)"
  by (simp_all add: ledger_def List.map_filter_def split: option.splits)

abbreviation "opened_closed s \<equiv> ledger (trace s)"

text \<open>Opened in the order of the list and closed in reverse.\<close>

definition nested :: "http_resource list \<Rightarrow> resource_change list" where
  "nested rs = map Opened rs @ map Closed (rev rs)"

section \<open>The interface of a registrar\<close>

text \<open>
  A registrar opens what it holds when it is constructed and closes it in reverse when it is
  destroyed; in between it adds and removes URLs on its target.
\<close>

locale url_registrar =
  fixes construct destruct :: "('z url_handler_scheme, unit) state"
    and add remove :: "wstring \<Rightarrow> ('z url_handler_scheme, error_code) state"
    and target :: "'z url_handler_scheme \<Rightarrow> 64 word"
    and held :: "'z url_handler_scheme \<Rightarrow> http_resource list"
  assumes construct_opens: "opened_closed (exec construct s) =
      opened_closed s @ map Opened (held (exec construct s))"
    and destruct_closes: "opened_closed (exec destruct s) = opened_closed s @ map Closed (rev (held s))"
    and add_opens: "opened_closed (exec (add u) s) = opened_closed s @ [Opened (Url (target s) u)]"
    and remove_closes: "opened_closed (exec (remove u) s) = opened_closed s @ [Closed (Url (target s) u)]"
    and add_keeps: "target (exec (add u) s) = target s" "held (exec (add u) s) = held s"
    and remove_keeps: "held (exec (remove u) s) = held s"
begin

definition neutral :: "('z url_handler_scheme, unit) state \<Rightarrow> bool" where
  "neutral m \<longleftrightarrow> (\<forall>s. opened_closed (exec m s) = opened_closed s \<and> target (exec m s) = target s \<and>
     held (exec m s) = held s)"

text \<open>A scope that adds on entry and removes on exit nests its URL in what the registrar holds.\<close>

lemma scope:
  assumes "neutral m" and "\<And>ec. neutral (chk1 ec)" and "\<And>ec. neutral (chk2 ec)"
    and "s1 = exec construct s"
  shows "opened_closed (exec (do { construct; ec \<leftarrow> add u; chk1 ec; m; ec' \<leftarrow> remove u; chk2 ec';
      destruct }) s) = opened_closed s @ nested (held s1 @ [Url (target s1) u])"
  using assms unfolding neutral_def nested_def
  by (simp add: exec_simps destruct_closes remove_closes add_opens construct_opens add_keeps remove_keeps)

end

lemmas url_handler_defs = add_url_v1_def remove_url_v1_def add_url_v2_def remove_url_v2_def
  url_handler_v2_new_def url_handler_v2_destroy_def

definition held_v2 :: "'z url_handler_scheme \<Rightarrow> http_resource list" where
  "held_v2 s = (if session_id s = 0 then [] else [Session (session_id s)]) @
     (if group_id s = 0 then [] else [Group (group_id s)])"

interpretation registrar_v1: url_registrar "url_handler_new os Http_ver_1" "url_handler_destroy os Http_ver_1"
    "add_url os Http_ver_1" "remove_url os Http_ver_1" queue_handle "\<lambda>_. []"
  by unfold_locales (simp_all add: url_handler_defs exec_simps)

interpretation registrar_v2: url_registrar "url_handler_new os Http_ver_2" "url_handler_destroy os Http_ver_2"
    "add_url os Http_ver_2" "remove_url os Http_ver_2" group_id held_v2
  by unfold_locales (auto simp: url_handler_defs exec_simps held_v2_def Let_def)

section \<open>The lifetime of a server\<close>

text \<open>The code between construction and destruction does not open or close and leaves the handler alone.\<close>

definition leaves_urls :: "('z url_handler_scheme, unit) state \<Rightarrow> bool" where
  "leaves_urls m \<longleftrightarrow> (\<forall>s. opened_closed (exec m s) = opened_closed s \<and>
     queue_handle (exec m s) = queue_handle s \<and> session_id (exec m s) = session_id s \<and>
     group_id (exec m s) = group_id s)"

definition url_lifetime :: "http_os \<Rightarrow> HTTP_MAJOR_VERSION \<Rightarrow> wstring \<Rightarrow> ('z url_handler_scheme, unit) state \<Rightarrow>
    ('z url_handler_scheme, unit) state" where
  "url_lifetime os ver url m = do {
     basic_http_url_new os ver url;
     m;
     basic_http_url_destroy os ver url
   }"

text \<open>
  The objects of a server in the order in which they are declared: the initializer, the queue with
  the handle that the initializer created, and the URL; they are destroyed in reverse.  The
  destructor of the queue is asio's, the parameter \<open>close_queue\<close>.
\<close>

definition server_lifetime :: "http_os \<Rightarrow> HTTP_MAJOR_VERSION \<Rightarrow> wstring \<Rightarrow> ('z url_handler_scheme, unit) state \<Rightarrow>
    ('z url_handler_scheme, unit) state \<Rightarrow> ('z url_handler_scheme, unit) state" where
  "server_lifetime os ver url close_queue m = do {
     http_initializer_new os ver;
     (q, ec) \<leftarrow> create_http_queue os ver;
     modify (\<lambda>s. s\<lparr>queue_handle := q\<rparr>);
     boost_assert (\<not> failed ec) ''!ec.failed()'';
     url_lifetime os ver url m;
     close_queue;
     http_initializer_destroy os
   }"

lemma neutral_code:
  "leaves_urls m \<Longrightarrow> registrar_v1.neutral m" "leaves_urls m \<Longrightarrow> registrar_v2.neutral m"
  "registrar_v1.neutral (boost_assert b msg)" "registrar_v2.neutral (boost_assert b msg)"
  by (simp_all add: leaves_urls_def registrar_v1.neutral_def registrar_v2.neutral_def held_v2_def)

lemma url_lifetime_flat:
  "exec (url_lifetime os ver url m) s = exec (do {
     url_handler_new os ver;
     ec \<leftarrow> add_url os ver url;
     boost_assert (\<not> failed ec) ''add_url: !ec.failed()'';
     m;
     ec' \<leftarrow> remove_url os ver url;
     boost_assert (\<not> failed ec') ''remove_url: !ec.failed()'';
     url_handler_destroy os ver }) s"
  by (simp add: url_lifetime_def basic_http_url_new_def basic_http_url_destroy_def exec_simps)

lemma url_lifetime_nests:
  assumes "leaves_urls m"
  shows "\<exists>rs g. opened_closed (exec (url_lifetime os ver url m) s) = opened_closed s @ nested (rs @ [Url g url]) \<and>
    set rs \<subseteq> range Session \<union> range Group"
proof (cases ver)
  case Http_ver_1
  have "opened_closed (exec (url_lifetime os ver url m) s) = opened_closed s @
      nested ([] @ [Url (queue_handle (exec (url_handler_new os Http_ver_1) s)) url])"
    unfolding url_lifetime_flat Http_ver_1
    by (rule registrar_v1.scope) (simp_all only: neutral_code assms)
  then show ?thesis by (intro exI [of _ "[]"] exI) auto
next
  case Http_ver_2
  let ?s = "exec (url_handler_new os Http_ver_2) s"
  have "opened_closed (exec (url_lifetime os ver url m) s) = opened_closed s @
      nested (held_v2 ?s @ [Url (group_id ?s) url])"
    unfolding url_lifetime_flat Http_ver_2
    by (rule registrar_v2.scope) (simp_all only: neutral_code assms)
  moreover have "set (held_v2 ?s) \<subseteq> range Session \<union> range Group" by (auto simp: held_v2_def)
  ultimately show ?thesis by blast
qed

lemma server_setup_ledger:
  "opened_closed (exec (http_initializer_new os ver) s) = opened_closed s @ [Opened Api]"
  "opened_closed (exec (http_initializer_destroy os) s) = opened_closed s @ [Closed Api]"
  "opened_closed (exec (create_http_queue os ver) s) = opened_closed s"
  by (cases ver; simp add: http_initializer_new_def do_init_def http_initializer_destroy_def
      create_http_queue_def exec_simps)+

lemma nested_simps [simp]: "nested (r # rs) = Opened r # nested rs @ [Closed r]"
  by (simp add: nested_def)

text \<open>
  C26: the objects of a server are properly nested.  With either version of the API and whatever
  its calls return, the API is initialised first and terminated last, the session and the group
  of version 2 that could be created are closed exactly once in reverse order, and the URL is
  added once, inside of them, and removed once, from the same queue or group.
\<close>

theorem server_objects_nest:
  assumes "leaves_urls m" and "leaves_urls close_queue"
  shows "\<exists>rs g. opened_closed (exec (server_lifetime os ver url close_queue m) s) =
      opened_closed s @ nested ([Api] @ rs @ [Url g url]) \<and> set rs \<subseteq> range Session \<union> range Group"
proof -
  let ?q = "exec (boost_assert (\<not> failed (snd (result (create_http_queue os ver)
      (exec (http_initializer_new os ver) s)))) ''!ec.failed()'')
    ((exec (create_http_queue os ver) (exec (http_initializer_new os ver) s))
      \<lparr>queue_handle := fst (result (create_http_queue os ver) (exec (http_initializer_new os ver) s))\<rparr>)"
  have "opened_closed ?q = opened_closed s @ [Opened Api]" by (simp add: server_setup_ledger)
  moreover have "opened_closed (exec (server_lifetime os ver url close_queue m) s) =
      opened_closed (exec (url_lifetime os ver url m) ?q) @ [Closed Api]"
    using assms(2) by (simp add: server_lifetime_def exec_simps server_setup_ledger leaves_urls_def
        split: prod.split)
  ultimately show ?thesis using url_lifetime_nests [OF assms(1), of os ver url ?q] by auto
qed

definition sample_url_state :: url_handler where
  "sample_url_state = \<lparr>trace = [], violations = [], queue_handle = 3, session_id = 0, group_id = 0\<rparr>"

fun numbering_os :: http_os where
  "numbering_os t (HttpCreateServerSession _) = answer_out 0 11"
| "numbering_os t (HttpCreateUrlGroup _) = answer_out 0 12"
| "numbering_os t _ = answer 0"

theorem server_objects_nest_witness:
  "(\<exists>rs g. opened_closed (exec (server_lifetime numbering_os Http_ver_2 (L ''http://+:80/'') (ret ()) (ret ()))
      sample_url_state) = nested ([Api] @ rs @ [Url g (L ''http://+:80/'')])) \<and>
   opened_closed (exec (server_lifetime numbering_os Http_ver_2 (L ''http://+:80/'') (ret ()) (ret ()))
      sample_url_state) = nested [Api, Session 11, Group 12, Url 12 (L ''http://+:80/'')]"
  using server_objects_nest [of "ret ()" "ret ()" numbering_os Http_ver_2 "L ''http://+:80/''" sample_url_state]
  by (auto simp: leaves_urls_def sample_url_state_def server_lifetime_def exec_simps url_lifetime_flat
      url_handler_defs http_initializer_new_def do_init_def http_initializer_destroy_def create_http_queue_def
      dword_def nested_def)

end
