(* ===== verification/Http_Receive.thy ===== *)
theory Http_Receive
  imports Http_Queue
begin

text \<open>
  \<^verbatim>\<open>http/http_asio.hpp\<close>: the composed operations \<open>async_receive_op\<close>, which receives the head of a
  request into a buffer that grows until it fits, and \<open>async_receive_body_op\<close>, which receives
  the entity body until http.sys reports its end.
\<close>

section \<open>async_receive_op\<close>

datatype receive_state = HR_idle | HR_recieving

record 'b receive_op = http_queue +
  hr_state :: receive_state
  hr_buff :: 'b

definition http_handler :: "http_os \<Rightarrow> error_code \<Rightarrow> size_t \<Rightarrow> ('z http_queue_scheme, unit) state" where
  "http_handler os ec len = do { _ \<leftarrow> invoke os (Http_complete ec len); ret () }"

text \<open>
  \<open>phttp_request\<close> casts the prepared memory to an \<open>HTTP_REQUEST\<close>; using a region that is
  smaller than the structure is an invalid access, recorded with the violations.
\<close>

definition phttp_request_size :: "string \<Rightarrow> ULONG" where
  "phttp_request_size mem = word_of_nat (length mem)"

definition recieve :: "http_os \<Rightarrow> 'b dynbuf_ops \<Rightarrow> request_layout \<Rightarrow> size_t \<Rightarrow> bool \<Rightarrow>
    (('b, 'z) receive_op_scheme, unit) state" where
  "recieve os B rl len init = do {
     modify (\<lambda>s. s\<lparr>hr_buff := prepare B (hr_buff s) len\<rparr>);
     mutbuff \<leftarrow> gets (\<lambda>s. region B (hr_buff s));
     let size = phttp_request_size mutbuff;
     boost_assert (unat (sizeof_request rl) \<le> length mutbuff) ''invalid HTTP_REQUEST access'';
     only_if init (modify (\<lambda>s. s\<lparr>hr_buff := store B (hr_buff s)
       (write_null_id rl (region B (hr_buff s)))\<rparr>));
     pRequest \<leftarrow> gets (\<lambda>s. parse_request rl (region B (hr_buff s)));
     async_recieve_request os (RequestId pRequest) 0 size
   }"

definition receive_step :: "http_os \<Rightarrow> 'b dynbuf_ops \<Rightarrow> request_layout \<Rightarrow>
    (error_code \<Rightarrow> size_t \<Rightarrow> (('b, 'z) receive_op_scheme, unit) state) \<Rightarrow>
    error_code \<Rightarrow> size_t \<Rightarrow> (('b, 'z) receive_op_scheme, unit) state" where
  "receive_step os B rl complete ec len = do {
     st \<leftarrow> gets hr_state;
     (case st of
        HR_idle \<Rightarrow>
          if failed ec then complete ec len
          else do {
            modify (\<lambda>s. s\<lparr>hr_state := HR_recieving\<rparr>);
            recieve os B rl (sizeof_request rl + 1024) True }
      | HR_recieving \<Rightarrow>
          if failed ec then
            (if ec = ERROR_HANDLE_EOF then complete 0 len
             else if ec = ERROR_MORE_DATA then do {
               size \<leftarrow> gets (\<lambda>s. length (readable B (hr_buff s)));
               boost_assert (unat len > size) ''len should increase'';
               recieve os B rl len False }
             else complete ec len)
          else do {
            modify (\<lambda>s. s\<lparr>hr_buff := commit B (hr_buff s) len\<rparr>);
            complete ec len })
   }"

text \<open>The constructor; the queue and the buffer it refers to are the state's.\<close>

definition async_receive_op_new :: "(('b, 'z) receive_op_scheme, unit) state" where
  "async_receive_op_new = modify (\<lambda>s. s\<lparr>hr_state := HR_idle\<rparr>)"

declare async_receive_op_new_def [simp]

definition async_receive :: "http_os \<Rightarrow> 'b dynbuf_ops \<Rightarrow> request_layout \<Rightarrow>
    (error_code \<Rightarrow> size_t \<Rightarrow> (('b, 'z) receive_op_scheme, unit) state) \<Rightarrow>
    (('b, 'z) receive_op_scheme, unit) state" where
  "async_receive os B rl complete = do {
     async_receive_op_new;
     receive_step os B rl complete 0 0
   }"

section \<open>async_receive_body_op\<close>

datatype receive_body_state = HB_idle | HB_recieving

record 'b receive_body_op = http_queue +
  hb_id :: HTTP_REQUEST_ID
  hb_buff :: 'b
  hb_state :: receive_body_state
  hb_body_size_hint :: size_t

definition recieve_body :: "http_os \<Rightarrow> 'b dynbuf_ops \<Rightarrow> size_t \<Rightarrow>
    (('b, 'z) receive_body_op_scheme, unit) state" where
  "recieve_body os B len = do {
     modify (\<lambda>s. s\<lparr>hb_buff := prepare B (hb_buff s) len\<rparr>);
     mutbuff \<leftarrow> gets (\<lambda>s. region B (hb_buff s));
     i \<leftarrow> gets hb_id;
     async_recieve_body os i HTTP_RECEIVE_REQUEST_ENTITY_BODY_FLAG_FILL_BUFFER
       (word_of_nat (length mutbuff))
   }"

definition receive_body_step :: "http_os \<Rightarrow> 'b dynbuf_ops \<Rightarrow>
    (error_code \<Rightarrow> size_t \<Rightarrow> (('b, 'z) receive_body_op_scheme, unit) state) \<Rightarrow>
    error_code \<Rightarrow> size_t \<Rightarrow> (('b, 'z) receive_body_op_scheme, unit) state" where
  "receive_body_step os B complete ec len = do {
     st \<leftarrow> gets hb_state;
     hint \<leftarrow> gets hb_body_size_hint;
     (case st of
        HB_idle \<Rightarrow>
          if failed ec then complete ec len
          else do {
            modify (\<lambda>s. s\<lparr>hb_state := HB_recieving\<rparr>);
            recieve_body os B hint }
      | HB_recieving \<Rightarrow>
          if failed ec then
            (if ec = ERROR_HANDLE_EOF then do {
               modify (\<lambda>s. s\<lparr>hb_buff := commit B (hb_buff s) len\<rparr>);
               complete 0 len }
             else complete ec len)
          else do {
            modify (\<lambda>s. s\<lparr>hb_buff := commit B (hb_buff s) len\<rparr>);
            (if len < hint then recieve_body os B 1 else recieve_body os B hint) })
   }"

definition async_receive_body_op_new :: "HTTP_REQUEST_ID \<Rightarrow> size_t \<Rightarrow> (('b, 'z) receive_body_op_scheme, unit) state" where
  "async_receive_body_op_new i body_size_hint =
     modify (\<lambda>s. s\<lparr>hb_id := i, hb_state := HB_idle, hb_body_size_hint := body_size_hint\<rparr>)"

declare async_receive_body_op_new_def [simp]

definition async_receive_body :: "http_os \<Rightarrow> 'b dynbuf_ops \<Rightarrow> HTTP_REQUEST_ID \<Rightarrow>
    (error_code \<Rightarrow> size_t \<Rightarrow> (('b, 'z) receive_body_op_scheme, unit) state) \<Rightarrow> size_t \<Rightarrow>
    (('b, 'z) receive_body_op_scheme, unit) state" where
  "async_receive_body os B i complete hint = do {
     async_receive_body_op_new i hint;
     receive_body_step os B complete 0 0
   }"

section \<open>Both operations meet the contract\<close>

fun http_completion :: "http_call \<Rightarrow> (error_code \<times> size_t) option" where
  "http_completion (Http_complete ec n) = Some (ec, n)"
| "http_completion _ = None"

text \<open>The receive calls an operation made, with identifier and length.\<close>

fun receive_call :: "http_call \<Rightarrow> (HTTP_REQUEST_ID \<times> ULONG) option" where
  "receive_call (HttpReceiveHttpRequest _ i _ n) = Some (i, n)"
| "receive_call (HttpReceiveRequestEntityBody _ i _ n) = Some (i, n)"
| "receive_call _ = None"

abbreviation "completed s \<equiv> observe http_completion (trace s)"
abbreviation "received s \<equiv> observe receive_call (trace s)"

lemma receive_io_facts:
  "completed (exec (async_recieve_request os i f n) s) = completed s"
  "received (exec (async_recieve_request os i f n) s) = received s @ [(i, n)]"
  "completed (exec (async_recieve_body os i f n) s) = completed s"
  "received (exec (async_recieve_body os i f n) s) = received s @ [(i, n)]"
  by (simp_all add: receive_io.observe_op [OF refl] body_io.observe_op [OF refl] settle_def)

lemma more_receive:
  assumes "http_queue.more s' = http_queue.more s"
  shows "hr_state s' = hr_state s" and "hr_buff s' = hr_buff s"
  using assms by (cases s; cases s'; simp)+

lemma more_receive_body:
  assumes "http_queue.more s' = http_queue.more s"
  shows "hb_state s' = hb_state s" and "hb_buff s' = hb_buff s" and "hb_id s' = hb_id s"
    and "hb_body_size_hint s' = hb_body_size_hint s"
  using assms by (cases s; cases s'; simp)+

lemmas receive_io_state = receive_io.op_state(2) [THEN more_receive(1)]
  receive_io.op_state(2) [THEN more_receive(2)] body_io.op_state(2) [THEN more_receive_body(1)]
  body_io.op_state(2) [THEN more_receive_body(2)] body_io.op_state(2) [THEN more_receive_body(3)]
  body_io.op_state(2) [THEN more_receive_body(4)]

lemmas receive_simps = exec_simps receive_io_facts receive_io_state http_handler_def

type_synonym http_event = "error_code \<times> size_t \<times> string"

text \<open>A completion: the bytes that http.sys stored in the prepared memory, then the result.\<close>

definition receive_resume :: "http_os \<Rightarrow> 'b dynbuf_ops \<Rightarrow> request_layout \<Rightarrow> http_event \<Rightarrow>
    (('b, 'z) receive_op_scheme, unit) state" where
  "receive_resume os B rl e = (case e of (ec, len, xs) \<Rightarrow> do {
     modify (\<lambda>s. s\<lparr>hr_buff := store B (hr_buff s) xs\<rparr>);
     receive_step os B rl (http_handler os) ec len
   })"

definition receive_body_resume :: "http_os \<Rightarrow> 'b dynbuf_ops \<Rightarrow> http_event \<Rightarrow>
    (('b, 'z) receive_body_op_scheme, unit) state" where
  "receive_body_resume os B e = (case e of (ec, len, xs) \<Rightarrow> do {
     modify (\<lambda>s. s\<lparr>hb_buff := store B (hb_buff s) xs\<rparr>);
     receive_body_step os B (http_handler os) ec len
   })"

text \<open>\<open>ERROR_HANDLE_EOF\<close> and, for the head, \<open>ERROR_MORE_DATA\<close> are results, not failures.\<close>

definition head_error :: "http_event \<Rightarrow> error_code" where
  "head_error e = (if fst e = ERROR_HANDLE_EOF \<or> fst e = ERROR_MORE_DATA then 0 else fst e)"

definition body_error :: "http_event \<Rightarrow> error_code" where
  "body_error e = (if fst e = ERROR_HANDLE_EOF then 0 else fst e)"

interpretation receive_head: composed_op "receive_resume os B rl" "\<lambda>s. completed s"
    "\<lambda>s. length (received s)" "\<lambda>s. hr_state s = HR_recieving" head_error "\<lambda>e. fst (snd e)"
proof (unfold_locales, goal_cases)
  case (1 s e)
  then show ?case
    by (cases e) (simp add: receive_resume_def receive_step_def recieve_def receive_simps Let_def)
next
  case (2 s e)
  then show ?case
    by (cases e) (auto simp: receive_resume_def receive_step_def receive_simps head_error_def
        split: if_splits)
qed

interpretation receive_body: composed_op "receive_body_resume os B" "\<lambda>s. completed s"
    "\<lambda>s. length (received s)" "\<lambda>s. hb_state s = HB_recieving" body_error "\<lambda>e. fst (snd e)"
proof (unfold_locales, goal_cases)
  case (1 s e)
  then show ?case
    by (cases e)
      (simp add: receive_body_resume_def receive_body_step_def recieve_body_def receive_simps Let_def)
next
  case (2 s e)
  then show ?case
    by (cases e) (auto simp: receive_body_resume_def receive_body_step_def receive_simps body_error_def
        split: if_splits)
qed

section \<open>Receiving the head\<close>

text \<open>
  The structure at the start of a buffer: writing the null identifier keeps the length and
  is read back, and reading it depends on the bytes of the structure only.
\<close>

definition layout_ok :: "request_layout \<Rightarrow> bool" where
  "layout_ok rl \<longleftrightarrow> unat (sizeof_request rl) < 2 ^ 31 \<and>
     (\<forall>m. unat (sizeof_request rl) \<le> length m \<longrightarrow>
        length (write_null_id rl m) = length m \<and>
        RequestId (parse_request rl (write_null_id rl m)) = 0) \<and>
     (\<forall>m m'. unat (sizeof_request rl) \<le> length m \<longrightarrow>
        RequestId (parse_request rl (m @ m')) = RequestId (parse_request rl m))"

text \<open>Preparing a larger region keeps the bytes of the earlier one, as a vector's \<open>resize\<close> does.\<close>

definition prepare_keeps :: "'b dynbuf_ops \<Rightarrow> bool" where
  "prepare_keeps B \<longleftrightarrow> (\<forall>b n. length (region B b) \<le> unat n \<longrightarrow>
     (\<exists>m. region B (prepare B b n) = region B b @ m))"

lemma vector_ops_keeps: "prepare_keeps vector_ops"
  by (auto simp: prepare_keeps_def vector_ops_def)

text \<open>http.sys reports \<open>ERROR_INSUFFICIENT_BUFFER\<close> only for buffers smaller than the structure.\<close>

definition fits_structure :: "http_os \<Rightarrow> request_layout \<Rightarrow> bool" where
  "fits_structure os rl \<longleftrightarrow> (\<forall>t h i f n. unat (sizeof_request rl) \<le> unat n \<longrightarrow>
     dword (os t (HttpReceiveHttpRequest h i f n)) \<noteq> ERROR_INSUFFICIENT_BUFFER)"

text \<open>
  One too small buffer after the other: http.sys stores the bytes \<open>xs\<close> of the structure with
  identifier \<open>i\<close> and asks for \<open>len\<close> bytes, at least as many as it was offered.
\<close>

fun valid_growth :: "request_layout \<Rightarrow> HTTP_REQUEST_ID \<Rightarrow> nat \<Rightarrow> (size_t \<times> string) list \<Rightarrow> bool" where
  "valid_growth rl i n [] = True"
| "valid_growth rl i n ((len, xs) # cs) =
     (unat (sizeof_request rl) \<le> length xs \<and> length xs \<le> n \<and> RequestId (parse_request rl xs) = i \<and>
      n \<le> unat len \<and> unat len < 2 ^ 32 \<and> valid_growth rl i (unat len) cs)"

fun grown :: "nat \<Rightarrow> (size_t \<times> string) list \<Rightarrow> nat" where
  "grown n [] = n"
| "grown n ((len, _) # cs) = grown (unat len) cs"

fun grow_events :: "(size_t \<times> string) list \<Rightarrow> http_event list" where
  "grow_events [] = []"
| "grow_events ((len, xs) # cs) = (ERROR_MORE_DATA, len, xs) # grow_events cs"

definition awaiting :: "'b dynbuf_ops \<Rightarrow> nat \<Rightarrow> string \<Rightarrow> ('b, 'z) receive_op_scheme \<Rightarrow> bool" where
  "awaiting B n d s \<longleftrightarrow> hr_state s = HR_recieving \<and> completed s = [] \<and> violations s = [] \<and>
     length (region B (hr_buff s)) = n \<and> readable B (hr_buff s) = d"

lemma region_store:
  "dynbuf_ok B \<Longrightarrow> length xs \<le> length (region B b) \<Longrightarrow>
   region B (store B b xs) = xs @ drop (length xs) (region B b)"
  by (simp add: dynbuf_ok_def)

lemma request_violations:
  assumes "fits_structure os rl" and "unat (sizeof_request rl) \<le> unat n"
  shows "violations (exec (async_recieve_request os i f n) s) = violations s"
  using assms by (intro receive_io.op_violations) (auto simp: fits_structure_def)

lemma request_violations_mono:
  "m \<in> set (violations s) \<Longrightarrow> m \<in> set (violations (exec (async_recieve_request os i f n) s))"
  by (auto simp: async_recieve_request_def exec_simps Let_def)

lemma receive_round:
  assumes "dynbuf_ok B" "prepare_keeps B" "layout_ok rl" "fits_structure os rl"
    and "awaiting B n d s" and "valid_growth rl i n ((len, xs) # cs)" and "length d < n"
  shows "awaiting B (unat len) d (exec (receive_resume os B rl (ERROR_MORE_DATA, len, xs)) s)"
    and "received (exec (receive_resume os B rl (ERROR_MORE_DATA, len, xs)) s) =
      received s @ [(i, ucast len)]"
proof -
  let ?b = "store B (hr_buff s) xs"
  have xs: "length xs \<le> length (region B (hr_buff s))" using assms(5,6) by (simp add: awaiting_def)
  have rb: "region B ?b = xs @ drop (length xs) (region B (hr_buff s))"
    using assms(1) xs by (rule region_store)
  have len: "length (region B ?b) \<le> unat len"
    using rb xs assms(5,6) by (simp add: awaiting_def)
  with assms(2) obtain m where m: "region B (prepare B ?b len) = region B ?b @ m"
    unfolding prepare_keeps_def by blast
  have i: "RequestId (parse_request rl (region B (prepare B ?b len))) = i"
    using assms(3,6) by (simp add: m rb layout_ok_def)
  have size: "phttp_request_size (region B (prepare B ?b len)) = ucast len"
    by (simp add: phttp_request_size_def length_region_prepare [OF assms(1)] of_nat_unat)
  have fit: "unat (sizeof_request rl) \<le> unat (ucast len :: ULONG)"
    "unat (sizeof_request rl) \<le> unat len" "length d < unat len"
    using assms(5-7) xs by (simp_all add: unat_ucast_small awaiting_def)
  have "readable B (prepare B ?b len) = d"
    using assms(1,5) xs by (simp add: readable_prepare readable_store awaiting_def)
  moreover have "length (region B (prepare B ?b len)) = unat len"
    by (rule length_region_prepare [OF assms(1)])
  ultimately show "awaiting B (unat len) d (exec (receive_resume os B rl (ERROR_MORE_DATA, len, xs)) s)"
    and "received (exec (receive_resume os B rl (ERROR_MORE_DATA, len, xs)) s) =
      received s @ [(i, ucast len)]"
    using assms(5) fit xs
    by (simp_all add: awaiting_def receive_resume_def receive_step_def recieve_def receive_simps Let_def
        failed_def size i request_violations [OF assms(4)] readable_store [OF assms(1)])
qed

lemma receive_rounds:
  assumes "dynbuf_ok B" "prepare_keeps B" "layout_ok rl" "fits_structure os rl"
    and "awaiting B n d s" and "valid_growth rl i n cs" and "length d < n"
  shows "let s' = drive (receive_resume os B rl) (\<lambda>s. completed s \<noteq> []) (grow_events cs) s
    in awaiting B (grown n cs) d s' \<and> received s' = received s @ map (\<lambda>(l, xs). (i, ucast l)) cs"
  using assms(5-7)
proof (induction cs arbitrary: n s)
  case (Cons c cs)
  obtain len xs where c: "c = (len, xs)" by (cases c)
  note r = receive_round [OF assms(1-4) Cons.prems(1) Cons.prems(2) [unfolded c] Cons.prems(3)]
  have "valid_growth rl i (unat len) cs" "length d < unat len"
    using Cons.prems(2,3) by (simp_all add: c)
  from Cons.IH [OF r(1) this] Cons.prems(1) show ?case
    by (simp add: c Let_def r(2) awaiting_def)
qed (simp add: awaiting_def)

lemma async_receive_awaits:
  assumes "dynbuf_ok B" "layout_ok rl" "fits_structure os rl" and "completed s = []" "violations s = []"
  shows "awaiting B (unat (sizeof_request rl) + 1024) (readable B (hr_buff s))
      (exec (async_receive os B rl complete) s)"
    and "received (exec (async_receive os B rl complete) s) = received s @ [(0, ucast (sizeof_request rl + 1024))]"
proof -
  let ?n = "sizeof_request rl + 1024" and ?b = "prepare B (hr_buff s) (sizeof_request rl + 1024)"
  have n: "unat ?n = unat (sizeof_request rl) + 1024" "unat ?n < 2 ^ 32"
    using assms(2) by (simp_all add: layout_ok_def unat_word_ariths)
  have len: "length (region B ?b) = unat ?n" by (rule length_region_prepare [OF assms(1)])
  let ?m = "write_null_id rl (region B ?b)"
  have m: "length ?m = length (region B ?b)" "RequestId (parse_request rl ?m) = 0"
    using assms(2) len n(1) by (simp_all add: layout_ok_def)
  have st: "region B (store B ?b ?m) = ?m"
    using region_store [OF assms(1), of ?m ?b] m(1) by simp
  have size: "phttp_request_size (region B ?b) = ucast ?n"
    by (simp add: phttp_request_size_def len of_nat_unat)
  have "unat (sizeof_request rl) \<le> unat (ucast ?n :: ULONG)"
    using n by (simp add: unat_ucast_small)
  then show "awaiting B (unat (sizeof_request rl) + 1024) (readable B (hr_buff s))
      (exec (async_receive os B rl complete) s)"
    and "received (exec (async_receive os B rl complete) s) = received s @ [(0, ucast ?n)]"
    using assms(4,5) m len n(1) st size
    by (simp_all add: awaiting_def async_receive_def receive_step_def recieve_def receive_simps Let_def
        request_violations [OF assms(3)] readable_store [OF assms(1)] readable_prepare [OF assms(1)])
qed

lemma receive_success:
  assumes "dynbuf_ok B" and "awaiting B n d s" and "length xs \<le> n" and "unat len = length xs"
  shows "completed (exec (receive_resume os B rl (0, len, xs)) s) = [(0, len)]" and "readable B (hr_buff (exec (receive_resume os B rl (0, len, xs)) s)) = d @ xs"
    and "received (exec (receive_resume os B rl (0, len, xs)) s) = received s" and "violations (exec (receive_resume os B rl (0, len, xs)) s) = []"
  using assms(2-4) readable_commit_store [OF assms(1), of xs "hr_buff s" len]
  by (simp_all add: awaiting_def receive_resume_def receive_step_def receive_simps)

text \<open>
  C10: the head of a request is received however large it is.  The first receive asks for any
  request with the structure's size plus 1024 bytes; each time http.sys reports a larger size
  the operation asks for the \<^emph>\<open>same\<close> request with exactly that size; when it fits, the operation
  completes once, successfully, and the buffer holds the request.  No assertion fails.
\<close>

theorem receive_grows_until_fit:
  assumes "dynbuf_ok B" "prepare_keeps B" "layout_ok rl" "fits_structure os rl"
    and "completed s = []" "violations s = []" "length (readable B (hr_buff s)) \<le> 1024"
    and "valid_growth rl i (unat (sizeof_request rl) + 1024) cs" "0 < unat (sizeof_request rl)"
    and "unat len = length xs" "length xs \<le> grown (unat (sizeof_request rl) + 1024) cs"
  shows "let s' = drive (receive_resume os B rl) (\<lambda>s. completed s \<noteq> [])
        (grow_events cs @ (0, len, xs) # later) (exec (async_receive os B rl (http_handler os)) s)
    in completed s' = [(0, len)] \<and> readable B (hr_buff s') = readable B (hr_buff s) @ xs \<and>
       received s' = received s @ (0, ucast (sizeof_request rl + 1024)) # map (\<lambda>(l, _). (i, ucast l)) cs \<and>
       violations s' = []"
proof -
  let ?d = "readable B (hr_buff s)" and ?s0 = "exec (async_receive os B rl (http_handler os)) s"
  let ?s1 = "drive (receive_resume os B rl) (\<lambda>s. completed s \<noteq> []) (grow_events cs) ?s0"
  note s0 = async_receive_awaits [OF assms(1,3,4,5,6), of "http_handler os"]
  have s1: "awaiting B (grown (unat (sizeof_request rl) + 1024) cs) ?d ?s1"
    "received ?s1 = received ?s0 @ map (\<lambda>(l, xs). (i, ucast l)) cs"
    using receive_rounds [OF assms(1-4) s0(1) assms(8)] assms(7,9) by (simp_all add: Let_def)
  note f = receive_success [OF assms(1) s1(1) assms(11) assms(10), of os rl]
  have "completed ?s1 = []" using s1(1) by (simp add: awaiting_def)
  then show ?thesis
    using f s1(2) s0(2) by (simp add: drive_append drive_finished Let_def)
qed

text \<open>A small layout: the identifier is the first byte of a structure of two bytes.\<close>

definition sample_layout :: request_layout where
  "sample_layout = \<lparr>sizeof_request = 2,
     parse_request = (\<lambda>m. \<lparr>RequestId = (case m of [] \<Rightarrow> 0 | c # _ \<Rightarrow> of_char c), Verb = 4,
       pFullUrl = [], FullUrlLength = 0, pQueryString = None, KnownHeaders = [],
       UnknownHeaderCount = 0, pUnknownHeaders = []\<rparr>),
     write_null_id = (\<lambda>m. case m of [] \<Rightarrow> [] | _ # m' \<Rightarrow> CHR 0x00 # m')\<rparr>"

fun accepting_http_os :: http_os where
  "accepting_http_os t (HttpReceiveHttpRequest _ _ _ _) = answer 997"
| "accepting_http_os t (HttpReceiveRequestEntityBody _ _ _ _) = answer 997"
| "accepting_http_os t (HttpSendHttpResponse _ _ _ _ _) = answer 997"
| "accepting_http_os t _ = answer 0"

lemma sample_layout_ok: "layout_ok sample_layout"
  by (auto simp: layout_ok_def sample_layout_def split: list.split)

lemma accepting_http_os_fits: "fits_structure accepting_http_os rl"
  by (simp add: fits_structure_def dword_def)

definition sample_receive :: "(vector_buffer, unit) receive_op_scheme" where
  "sample_receive = \<lparr>trace = [], violations = [], queue_handle = 3, hr_state = HR_idle,
     hr_buff = Vector_buffer [] []\<rparr>"

theorem receive_grows_until_fit_witness:
  "let s' = drive (receive_resume accepting_http_os vector_ops sample_layout) (\<lambda>s. completed s \<noteq> [])
        (grow_events [(3000, ''Q*'')] @ [(0, 4, ''Qabc'')])
        (exec (async_receive accepting_http_os vector_ops sample_layout (http_handler accepting_http_os))
          sample_receive)
   in completed s' = [(0, 4)] \<and> received s' = [(0, 1026), (81, 3000)] \<and> violations s' = []"
  using receive_grows_until_fit [where rl = sample_layout and os = accepting_http_os and i = 81
      and cs = "[(3000, ''Q*'')]" and len = 4 and xs = "''Qabc''" and later = "[]" and s = sample_receive,
      OF vector_ops_ok vector_ops_keeps sample_layout_ok accepting_http_os_fits]
  by (simp add: sample_receive_def sample_layout_def vector_ops_def Let_def)

text \<open>
  The growth depends on the reported size: when http.sys returns \<open>ERROR_MORE_DATA\<close> from the
  call itself, the queue handle completes with length 0, the assertion of the operation fails
  and the request is asked for again with a buffer of no bytes.
\<close>

theorem synchronous_more_data_asserts:
  assumes "hr_state s = HR_recieving" and "dynbuf_ok B" and "0 < unat (sizeof_request rl)"
    and "dword (os (trace s) (HttpReceiveHttpRequest (queue_handle s) i f n)) = ERROR_MORE_DATA"
  shows "let s1 = exec (async_recieve_request os i f n) s;
        s2 = exec (receive_step os B rl complete ERROR_MORE_DATA 0) s1
    in observe settled_as (trace s1) = observe settled_as (trace s) @ [Completed ERROR_MORE_DATA 0] \<and>
       ''len should increase'' \<in> set (violations s2) \<and>
       ''invalid HTTP_REQUEST access'' \<in> set (violations s2) \<and>
       (\<exists>i'. received s2 = received s1 @ [(i', 0)])"
proof -
  have "length (region B (prepare B b 0)) = 0" for b
    using length_region_prepare [OF assms(2), of b 0] by simp
  then show ?thesis
    using assms(1,3,4)
    by (auto simp: Let_def receive_step_def recieve_def receive_simps receive_io.settled_once settle_def
        failed_def phttp_request_size_def intro: request_violations_mono)
qed

definition more_data_os :: http_os where
  "more_data_os t c = answer 234"

theorem synchronous_more_data_asserts_witness:
  "''len should increase'' \<in> set (violations
     (exec (receive_step more_data_os vector_ops sample_layout (http_handler more_data_os) ERROR_MORE_DATA 0)
       (exec (async_recieve_request more_data_os 0 0 1026) (sample_receive\<lparr>hr_state := HR_recieving\<rparr>))))"
  using synchronous_more_data_asserts [where s = "sample_receive\<lparr>hr_state := HR_recieving\<rparr>" and
      rl = sample_layout and os = more_data_os and i = 0 and f = 0 and n = 1026 and
      complete = "http_handler more_data_os", OF _ vector_ops_ok]
  by (simp add: sample_layout_def more_data_os_def dword_def Let_def)

section \<open>Receiving the body\<close>

text \<open>
  After a chunk the operation asks for the hint again, or for one byte when the chunk was
  shorter than the hint.  \<open>asked k n cs\<close> are the sizes asked for, starting with \<open>n\<close>; chunks are
  valid when each fits the size asked for.
\<close>

definition next_size :: "size_t \<Rightarrow> string \<Rightarrow> size_t" where
  "next_size k xs = (if length xs < unat k then 1 else k)"

fun asked :: "size_t \<Rightarrow> size_t \<Rightarrow> string list \<Rightarrow> size_t list" where
  "asked k n [] = [n]"
| "asked k n (xs # cs) = n # asked k (next_size k xs) cs"

fun valid_chunks :: "size_t \<Rightarrow> size_t \<Rightarrow> string list \<Rightarrow> bool" where
  "valid_chunks k n [] = True"
| "valid_chunks k n (xs # cs) = (length xs \<le> unat n \<and> valid_chunks k (next_size k xs) cs)"

definition chunk_event :: "string \<Rightarrow> http_event" where
  "chunk_event xs = (0, word_of_nat (length xs), xs)"

definition reading :: "'b dynbuf_ops \<Rightarrow> HTTP_REQUEST_ID \<Rightarrow> size_t \<Rightarrow> size_t \<Rightarrow> string \<Rightarrow>
    ('b, 'z) receive_body_op_scheme \<Rightarrow> bool" where
  "reading B i k n d s \<longleftrightarrow> hb_state s = HB_recieving \<and> completed s = [] \<and> hb_id s = i \<and>
     hb_body_size_hint s = k \<and> length (region B (hb_buff s)) = unat n \<and> readable B (hb_buff s) = d"

lemma recieve_body_reading:
  assumes "dynbuf_ok B" and "hb_state s = HB_recieving" and "completed s = []"
  shows "reading B (hb_id s) (hb_body_size_hint s) n (readable B (hb_buff s))
      (exec (recieve_body os B n) s)"
    and "received (exec (recieve_body os B n) s) = received s @ [(hb_id s, ucast n)]"
  using assms(2,3)
  by (simp_all add: reading_def recieve_body_def receive_simps length_region_prepare [OF assms(1)]
      readable_prepare [OF assms(1)] of_nat_unat)

lemma unat_chunk_length:
  "length xs \<le> unat (n :: size_t) \<Longrightarrow> unat (word_of_nat (length xs) :: size_t) = length xs"
  by (rule le_unat_uoi)

lemma receive_body_round:
  assumes "dynbuf_ok B" and "reading B i k n d s" and "length xs \<le> unat n"
  shows "reading B i k (next_size k xs) (d @ xs) (exec (receive_body_resume os B (chunk_event xs)) s)"
    and "received (exec (receive_body_resume os B (chunk_event xs)) s) =
      received s @ [(i, ucast (next_size k xs))]"
proof -
  let ?len = "word_of_nat (length xs) :: size_t"
  let ?s = "s\<lparr>hb_buff := commit B (store B (hb_buff s) xs) ?len\<rparr>"
  note len = unat_chunk_length [OF assms(3)]
  have d: "readable B (hb_buff ?s) = d @ xs"
    using assms(2,3) readable_commit_store [OF assms(1) _ len] by (simp add: reading_def)
  have n: "next_size k xs = (if ?len < k then 1 else k)"
    by (simp add: next_size_def word_less_nat_alt len)
  have "exec (receive_body_resume os B (chunk_event xs)) s = exec (recieve_body os B (next_size k xs)) ?s"
    using assms(2)
    by (simp add: receive_body_resume_def chunk_event_def receive_body_step_def reading_def exec_simps n)
  with recieve_body_reading [where s = ?s and os = os and n = "next_size k xs", OF assms(1)] assms(2) d
  show "reading B i k (next_size k xs) (d @ xs) (exec (receive_body_resume os B (chunk_event xs)) s)"
    and "received (exec (receive_body_resume os B (chunk_event xs)) s) =
      received s @ [(i, ucast (next_size k xs))]"
    by (simp_all add: reading_def)
qed

lemma receive_body_rounds:
  assumes "dynbuf_ok B" and "reading B i k n d s" and "valid_chunks k n cs"
  shows "let s' = drive (receive_body_resume os B) (\<lambda>s. completed s \<noteq> []) (map chunk_event cs) s
    in reading B i k (last (asked k n cs)) (d @ concat cs) s' \<and>
       received s' = received s @ map (\<lambda>n. (i, ucast n)) (tl (asked k n cs))"
  using assms(2,3)
proof (induction cs arbitrary: n d s)
  case (Cons xs cs)
  have xs: "length xs \<le> unat n" "valid_chunks k (next_size k xs) cs"
    using Cons.prems(2) by simp_all
  note r = receive_body_round [OF assms(1) Cons.prems(1) xs(1), of os]
  obtain t where t: "asked k (next_size k xs) cs = next_size k xs # t" by (cases cs) simp_all
  have "completed s = []" using Cons.prems(1) by (simp add: reading_def)
  with Cons.IH [OF r(1) xs(2)] show ?case by (simp add: Let_def r(2) t)
qed (simp add: reading_def)

lemma async_receive_body_reads:
  assumes "dynbuf_ok B" and "completed s = []"
  shows "reading B i k k (readable B (hb_buff s)) (exec (async_receive_body os B i complete k) s)"
    and "received (exec (async_receive_body os B i complete k) s) = received s @ [(i, ucast k)]"
proof -
  let ?s = "s\<lparr>hb_id := i, hb_body_size_hint := k, hb_state := HB_recieving\<rparr>"
  have "exec (async_receive_body os B i complete k) s = exec (recieve_body os B k) ?s"
    by (simp add: async_receive_body_def receive_body_step_def exec_simps)
  with recieve_body_reading [where s = ?s and os = os and n = k, OF assms(1)] assms(2)
  show "reading B i k k (readable B (hb_buff s)) (exec (async_receive_body os B i complete k) s)"
    and "received (exec (async_receive_body os B i complete k) s) = received s @ [(i, ucast k)]"
    by simp_all
qed

text \<open>
  C11: the body is received completely: whatever the chunks, the operation asks for the hint,
  after a short chunk for one byte only, always for the same request; when the end of the body
  is reported, with or without last bytes, it completes once and successfully, and the buffer
  holds all chunks in order.
\<close>

theorem receive_body_complete:
  assumes "dynbuf_ok B" and "completed s = []" and "valid_chunks k k cs"
    and "length xs \<le> unat (last (asked k k cs))"
  shows "let s' = drive (receive_body_resume os B) (\<lambda>s. completed s \<noteq> [])
        (map chunk_event cs @ (ERROR_HANDLE_EOF, word_of_nat (length xs), xs) # later)
        (exec (async_receive_body os B i (http_handler os) k) s)
    in completed s' = [(0, word_of_nat (length xs))] \<and>
       readable B (hb_buff s') = readable B (hb_buff s) @ concat cs @ xs \<and>
       received s' = received s @ map (\<lambda>n. (i, ucast n)) (asked k k cs)"
proof -
  let ?s0 = "exec (async_receive_body os B i (http_handler os) k) s"
  let ?s1 = "drive (receive_body_resume os B) (\<lambda>s. completed s \<noteq> []) (map chunk_event cs) ?s0"
  note s0 = async_receive_body_reads [where i = i and k = k and os = os and complete = "http_handler os",
      OF assms(1,2)]
  note r = receive_body_rounds [OF assms(1) s0(1) assms(3), of os, unfolded Let_def]
  have a: "asked k k cs = k # tl (asked k k cs)" by (cases cs) simp_all
  have "readable B (commit B (store B (hb_buff ?s1) xs) (word_of_nat (length xs))) =
      readable B (hb_buff s) @ concat cs @ xs"
    using r assms(4) readable_commit_store [OF assms(1) _ unat_chunk_length [OF assms(4)]]
    by (simp add: reading_def)
  moreover have "received s @ map (\<lambda>n. (i, ucast n)) (asked k k cs) = received ?s1"
    using r s0(2) by (subst a) simp
  moreover have "completed ?s1 = []" "hb_state ?s1 = HB_recieving" using r by (simp_all add: reading_def)
  ultimately show ?thesis
    by (simp add: Let_def drive_append drive_finished receive_body_resume_def
        receive_body_step_def receive_simps failed_def)
qed

definition sample_receive_body :: "(vector_buffer, unit) receive_body_op_scheme" where
  "sample_receive_body = \<lparr>trace = [], violations = [], queue_handle = 3, hb_id = 0,
     hb_buff = Vector_buffer [] [], hb_state = HB_idle, hb_body_size_hint = 0\<rparr>"

theorem receive_body_complete_witness:
  "let s' = drive (receive_body_resume accepting_http_os vector_ops) (\<lambda>s. completed s \<noteq> [])
        (map chunk_event [''abcd'', ''ef''] @ [(ERROR_HANDLE_EOF, 0, [])])
        (exec (async_receive_body accepting_http_os vector_ops 9 (http_handler accepting_http_os) 4)
          sample_receive_body)
   in completed s' = [(0, 0)] \<and> readable vector_ops (hb_buff s') = ''abcdef'' \<and>
      received s' = [(9, 4), (9, 4), (9, 1)]"
  using receive_body_complete [where cs = "[''abcd'', ''ef'']" and xs = "[]" and k = 4 and i = 9
      and s = sample_receive_body and os = accepting_http_os and later = "[]", OF vector_ops_ok]
  by (simp add: sample_receive_body_def vector_ops_def Let_def next_size_def del: drive.simps)

text \<open>
  Both receive operations are linear: whatever completes and whatever the queue answers,
  each calls its handler at most once and until then has exactly one receive outstanding per
  completion; the first genuine error ends it with that error.
\<close>

theorem receive_operations_linear:
  assumes "completed s = []" and "completed s2 = []"
  shows "(let s' = drive (receive_resume os B rl) (\<lambda>s. completed s \<noteq> []) es
            (exec (async_receive os B rl (http_handler os)) s)
     in completed s' = [] \<and> length (received s') = Suc (length (received s) + length es) \<or>
        (\<exists>r. completed s' = [r])) \<and>
    (let s' = drive (receive_body_resume os C) (\<lambda>s. completed s \<noteq> []) fs
            (exec (async_receive_body os C i (http_handler os) k) s2)
     in completed s' = [] \<and> length (received s') = Suc (length (received s2) + length fs) \<or>
        (\<exists>r. completed s' = [r]))"
proof -
  let ?s0 = "exec (async_receive os B rl (http_handler os)) s"
  let ?t0 = "exec (async_receive_body os C i (http_handler os) k) s2"
  have "hr_state ?s0 = HR_recieving" "completed ?s0 = []" "length (received ?s0) = Suc (length (received s))"
    using assms(1) by (simp_all add: async_receive_def receive_step_def recieve_def receive_simps Let_def)
  moreover have "hb_state ?t0 = HB_recieving" "completed ?t0 = []"
    "length (received ?t0) = Suc (length (received s2))"
    using assms(2)
    by (simp_all add: async_receive_body_def receive_body_step_def recieve_body_def receive_simps Let_def)
  ultimately show ?thesis
    using receive_head.run_linear [where s = ?s0 and es = es and os = os and B = B and rl = rl]
      receive_body.run_linear [where s = ?t0 and es = fs and os = os and B = C]
    by (auto simp: Let_def)
qed

theorem receive_operations_linear_witness:
  "let s' = drive (receive_resume more_data_os vector_ops sample_layout) (\<lambda>s. completed s \<noteq> [])
        [(ERROR_MORE_DATA, 0, [])]
        (exec (async_receive more_data_os vector_ops sample_layout (http_handler more_data_os)) sample_receive)
   in completed s' = [] \<and> length (received s') = 2 \<or> (\<exists>r. completed s' = [r])"
  using receive_operations_linear [where s = sample_receive and ?s2.0 = sample_receive_body and
      os = more_data_os and B = vector_ops and rl = sample_layout and es = "[(ERROR_MORE_DATA, 0, [])]"]
  by (simp add: sample_receive_def sample_receive_body_def numeral_2_eq_2 del: drive.simps)

end
