(* ===== verification/Http_Context.thy ===== *)
theory Http_Context
  imports Http_Receive
begin

text \<open>
  The servers of \<^verbatim>\<open>http/basic_http_controller.hpp\<close> and \<^verbatim>\<open>http/temp.hpp\<close> handle several requests at a
  time.  Each has a context of its own (\<^verbatim>\<open>http/basic_http_request_context.hpp\<close>, the members of
  \<open>http_connection\<close>) on which \<open>async_receive\<close> and then \<open>async_receive_body\<close> run; the contexts live
  side by side in the state and share the queue.
\<close>

section \<open>Contexts\<close>

text \<open>
  A context: the request, the response, the fields of the receive operation that runs on it,
  and which operation that is.
\<close>

datatype context_phase = Receiving_head | Receiving_body | Finished

record request_context =
  cx_request :: simple_request
  cx_response :: simple_response
  cx_phase :: context_phase
  cx_head :: receive_state
  cx_id :: HTTP_REQUEST_ID
  cx_body :: receive_body_state
  cx_hint :: size_t

definition request_context_new :: "USHORT \<Rightarrow> request_context" where
  "request_context_new garbage = \<lparr>cx_request = simple_request_new,
     cx_response = simple_response_new garbage, cx_phase = Receiving_head, cx_head = HR_idle,
     cx_id = 0, cx_body = HB_idle, cx_hint = 0\<rparr>"

record http_contexts = http_queue +
  contexts :: "request_context list"

subsection \<open>Running an operation on a context\<close>

text \<open>
  The operations of \<open>Http_Receive\<close> run on the queue and the context's buffer; \<open>note_completion\<close>
  is \<open>self.complete\<close>, so the result tells whether the operation completed.
\<close>

record completion_slot_head = "vector_buffer receive_op" +
  hr_completed :: "(error_code \<times> size_t) option"

record completion_slot_body = "vector_buffer receive_body_op" +
  hb_completed :: "(error_code \<times> size_t) option"

definition note_head :: "error_code \<Rightarrow> size_t \<Rightarrow> (completion_slot_head, unit) state" where
  "note_head ec len = modify (\<lambda>s. s\<lparr>hr_completed := Some (ec, len)\<rparr>)"

definition note_body :: "error_code \<Rightarrow> size_t \<Rightarrow> (completion_slot_body, unit) state" where
  "note_body ec len = modify (\<lambda>s. s\<lparr>hb_completed := Some (ec, len)\<rparr>)"

definition on_head :: "nat \<Rightarrow> (completion_slot_head, unit) state \<Rightarrow>
    ('z http_contexts_scheme, (error_code \<times> size_t) option) state" where
  "on_head j m = State (\<lambda>s.
     let cx = contexts s ! j;
         o' = exec m \<lparr>trace = trace s, violations = violations s, queue_handle = queue_handle s,
           hr_state = cx_head cx, hr_buff = dynamic_request_buff (cx_request cx), hr_completed = None\<rparr>;
         cx' = cx\<lparr>cx_head := hr_state o',
           cx_request := (cx_request cx)\<lparr>dynamic_request_buff := hr_buff o'\<rparr>\<rparr>
     in (hr_completed o', s\<lparr>trace := trace o', violations := violations o',
           contexts := (contexts s)[j := cx']\<rparr>))"

definition on_body :: "nat \<Rightarrow> (completion_slot_body, unit) state \<Rightarrow>
    ('z http_contexts_scheme, (error_code \<times> size_t) option) state" where
  "on_body j m = State (\<lambda>s.
     let cx = contexts s ! j;
         o' = exec m \<lparr>trace = trace s, violations = violations s, queue_handle = queue_handle s,
           hb_id = cx_id cx, hb_buff = dynamic_body_buff (cx_request cx), hb_state = cx_body cx,
           hb_body_size_hint = cx_hint cx, hb_completed = None\<rparr>;
         cx' = cx\<lparr>cx_id := hb_id o', cx_body := hb_state o', cx_hint := hb_body_size_hint o',
           cx_request := (cx_request cx)\<lparr>dynamic_body_buff := hb_buff o'\<rparr>\<rparr>
     in (hb_completed o', s\<lparr>trace := trace o', violations := violations o',
           contexts := (contexts s)[j := cx']\<rparr>))"

definition set_context :: "nat \<Rightarrow> (request_context \<Rightarrow> request_context) \<Rightarrow> ('z http_contexts_scheme, unit) state" where
  "set_context j f = modify (\<lambda>s. s\<lparr>contexts := (contexts s)[j := f (contexts s ! j)]\<rparr>)"

section \<open>What leaves the phases and the responses alone\<close>

fun sent_response :: "http_call \<Rightarrow> (http_response \<times> HTTP_REQUEST_ID \<times> ULONG) option" where
  "sent_response (HttpSendHttpResponse _ h i f True) = Some (h, i, f)"
| "sent_response _ = None"

abbreviation "sent s \<equiv> observe sent_response (trace s)"

abbreviation "phases s \<equiv> map cx_phase (contexts s)"

lemma phases_on [simp]:
  "phases (exec (on_head j m) s) = phases s" "phases (exec (on_body j m') s) = phases s"
  by (simp_all add: on_head_def on_body_def exec_def Let_def map_update)
    (metis list_update_beyond list_update_id nth_map not_le length_map)+

lemma phases_set_context:
  "phases (exec (set_context j (\<lambda>cx. cx\<lparr>cx_phase := p\<rparr>)) s) = (phases s)[j := p]"
  "trace (exec (set_context j f) s) = trace s"
  by (simp_all add: set_context_def map_update)

lemma phases_set_response [simp]:
  "phases (exec (set_context j (\<lambda>cx. cx\<lparr>cx_response := r\<rparr>)) s) = phases s"
  by (simp add: set_context_def map_update)
    (metis list_update_beyond list_update_id nth_map not_le length_map)

lemma sent_on:
  "adds sent_response [] m \<Longrightarrow> sent (exec (on_head j m) s) = sent s"
  "adds sent_response [] m' \<Longrightarrow> sent (exec (on_body j m') s) = sent s"
  by (simp_all add: on_head_def on_body_def exec_def Let_def)
    (simp_all add: adds_def exec_def)

lemma receive_io_sent [adds_intros]:
  "adds sent_response [] (async_recieve_request os i f n)" "adds sent_response [] (async_recieve_body os i f n)"
  by (simp_all add: adds_def receive_io.no_completion body_io.no_completion)

lemma receive_ops_sent [adds_intros]:
  "adds sent_response [] (receive_step os B rl note_head ec len)"
  "adds sent_response [] (receive_body_step os B note_body ec len)"
  "adds sent_response [] (async_receive os B rl note_head)"
  "adds sent_response [] (async_receive_body os B i note_body k)"
  unfolding receive_step_def recieve_def receive_body_step_def recieve_body_def note_head_def
    note_body_def async_receive_def async_receive_body_def Let_def
  by (auto intro!: adds_intros split: receive_state.split receive_body_state.split)

lemma count_list_update:
  "j < length xs \<Longrightarrow> count_list (xs[j := y]) p + (if xs ! j = p then 1 else 0) =
     count_list xs p + (if y = p then 1 else 0)"
proof (induction xs arbitrary: j)
  case (Cons x xs)
  show ?case
  proof (cases j)
    case (Suc k)
    then show ?thesis using Cons.IH [of k] Cons.prems by (auto split: if_splits)
  qed simp
qed simp

lemma more_contexts: "http_queue.more s' = http_queue.more s \<Longrightarrow> contexts s' = contexts s"
  by (cases s; cases s'; simp)

lemma send_response_sent: "sent (exec (async_send_response os h i f) s) = sent s @ [(h, i, f)]"
  by (simp add: send_io.observe_op [OF refl] settle_def)

text \<open>Resuming the operation of a context: the code that runs on it, and what it leaves alone.\<close>

definition head_code :: "http_os \<Rightarrow> request_layout \<Rightarrow> error_code \<Rightarrow> size_t \<Rightarrow> string \<Rightarrow> (completion_slot_head, unit) state" where
  "head_code os rl ec len xs = do {
     modify (\<lambda>s. s\<lparr>hr_buff := store vector_ops (hr_buff s) xs\<rparr>);
     receive_step os vector_ops rl note_head ec len }"

definition body_code :: "http_os \<Rightarrow> error_code \<Rightarrow> size_t \<Rightarrow> string \<Rightarrow> (completion_slot_body, unit) state" where
  "body_code os ec len xs = do {
     modify (\<lambda>s. s\<lparr>hb_buff := store vector_ops (hb_buff s) xs\<rparr>);
     receive_body_step os vector_ops note_body ec len }"

lemma code_sent [adds_intros]:
  "adds sent_response [] (head_code os rl ec len xs)" "adds sent_response [] (body_code os ec len xs)"
  unfolding head_code_def body_code_def by (auto intro!: adds_intros)

lemma head_code_error:
  assumes "cx_head (contexts s ! j) = HR_recieving" and "failed ec" "ec \<noteq> ERROR_HANDLE_EOF" "ec \<noteq> ERROR_MORE_DATA"
  shows "result (on_head j (head_code os rl ec len xs)) s = Some (ec, len)"
  using assms
  by (simp add: on_head_def result_def Let_def head_code_def exec_simps receive_step_def note_head_def)

end
