(* ===== verification/Http_Controller.thy ===== *)
theory Http_Controller
  imports Http_Context
begin

text \<open>
  \<^verbatim>\<open>http/basic_http_controller.hpp\<close>: registration of handlers per URL and verb, the loop that
  receives requests, and dispatch.  The contexts of the requests are those of \<open>Http_Context\<close>; a
  completion is addressed to one of them.
\<close>

section \<open>Registration\<close>

type_synonym request_handler = "(simple_request \<Rightarrow> simple_response \<Rightarrow> simple_response) option"

text \<open>What the code throws.\<close>

datatype controller_error =
    Invalid_base_url
  | Invalid_url_part
  | Verb_out_of_range

abbreviation (input) HttpVerbGET :: nat where "HttpVerbGET \<equiv> 4"
abbreviation (input) HttpVerbPOST :: nat where "HttpVerbPOST \<equiv> 6"
abbreviation (input) HttpVerbPUT :: nat where "HttpVerbPUT \<equiv> 7"
abbreviation (input) HttpVerbDELETE :: nat where "HttpVerbDELETE \<equiv> 8"
abbreviation (input) HttpVerbMaximum :: nat where "HttpVerbMaximum \<equiv> 20"

abbreviation (input) slash :: "16 word" where "slash \<equiv> 47"

definition format_url_base :: "wstring \<Rightarrow> controller_error + wstring" where
  "format_url_base base_url =
     (if length base_url < 7 then Inl Invalid_base_url
      else if base_url ! (length base_url - 1) = slash then Inr (butlast base_url)
      else Inr base_url)"

definition validate_url_part :: "wstring \<Rightarrow> controller_error + unit" where
  "validate_url_part url_part =
     (if length url_part < 1 \<or> url_part ! 0 \<noteq> slash then Inl Invalid_url_part else Inr ())"

type_synonym handler_map = "(wstring, request_handler list) std_map_entries"

text \<open>\<open>handlers_[url][verb] = h\<close>: a new array holds empty functions.\<close>

definition register_handler :: "nat \<Rightarrow> wstring \<Rightarrow> request_handler \<Rightarrow> handler_map \<Rightarrow> handler_map" where
  "register_handler verb url h handlers =
     (let (arr, handlers') = map_subscript (replicate HttpVerbMaximum None) url handlers
      in map_assign url (arr[verb := h]) handlers')"

definition build_url :: "wstring \<Rightarrow> wstring \<Rightarrow> wstring" where
  "build_url base_url url_part = base_url @ url_part"

definition register_url_part :: "wstring \<Rightarrow> nat \<Rightarrow> wstring \<Rightarrow> request_handler \<Rightarrow> handler_map \<Rightarrow>
    controller_error + handler_map" where
  "register_url_part base verb url_part h handlers = (case validate_url_part url_part of
     Inl e \<Rightarrow> Inl e
   | Inr _ \<Rightarrow> Inr (register_handler verb (build_url base url_part) h handlers))"

definition controller_get :: "wstring \<Rightarrow> wstring \<Rightarrow> request_handler \<Rightarrow> handler_map \<Rightarrow> controller_error + handler_map" where
  "controller_get base = register_url_part base HttpVerbGET"

definition controller_post :: "wstring \<Rightarrow> wstring \<Rightarrow> request_handler \<Rightarrow> handler_map \<Rightarrow> controller_error + handler_map" where
  "controller_post base = register_url_part base HttpVerbPOST"

definition controller_put :: "wstring \<Rightarrow> wstring \<Rightarrow> request_handler \<Rightarrow> handler_map \<Rightarrow> controller_error + handler_map" where
  "controller_put base = register_url_part base HttpVerbPUT"

definition controller_del :: "wstring \<Rightarrow> wstring \<Rightarrow> request_handler \<Rightarrow> handler_map \<Rightarrow> controller_error + handler_map" where
  "controller_del base = register_url_part base HttpVerbDELETE"

section \<open>State\<close>

record controller = http_contexts +
  handlers :: handler_map
  base_url :: wstring
  uncaught :: "controller_error list"

text \<open>The constructor; a throw leaves no controller.\<close>

definition controller_new :: "HANDLE \<Rightarrow> wstring \<Rightarrow> controller_error + controller" where
  "controller_new queue url_base = (case format_url_base url_base of
     Inl e \<Rightarrow> Inl e
   | Inr base \<Rightarrow> Inr \<lparr>trace = [], violations = [], queue_handle = queue, contexts = [],
       handlers = [], base_url = base, uncaught = []\<rparr>)"

section \<open>Dispatch\<close>

text \<open>The URL without its query string.\<close>

definition request_url :: "http_request \<Rightarrow> wstring option" where
  "request_url prq = (let n = (case pQueryString prq of
       None \<Rightarrow> unat (FullUrlLength prq) div 2
     | Some q \<Rightarrow> q)
     in if n \<le> length (pFullUrl prq) then Some (take n (pFullUrl prq)) else None)"

text \<open>The response to a request: 404, or 200 as changed by the handler.\<close>

definition route :: "handler_map \<Rightarrow> wstring \<Rightarrow> nat \<Rightarrow> simple_request \<Rightarrow> simple_response \<Rightarrow>
    controller_error + simple_response" where
  "route hs url verb rq rs = (case map_lookup hs url of
     None \<Rightarrow> Inr (set_reason ''Not found'' (set_status_code 404 rs))
   | Some arr \<Rightarrow>
       if length arr \<le> verb then Inl Verb_out_of_range
       else (case arr ! verb of
         None \<Rightarrow> Inr (set_reason ''Not found'' (set_status_code 404 rs))
       | Some h \<Rightarrow> Inr (h rq (set_status_code 200 rs))))"

definition dispatch :: "http_os \<Rightarrow> request_layout \<Rightarrow> nat \<Rightarrow> (controller, unit) state" where
  "dispatch os rl j = do {
     s \<leftarrow> State_Monad.get;
     let cx = contexts s ! j;
     let prq = get_request rl (cx_request cx);
     (case request_url prq of
        None \<Rightarrow> boost_assert False ''invalid URL read''
      | Some url \<Rightarrow> (case route (handlers s) url (Verb prq) (cx_request cx) (cx_response cx) of
          Inl e \<Rightarrow> modify (\<lambda>s. s\<lparr>uncaught := uncaught s @ [e]\<rparr>)
        | Inr rs \<Rightarrow> (case get_response rs of
            None \<Rightarrow> boost_assert False ''invalid known header write''
          | Some (h, rs') \<Rightarrow> do {
              set_context j (\<lambda>cx. cx\<lparr>cx_response := rs'\<rparr>);
              async_send_response os h (get_request_id rl (cx_request cx))
                HTTP_SEND_RESPONSE_FLAG_DISCONNECT })))
   }"

section \<open>The receive loop\<close>

text \<open>\<open>garbage\<close> is the uninitialised status code of a new response, chosen by the context's number.\<close>

definition receive_next_request :: "http_os \<Rightarrow> request_layout \<Rightarrow> (nat \<Rightarrow> USHORT) \<Rightarrow> (controller, unit) state" where
  "receive_next_request os rl garbage = do {
     j \<leftarrow> gets (\<lambda>s. length (contexts s));
     modify (\<lambda>s. s\<lparr>contexts := contexts s @ [request_context_new (garbage j)]\<rparr>);
     _ \<leftarrow> on_head j (async_receive os vector_ops rl note_head);
     ret ()
   }"

definition start :: "http_os \<Rightarrow> request_layout \<Rightarrow> (nat \<Rightarrow> USHORT) \<Rightarrow> (controller, unit) state" where
  "start os rl garbage = receive_next_request os rl garbage"

text \<open>The two completion handlers; the default size hint of \<open>async_receive_body\<close> is 128.\<close>

definition on_received :: "http_os \<Rightarrow> request_layout \<Rightarrow> (nat \<Rightarrow> USHORT) \<Rightarrow> nat \<Rightarrow> error_code \<Rightarrow>
    (controller, unit) state" where
  "on_received os rl garbage j ec = do {
     receive_next_request os rl garbage;
     if failed ec then set_context j (\<lambda>cx. cx\<lparr>cx_phase := Finished\<rparr>)
     else do {
       set_context j (\<lambda>cx. cx\<lparr>cx_phase := Receiving_body\<rparr>);
       i \<leftarrow> gets (\<lambda>s. get_request_id rl (cx_request (contexts s ! j)));
       _ \<leftarrow> on_body j (async_receive_body os vector_ops i note_body 128);
       ret () }
   }"

definition on_body_received :: "http_os \<Rightarrow> request_layout \<Rightarrow> nat \<Rightarrow> error_code \<Rightarrow> (controller, unit) state" where
  "on_body_received os rl j ec = do {
     set_context j (\<lambda>cx. cx\<lparr>cx_phase := Finished\<rparr>);
     only_if (\<not> failed ec) (dispatch os rl j)
   }"

text \<open>A completion for the operation that runs on context \<open>j\<close>.\<close>

definition controller_resume :: "http_os \<Rightarrow> request_layout \<Rightarrow> (nat \<Rightarrow> USHORT) \<Rightarrow> nat \<times> http_event \<Rightarrow>
    (controller, unit) state" where
  "controller_resume os rl garbage e = (case e of (j, ec, len, xs) \<Rightarrow> do {
     ph \<leftarrow> gets (\<lambda>s. cx_phase (contexts s ! j));
     (case ph of
        Receiving_head \<Rightarrow> do {
          c \<leftarrow> on_head j (head_code os rl ec len xs);
          (case c of None \<Rightarrow> ret () | Some (ec', _) \<Rightarrow> on_received os rl garbage j ec') }
      | Receiving_body \<Rightarrow> do {
          c \<leftarrow> on_body j (body_code os ec len xs);
          (case c of None \<Rightarrow> ret () | Some (ec', _) \<Rightarrow> on_body_received os rl j ec') }
      | Finished \<Rightarrow> ret ())
   })"

section \<open>Routing\<close>

definition handler_at :: "handler_map \<Rightarrow> wstring \<Rightarrow> nat \<Rightarrow> request_handler" where
  "handler_at hs url verb = (case map_lookup hs url of
     None \<Rightarrow> None
   | Some arr \<Rightarrow> if verb < length arr then arr ! verb else None)"

definition handlers_ok :: "handler_map \<Rightarrow> bool" where
  "handlers_ok hs \<longleftrightarrow> map_ok hs \<and>
     (\<forall>url arr. map_lookup hs url = Some arr \<longrightarrow> length arr = HttpVerbMaximum)"

lemma register_handler_lookup:
  "map_lookup (register_handler verb url h hs) url' =
     (if url' = url then Some ((case map_lookup hs url of
         None \<Rightarrow> replicate HttpVerbMaximum None | Some arr \<Rightarrow> arr)[verb := h])
      else map_lookup hs url')"
  by (auto simp: register_handler_def map_subscript_def map_lookup_assign split: option.split)

lemma handlers_ok_register: "handlers_ok hs \<Longrightarrow> handlers_ok (register_handler verb url h hs)"
  using map_ok_subscript [of hs "replicate HttpVerbMaximum None" url]
  by (auto simp: handlers_ok_def register_handler_lookup split: option.splits if_splits)
    (simp_all add: register_handler_def map_ok_assign split_beta)

lemma handler_at_register:
  assumes "handlers_ok hs" and "verb < HttpVerbMaximum"
  shows "handler_at (register_handler verb url h hs) url' verb' =
    (if url' = url \<and> verb' = verb then h else handler_at hs url' verb')"
  using assms
  by (auto simp: handler_at_def register_handler_lookup handlers_ok_def nth_list_update split: option.split)

text \<open>A sequence of registrations; the first invalid part throws.\<close>

fun register_all :: "wstring \<Rightarrow> (nat \<times> wstring \<times> request_handler) list \<Rightarrow> handler_map \<Rightarrow>
    controller_error + handler_map" where
  "register_all base [] hs = Inr hs"
| "register_all base ((verb, part, h) # rs) hs = (case register_url_part base verb part h hs of
     Inl e \<Rightarrow> Inl e
   | Inr hs' \<Rightarrow> register_all base rs hs')"

definition registration_key :: "wstring \<Rightarrow> nat \<times> wstring \<times> request_handler \<Rightarrow>
    (wstring \<times> nat) \<times> request_handler" where
  "registration_key base r = (case r of (verb, part, h) \<Rightarrow> ((base @ part, verb), h))"

fun valid_registration :: "nat \<times> wstring \<times> request_handler \<Rightarrow> bool" where
  "valid_registration (verb, part, h) \<longleftrightarrow> verb < HttpVerbMaximum \<and> part \<noteq> [] \<and> hd part = slash"

lemma no_handlers [simp]: "handlers_ok []" "handler_at [] url verb = None"
  by (simp_all add: handlers_ok_def handler_at_def)

lemma registration_key_simp [simp]:
  "registration_key base (verb, part, h) = ((base @ part, verb), h)"
  by (simp add: registration_key_def)

lemma register_all_result:
  assumes "\<And>r. r \<in> set rs \<Longrightarrow> valid_registration r"
    and "handlers_ok hs"
  shows "\<exists>hs'. register_all base rs hs = Inr hs' \<and> handlers_ok hs' \<and>
    (\<forall>url verb. handler_at hs' url verb =
      (case map_of (rev (map (registration_key base) rs)) (url, verb) of
         None \<Rightarrow> handler_at hs url verb | Some h \<Rightarrow> h))"
  using assms
proof (induction rs arbitrary: hs)
  case (Cons r rs)
  obtain verb part h where r: "r = (verb, part, h)" by (cases r)
  have v: "verb < HttpVerbMaximum" "validate_url_part part = Inr ()"
    using Cons.prems(1) [of r] by (auto simp: r validate_url_part_def hd_conv_nth)
  let ?hs = "register_handler verb (base @ part) h hs"
  from Cons.IH [OF _ handlers_ok_register [OF Cons.prems(2)], of verb "base @ part" h] Cons.prems(1)
  obtain hs' where "register_all base rs ?hs = Inr hs'" "handlers_ok hs'"
    "\<And>url verb. handler_at hs' url verb = (case map_of (rev (map (registration_key base) rs)) (url, verb) of
         None \<Rightarrow> handler_at ?hs url verb | Some h \<Rightarrow> h)"
    by auto
  with v show ?case
    by (auto simp: r register_url_part_def build_url_def map_add_def
        handler_at_register [OF Cons.prems(2) v(1)] split: option.split)
qed simp

text \<open>
  C13: requests are routed to what was registered: after any sequence of valid registrations,
  a request for an URL and verb gets status 200 and the handler registered \<^emph>\<open>last\<close> for exactly
  that URL and verb, and 404 ``Not found'' when there is none.
\<close>

theorem routed_as_registered:
  assumes "\<And>r. r \<in> set rs \<Longrightarrow> valid_registration r"
  shows "\<exists>hs. register_all base rs [] = Inr hs \<and>
    (\<forall>url verb rq r. verb < HttpVerbMaximum \<longrightarrow> route hs url verb rq r =
      Inr (case map_of (rev (map (registration_key base) rs)) (url, verb) of
         Some (Some h) \<Rightarrow> h rq (set_status_code 200 r)
       | _ \<Rightarrow> set_reason ''Not found'' (set_status_code 404 r)))"
proof -
  from register_all_result [where rs = rs and hs = "[]" and base = base, OF assms] obtain hs where
    hs: "register_all base rs [] = Inr hs" "handlers_ok hs"
    "\<And>url verb. handler_at hs url verb =
      (case map_of (rev (map (registration_key base) rs)) (url, verb) of None \<Rightarrow> None | Some h \<Rightarrow> h)"
    by (auto cong: option.case_cong)
  have "route hs url verb rq r = Inr (case handler_at hs url verb of
       Some h \<Rightarrow> h rq (set_status_code 200 r) | None \<Rightarrow> set_reason ''Not found'' (set_status_code 404 r))"
    if "verb < HttpVerbMaximum" for url verb rq r
    using that hs(2) by (auto simp: route_def handler_at_def handlers_ok_def split: option.split)
  then show ?thesis using hs(1) by (auto simp: hs(3) split: option.split)
qed

definition sample_registrations :: "(nat \<times> wstring \<times> request_handler) list" where
  "sample_registrations = [(HttpVerbGET, L ''/a'', Some (\<lambda>_. set_body ''first'')),
     (HttpVerbGET, L ''/a'', Some (\<lambda>_. set_body ''second''))]"

theorem routed_as_registered_witness:
  "\<exists>hs. register_all (L ''http://h'') sample_registrations [] = Inr hs \<and>
     (\<forall>rq r. route hs (L ''http://h/a'') HttpVerbGET rq r = Inr (set_body ''second'' (set_status_code 200 r)) \<and>
     route hs (L ''http://h/a'') HttpVerbPOST rq r = Inr (set_reason ''Not found'' (set_status_code 404 r)))"
  using routed_as_registered [of sample_registrations "L ''http://h''"]
  by (fastforce simp: sample_registrations_def registration_key_def L_def)

text \<open>
  The base URL is not what the comment in \<open>format_url_base\<close> promises: seven characters
  that are no URL are accepted, and a base that ends in two slashes, or is only the scheme,
  still ends in one after formatting.
\<close>

theorem base_url_not_checked:
  "format_url_base (L ''abcdefg'') = Inr (L ''abcdefg'') \<and>
   format_url_base (L ''http://h//'') = Inr (L ''http://h/'') \<and>
   format_url_base (L ''http://'') = Inr (L ''http:/'')"
  by (simp add: format_url_base_def L_def)

section \<open>The loop\<close>

lemma next_request_loop:
  "phases (exec (receive_next_request os rl g) s) = phases s @ [Receiving_head]"
  "sent (exec (receive_next_request os rl g) s) = sent s"
  by (simp_all add: receive_next_request_def exec_simps sent_on receive_ops_sent request_context_new_def)

lemma on_received_loop:
  assumes "j < length (contexts s)"
  shows "phases (exec (on_received os rl g j ec) s) =
      (phases s)[j := if failed ec then Finished else Receiving_body] @ [Receiving_head]"
    and "sent (exec (on_received os rl g j ec) s) = sent s"
  using assms
  by (simp_all add: on_received_def exec_simps next_request_loop phases_set_context sent_on
      receive_ops_sent list_update_append)

lemma more_controller:
  assumes "http_queue.more s' = http_queue.more s"
  shows "contexts s' = contexts s" and "handlers s' = handlers s" and "base_url s' = base_url s"
    and "uncaught s' = uncaught s"
  using assms by (cases s; cases s'; simp)+

lemmas send_io_state = send_io.op_state(2) [THEN more_controller(1)]
  send_io.op_state(2) [THEN more_controller(2)] send_io.op_state(2) [THEN more_controller(3)]
  send_io.op_state(2) [THEN more_controller(4)]

text \<open>What \<open>dispatch\<close> sends on context \<open>j\<close>.\<close>

definition reply_of :: "request_layout \<Rightarrow> handler_map \<Rightarrow> request_context \<Rightarrow>
    (http_response \<times> HTTP_REQUEST_ID \<times> ULONG) list" where
  "reply_of rl hs cx = (let prq = get_request rl (cx_request cx) in
     case request_url prq of None \<Rightarrow> []
     | Some url \<Rightarrow> (case route hs url (Verb prq) (cx_request cx) (cx_response cx) of
         Inl _ \<Rightarrow> []
       | Inr rs \<Rightarrow> (case get_response rs of None \<Rightarrow> []
         | Some (h, _) \<Rightarrow> [(h, RequestId prq, HTTP_SEND_RESPONSE_FLAG_DISCONNECT)])))"

lemma dispatch_loop:
  "phases (exec (dispatch os rl j) s) = phases s"
  "sent (exec (dispatch os rl j) s) = sent s @ reply_of rl (handlers s) (contexts s ! j)"
  by (simp_all add: dispatch_def reply_of_def exec_simps Let_def send_response_sent send_io_state get_request_id_def
      phases_set_context(2) split: option.split sum.split prod.split)

lemma reply_of_length: "length (reply_of rl hs cx) \<le> Suc 0"
  by (simp add: reply_of_def Let_def split: option.split sum.split prod.split)

text \<open>The states of a controller that was started, as completions for its contexts arrive.\<close>

inductive serving :: "http_os \<Rightarrow> request_layout \<Rightarrow> (nat \<Rightarrow> USHORT) \<Rightarrow> controller \<Rightarrow> controller \<Rightarrow> bool"
  for os rl g s0 where
  started: "serving os rl g s0 (exec (start os rl g) s0)"
| completed: "serving os rl g s0 s \<Longrightarrow> j < length (contexts s) \<Longrightarrow>
    serving os rl g s0 (exec (controller_resume os rl g (j, e)) s)"

definition loop_inv :: "controller \<Rightarrow> bool" where
  "loop_inv s \<longleftrightarrow> count_list (phases s) Receiving_head = 1 \<and>
     length (sent s) \<le> count_list (phases s) Finished"

lemma resume_head:
  assumes "j < length (contexts s)" and "cx_phase (contexts s ! j) = Receiving_head"
  shows "sent (exec (controller_resume os rl g (j, ec, len, xs)) s) = sent s \<and>
    (phases (exec (controller_resume os rl g (j, ec, len, xs)) s) = phases s \<or>
     (\<exists>p \<in> {Finished, Receiving_body}. phases (exec (controller_resume os rl g (j, ec, len, xs)) s) =
        (phases s)[j := p] @ [Receiving_head]))"
proof -
  let ?m = "head_code os rl ec len xs"
  note m = code_sent(1) [of os rl ec len xs]
  let ?s1 = "exec (on_head j ?m) s"
  have "length (contexts ?s1) = length (contexts s)"
    using arg_cong [OF phases_on(1) [of j ?m s], of length] by (simp only: length_map)
  with assms(1) have j: "j < length (contexts ?s1)" by simp
  note loop = on_received_loop [OF j, of os rl g, unfolded phases_on sent_on(1) [OF m]]
  show ?thesis
  proof (cases "result (on_head j ?m) s")
    case None
    then have "exec (controller_resume os rl g (j, ec, len, xs)) s = ?s1"
      using assms(2) by (simp add: controller_resume_def exec_simps)
    then show ?thesis by (simp only: phases_on sent_on(1) [OF m]) simp
  next
    case (Some c)
    then have "exec (controller_resume os rl g (j, ec, len, xs)) s = exec (on_received os rl g j (fst c)) ?s1"
      using assms(2) by (cases c) (simp add: controller_resume_def exec_simps)
    then show ?thesis by (simp only: loop) auto
  qed
qed

lemma resume_body:
  assumes "j < length (contexts s)" and "cx_phase (contexts s ! j) = Receiving_body"
  shows "sent (exec (controller_resume os rl g (j, ec, len, xs)) s) = sent s \<and> phases (exec (controller_resume os rl g (j, ec, len, xs)) s) = phases s \<or>
    phases (exec (controller_resume os rl g (j, ec, len, xs)) s) = (phases s)[j := Finished] \<and> length (sent (exec (controller_resume os rl g (j, ec, len, xs)) s)) \<le> Suc (length (sent s))"
proof -
  note m = code_sent(2) [of os ec len xs]
  show ?thesis
    using assms(2)
    by (simp add: controller_resume_def exec_simps sent_on(2) [OF m] on_body_received_def
        phases_set_context dispatch_loop reply_of_length split: option.split)
qed

lemma loop_inv_step:
  assumes "loop_inv s" and "j < length (contexts s)"
  shows "loop_inv (exec (controller_resume os rl g (j, e)) s)"
proof -
  obtain ec len xs where e: "e = (ec, len, xs)" by (cases e)
  have j: "j < length (phases s)" "phases s ! j = cx_phase (contexts s ! j)" using assms(2) by simp_all
  note upd = count_list_update [OF j(1)]
  show ?thesis
  proof (cases "cx_phase (contexts s ! j)")
    case Receiving_head
    from resume_head [OF assms(2) this, of os rl g ec len xs] show ?thesis
      using assms(1) upd [of _ Receiving_head] upd [of _ Finished] j(2) Receiving_head
      by (auto simp: e loop_inv_def)
  next
    case Receiving_body
    from resume_body [OF assms(2) this, of os rl g ec len xs] show ?thesis
      using assms(1) upd [of Finished Receiving_head] upd [of Finished Finished] j(2) Receiving_body
      by (auto simp: e loop_inv_def)
  next
    case Finished
    then show ?thesis using assms(1) by (simp add: e controller_resume_def exec_simps)
  qed
qed

text \<open>
  C14: a started controller always listens, and answers no request twice: after any
  completions, successes and errors in any order, exactly one context receives the head of
  the next request, and at most one response was sent for each context that is finished.
\<close>

theorem controller_always_listens:
  assumes "serving os rl g s0 s" and "contexts s0 = []" and "sent s0 = []"
  shows "count_list (phases s) Receiving_head = 1 \<and> length (sent s) \<le> count_list (phases s) Finished"
proof -
  have "loop_inv s"
    using assms(1)
  proof induction
    case started
    show ?case using assms(2,3) by (simp add: start_def loop_inv_def next_request_loop)
  qed (rule loop_inv_step)
  then show ?thesis by (simp add: loop_inv_def)
qed

definition sample_controller :: controller where
  "sample_controller = \<lparr>trace = [], violations = [], queue_handle = 3, contexts = [],
     handlers = [], base_url = L ''http://h'', uncaught = []\<rparr>"

theorem controller_always_listens_witness:
  "count_list (phases (exec (controller_resume accepting_http_os sample_layout (\<lambda>_. 0) (0, 6, 0, []))
     (exec (start accepting_http_os sample_layout (\<lambda>_. 0)) sample_controller))) Receiving_head = 1"
proof -
  let ?s = "exec (start accepting_http_os sample_layout (\<lambda>_. 0)) sample_controller"
  have "length (contexts ?s) = length (phases ?s)" by simp
  also have "\<dots> = 1" by (simp only: start_def next_request_loop) (simp add: sample_controller_def)
  finally have "0 < length (contexts ?s)" by simp
  from controller_always_listens [OF serving.completed [OF serving.started this]]
  show ?thesis by (simp add: sample_controller_def)
qed

text \<open>
  A dispatched request gets what its handler produced: when routing yields a response that
  fits, exactly one response is sent, for the request's identifier and with the disconnect
  flag, and it carries the status, reason, headers and body of that response; nothing is
  thrown.
\<close>

theorem dispatch_serves:
  assumes "cx = contexts s ! j" and "prq = get_request rl (cx_request cx)" and "request_url prq = Some url"
    and "route (handlers s) url (Verb prq) (cx_request cx) (cx_response cx) = Inr rs"
    and "fits rs" and "untaken rs" and "map_ok (known_headers rs)"
  shows "\<exists>h. sent (exec (dispatch os rl j) s) =
      sent s @ [(h, RequestId prq, HTTP_SEND_RESPONSE_FLAG_DISCONNECT)] \<and>
    StatusCode h = status_code rs \<and> wire_reason h = reason rs \<and> wire_unknown h = unknown_headers rs \<and>
    wire_body h = body rs \<and> uncaught (exec (dispatch os rl j) s) = uncaught s"
proof -
  from get_response_fresh [OF assms(5-7)] obtain h r' where
    h: "get_response rs = Some (h, r')" "StatusCode h = status_code rs" "wire_reason h = reason rs"
      "wire_unknown h = unknown_headers rs" "wire_body h = body rs"
    by blast
  have "uncaught (exec (dispatch os rl j) s) = uncaught s"
    using assms(1-4) h(1)
    by (simp add: dispatch_def exec_simps Let_def send_io_state set_context_def)
  moreover have "sent (exec (dispatch os rl j) s) =
      sent s @ [(h, RequestId prq, HTTP_SEND_RESPONSE_FLAG_DISCONNECT)]"
    using assms(1-4) h(1) by (simp add: dispatch_loop reply_of_def Let_def)
  ultimately show ?thesis using h by blast
qed

text \<open>A layout whose requests are all for one URL.\<close>

definition url_layout :: "wstring \<Rightarrow> request_layout" where
  "url_layout url = sample_layout\<lparr>parse_request := (\<lambda>m. (parse_request sample_layout m)
     \<lparr>pFullUrl := url, FullUrlLength := word_of_nat (2 * length url)\<rparr>)\<rparr>"

theorem dispatch_serves_witness:
  "\<exists>h. sent (exec (dispatch accepting_http_os (url_layout (L ''http://h/x'')) 0)
       (sample_controller\<lparr>contexts := [request_context_new 0]\<rparr>)) =
     [(h, 0, HTTP_SEND_RESPONSE_FLAG_DISCONNECT)] \<and> StatusCode h = 404 \<and> wire_reason h = ''Not found''"
proof -
  let ?rl = "url_layout (L ''http://h/x'')"
  let ?prq = "get_request ?rl (cx_request (request_context_new 0))"
  let ?rs = "set_reason ''Not found'' (set_status_code 404 (simple_response_new 0))"
  have "request_url ?prq = Some (L ''http://h/x'')" "RequestId ?prq = 0"
    by (simp_all add: request_url_def get_request_def url_layout_def sample_layout_def
        request_context_new_def simple_request_new_def vector_ops_def L_def)
  moreover have "fits ?rs" "untaken ?rs" "map_ok (known_headers ?rs)"
    by (simp_all add: response_defs fits_def small_text_def untaken_def)
  ultimately show ?thesis
    using dispatch_serves [where s = "sample_controller\<lparr>contexts := [request_context_new 0]\<rparr>" and j = 0
        and rl = ?rl and url = "L ''http://h/x''" and rs = ?rs and os = accepting_http_os, OF refl refl]
    by (auto simp: sample_controller_def route_def request_context_new_def response_defs)
qed

end
