(* ===== verification/Http_Stages.thy ===== *)
theory Http_Stages
  imports Http_Context
begin

text \<open>
  A request in its context, from its head to its response, while other requests are in flight:
  what the completions of one context do to it, and the contract of a server that handles many
  contexts, the locale \<open>context_server\<close>.  The controller (\<open>Http_Exchange\<close>) and the chain of
  connections (\<open>Http_Connection\<close>) are interpretations of it.
\<close>

section \<open>One context\<close>

lemma length_on [simp]:
  "length (contexts (exec (on_head j m) s)) = length (contexts s)"
  "length (contexts (exec (on_body j m') s)) = length (contexts s)"
  "length (contexts (exec (set_context j f) s)) = length (contexts s)"
  by (simp_all add: on_head_def on_body_def set_context_def exec_def Let_def)

lemma other_context [simp]:
  assumes "j' \<noteq> j"
  shows "contexts (exec (on_head j' m) s) ! j = contexts s ! j"
    and "contexts (exec (on_body j' m') s) ! j = contexts s ! j"
    and "contexts (exec (set_context j' f) s) ! j = contexts s ! j"
  using assms by (simp_all add: on_head_def on_body_def set_context_def exec_def Let_def)

text \<open>
  A context that waits for a head with a buffer of \<open>n\<close> bytes, and one that has the head \<open>xs\<close>, the
  first part \<open>d\<close> of the body, and waits for \<open>n\<close> more bytes.
\<close>

definition head_awaited :: "nat \<Rightarrow> USHORT \<Rightarrow> request_context \<Rightarrow> bool" where
  "head_awaited n garbage cx \<longleftrightarrow> cx_phase cx = Receiving_head \<and> cx_head cx = HR_recieving \<and>
     vb_committed (dynamic_request_buff (cx_request cx)) = [] \<and>
     length (vb_tail (dynamic_request_buff (cx_request cx))) = n \<and>
     dynamic_body_buff (cx_request cx) = Vector_buffer [] [] \<and>
     cx_response cx = simple_response_new garbage"

definition body_awaited :: "string \<Rightarrow> size_t \<Rightarrow> string \<Rightarrow> USHORT \<Rightarrow> request_context \<Rightarrow> bool" where
  "body_awaited xs n d garbage cx \<longleftrightarrow> cx_phase cx = Receiving_body \<and> cx_body cx = HB_recieving \<and>
     cx_hint cx = 128 \<and> dynamic_request_buff (cx_request cx) = Vector_buffer xs [] \<and>
     vb_committed (dynamic_body_buff (cx_request cx)) = d \<and>
     length (vb_tail (dynamic_body_buff (cx_request cx))) = unat n \<and>
     cx_response cx = simple_response_new garbage"

lemma slot_completed:
  "http_queue.more s' = http_queue.more s \<Longrightarrow> hr_completed s' = hr_completed s"
  "http_queue.more t' = http_queue.more t \<Longrightarrow> hb_completed t' = hb_completed t"
  by (cases s; cases s'; simp) (cases t; cases t'; simp)

lemmas slot_io = receive_io_state receive_io.op_state(2) [THEN slot_completed(1)]
  body_io.op_state(2) [THEN slot_completed(2)]

lemmas on_simps = on_head_def on_body_def exec_def [of "State f" for f] result_def [of "State f" for f] Let_def

lemma min_plus_diff: "min a b + (b - a) = (b :: nat)"
  by (simp add: min_def)

lemma head_grows:
  assumes "j < length (contexts s)" and "head_awaited n g (contexts s ! j)"
  shows "result (on_head j (head_code os rl ERROR_MORE_DATA len xs)) s = None"
    and "head_awaited (unat len) g (contexts (exec (on_head j (head_code os rl ERROR_MORE_DATA len xs)) s) ! j)"
  using assms
  by (simp_all add: on_simps head_awaited_def head_code_def receive_step_def recieve_def exec_simps
      slot_io failed_def vector_ops_def min_plus_diff)

lemma head_done:
  assumes "j < length (contexts s)" and "head_awaited n g (contexts s ! j)"
    and "length xs \<le> n" and "unat len = length xs"
  shows "result (on_head j (head_code os rl 0 len xs)) s = Some (0, len)"
    and "let cx = contexts (exec (on_head j (head_code os rl 0 len xs)) s) ! j
      in dynamic_request_buff (cx_request cx) = Vector_buffer xs [] \<and>
        dynamic_body_buff (cx_request cx) = Vector_buffer [] [] \<and> cx_response cx = simple_response_new g"
  using assms
  by (simp_all add: on_simps head_awaited_def head_code_def receive_step_def exec_simps note_head_def
      vector_ops_def)

text \<open>A new context waits for its head with the initial size, and the body starts with 128 bytes.\<close>

lemma head_begins:
  assumes "layout_ok rl" and "contexts s ! j = request_context_new g" and "j < length (contexts s)"
  shows "head_awaited (unat (sizeof_request rl) + 1024) g
    (contexts (exec (on_head j (async_receive os vector_ops rl note_head)) s) ! j)"
proof -
  have n: "unat (sizeof_request rl + 1024) = unat (sizeof_request rl) + 1024"
    using assms(1) by (simp add: layout_ok_def unat_word_ariths)
  have "length (write_null_id rl m) = length m" if "unat (sizeof_request rl) \<le> length m" for m
    using assms(1) that by (simp add: layout_ok_def)
  then show ?thesis
    using assms(2,3)
    by (simp add: exec_simps on_simps head_awaited_def async_receive_def receive_step_def recieve_def slot_io
        vector_ops_def n request_context_new_def simple_request_new_def)
qed

lemma body_begins:
  assumes "j < length (contexts s)" and "cx_phase (contexts s ! j) = Receiving_body"
    and "dynamic_request_buff (cx_request (contexts s ! j)) = Vector_buffer xs []"
    and "dynamic_body_buff (cx_request (contexts s ! j)) = Vector_buffer [] []"
    and "cx_response (contexts s ! j) = simple_response_new g"
  shows "body_awaited xs 128 [] g
    (contexts (exec (on_body j (async_receive_body os vector_ops i note_body 128)) s) ! j)"
  using assms
  by (simp add: exec_simps on_simps body_awaited_def async_receive_body_def receive_body_step_def
      recieve_body_def slot_io vector_ops_def)

lemma body_chunk:
  assumes "j < length (contexts s)" and "body_awaited ws n d g (contexts s ! j)"
    and "length xs \<le> unat n"
  shows "result (on_body j (body_code os 0 (word_of_nat (length xs)) xs)) s = None"
    and "body_awaited ws (next_size 128 xs) (d @ xs) g
      (contexts (exec (on_body j (body_code os 0 (word_of_nat (length xs)) xs)) s) ! j)"
proof -
  have len: "(word_of_nat (length xs) < (128 :: size_t)) \<longleftrightarrow> length xs < unat (128 :: size_t)"
    by (simp add: word_less_nat_alt unat_chunk_length [OF assms(3)])
  show "result (on_body j (body_code os 0 (word_of_nat (length xs)) xs)) s = None"
    and "body_awaited ws (next_size 128 xs) (d @ xs) g
      (contexts (exec (on_body j (body_code os 0 (word_of_nat (length xs)) xs)) s) ! j)"
    using assms
    by (simp_all add: on_simps body_awaited_def body_code_def receive_body_step_def recieve_body_def
        exec_simps slot_io vector_ops_def len next_size_def unat_chunk_length [OF assms(3)])
qed

lemma body_done:
  assumes "j < length (contexts s)" and "body_awaited ws n d g (contexts s ! j)"
    and "length xs \<le> unat n"
  shows "result (on_body j (body_code os ERROR_HANDLE_EOF (word_of_nat (length xs)) xs)) s =
      Some (0, word_of_nat (length xs))"
    and "let cx = contexts (exec (on_body j (body_code os ERROR_HANDLE_EOF (word_of_nat (length xs)) xs)) s) ! j
      in cx_request cx = \<lparr>dynamic_request_buff = Vector_buffer ws [],
          dynamic_body_buff = Vector_buffer (d @ xs) []\<rparr> \<and> cx_response cx = simple_response_new g"
  using assms
  by (simp_all add: on_simps body_awaited_def body_code_def receive_body_step_def exec_simps
      note_body_def vector_ops_def failed_def unat_chunk_length [OF assms(3)])

section \<open>The events of a request\<close>

text \<open>The request with head \<open>ws\<close> and body \<open>d\<close> as its handler sees it.\<close>

definition request_of :: "string \<Rightarrow> string \<Rightarrow> simple_request" where
  "request_of ws d = \<lparr>dynamic_request_buff = Vector_buffer ws [], dynamic_body_buff = Vector_buffer d []\<rparr>"

text \<open>
  The events of one request, in their order: the head is asked for again while it grows, then it
  arrives, then the chunks of the body, then its end with or without last bytes.
\<close>

definition request_events :: "(size_t \<times> string) list \<Rightarrow> string \<Rightarrow> string list \<Rightarrow> string \<Rightarrow> http_event list" where
  "request_events gs ws cs ys = grow_events gs @ (0, word_of_nat (length ws), ws) #
     map chunk_event cs @ [(ERROR_HANDLE_EOF, word_of_nat (length ys), ys)]"

lemma filter_splits:
  assumes "filter P es = A @ b # B"
  shows "\<exists>es1 es2. es = es1 @ b # es2 \<and> filter P es1 = A \<and> filter P es2 = B"
  using assms
proof (induction es arbitrary: A)
  case (Cons e es)
  show ?case
  proof (cases "P e \<and> A = []")
    case True
    then show ?thesis using Cons.prems by (intro exI [of _ "[]"] exI [of _ es]) simp
  next
    case False
    then obtain es1 es2 where "es = es1 @ b # es2" "filter P es1 = (if P e then tl A else A)" "filter P es2 = B"
      using Cons.IH [of "if P e then tl A else A"] Cons.prems by (cases A) (auto split: if_splits)
    then show ?thesis
      using Cons.prems False by (intro exI [of _ "e # es1"] exI [of _ es2]) (cases A; auto split: if_splits)
  qed
qed simp

section \<open>The contract of a server over contexts\<close>

text \<open>
  A completion resumes the operation of its context; when a head or a body is complete the
  server's own handler runs.
\<close>

definition context_resume :: "http_os \<Rightarrow> request_layout \<Rightarrow>
    (nat \<Rightarrow> error_code \<Rightarrow> ('z http_contexts_scheme, unit) state) \<Rightarrow>
    (nat \<Rightarrow> error_code \<Rightarrow> ('z http_contexts_scheme, unit) state) \<Rightarrow>
    nat \<times> http_event \<Rightarrow> ('z http_contexts_scheme, unit) state" where
  "context_resume os rl on_h on_b e = (case e of (j, ec, len, xs) \<Rightarrow> do {
     ph \<leftarrow> gets (\<lambda>s. cx_phase (contexts s ! j));
     (case ph of
        Receiving_head \<Rightarrow> do {
          c \<leftarrow> on_head j (head_code os rl ec len xs);
          (case c of None \<Rightarrow> ret () | Some (ec', _) \<Rightarrow> on_h j ec') }
      | Receiving_body \<Rightarrow> do {
          c \<leftarrow> on_body j (body_code os ec len xs);
          (case c of None \<Rightarrow> ret () | Some (ec', _) \<Rightarrow> on_b j ec') }
      | Finished \<Rightarrow> ret ())
   })"

definition serve_events :: "(nat \<times> http_event \<Rightarrow> ('z http_contexts_scheme, unit) state) \<Rightarrow>
    (nat \<times> http_event) list \<Rightarrow> 'z http_contexts_scheme \<Rightarrow> 'z http_contexts_scheme" where
  "serve_events resume es s = fold (\<lambda>e. exec (resume e)) es s"

lemma serve_events_simps [simp]:
  "serve_events resume [] s = s"
  "serve_events resume (e # es) s = serve_events resume es (exec (resume e) s)"
  "serve_events resume (es @ es') s = serve_events resume es' (serve_events resume es s)"
  by (simp_all add: serve_events_def)

text \<open>
  \<open>env\<close> is what the server answers from.  \<open>others_kept j s s'\<close>: it stays, contexts are only added,
  context \<open>j\<close> is unchanged and the responses sent so far stay sent.
\<close>

definition others_kept :: "('z http_contexts_scheme \<Rightarrow> 'h) \<Rightarrow> nat \<Rightarrow> 'z http_contexts_scheme \<Rightarrow>
    'z http_contexts_scheme \<Rightarrow> bool" where
  "others_kept env j s s' \<longleftrightarrow> env s' = env s \<and> length (contexts s) \<le> length (contexts s') \<and>
     contexts s' ! j = contexts s ! j \<and> set (sent s) \<subseteq> set (sent s')"

lemma others_kept_trans:
  "others_kept env j s s' \<Longrightarrow> others_kept env j s' s'' \<Longrightarrow> others_kept env j s s''"
  by (auto simp: others_kept_def)

text \<open>Context \<open>j\<close> is in a stage, and what has been sent includes the responses \<open>R\<close>.\<close>

definition stage :: "('z http_contexts_scheme \<Rightarrow> 'h) \<Rightarrow> (request_context \<Rightarrow> bool) \<Rightarrow> nat \<Rightarrow> 'h \<Rightarrow>
    (http_response \<times> HTTP_REQUEST_ID \<times> ULONG) set \<Rightarrow> 'z http_contexts_scheme \<Rightarrow> bool" where
  "stage env P j h R s \<longleftrightarrow> j < length (contexts s) \<and> env s = h \<and> P (contexts s ! j) \<and> R \<subseteq> set (sent s)"

locale context_server =
  fixes on_h on_b :: "nat \<Rightarrow> error_code \<Rightarrow> ('z http_contexts_scheme, unit) state"
    and env :: "'z http_contexts_scheme \<Rightarrow> 'h"
    and answer :: "'h \<Rightarrow> simple_request \<Rightarrow> simple_response \<Rightarrow> (http_response \<times> HTTP_REQUEST_ID \<times> ULONG) list"
  assumes env_on: "env (exec (on_head j m) s) = env s" "env (exec (on_body j m') s) = env s"
    and head_others: "j' \<noteq> j \<Longrightarrow> j' < length (contexts s) \<Longrightarrow> others_kept env j' s (exec (on_h j ec) s)"
    and body_others: "j' \<noteq> j \<Longrightarrow> j' < length (contexts s) \<Longrightarrow> others_kept env j' s (exec (on_b j ec) s)"
    and head_starts_body: "\<lbrakk>j < length (contexts s);
      dynamic_request_buff (cx_request (contexts s ! j)) = Vector_buffer xs [];
      dynamic_body_buff (cx_request (contexts s ! j)) = Vector_buffer [] [];
      cx_response (contexts s ! j) = simple_response_new g\<rbrakk> \<Longrightarrow>
      env (exec (on_h j 0) s) = env s \<and> j < length (contexts (exec (on_h j 0) s)) \<and>
      body_awaited xs 128 [] g (contexts (exec (on_h j 0) s) ! j)"
    and body_answers: "j < length (contexts s) \<Longrightarrow>
      env (exec (on_b j 0) s) = env s \<and> j < length (contexts (exec (on_b j 0) s)) \<and>
      set (answer (env s) (cx_request (contexts s ! j)) (cx_response (contexts s ! j))) \<subseteq>
        set (sent (exec (on_b j 0) s))"
begin

lemma slot_others:
  assumes "j' \<noteq> j"
  shows "others_kept env j' s (exec (on_head j (head_code os rl ec len xs)) s)"
    and "others_kept env j' s (exec (on_body j (body_code os ec len xs)) s)"
  using assms by (simp_all add: others_kept_def env_on sent_on(1) [OF code_sent(1)]
      sent_on(2) [OF code_sent(2)])

lemma resume_other:
  assumes "fst e \<noteq> j" and "j < length (contexts s)"
  shows "others_kept env j s (exec (context_resume os rl on_h on_b e) s)"
proof -
  obtain j' ec len xs where e: "e = (j', ec, len, xs)" by (cases e)
  have j: "j \<noteq> j'" using assms(1) e by simp
  have self: "others_kept env j s s" by (simp add: others_kept_def)
  have "others_kept env j s (exec (on_h j' ec') (exec (on_head j' (head_code os rl ec len xs)) s))"
    "others_kept env j s (exec (on_b j' ec') (exec (on_body j' (body_code os ec len xs)) s))" for ec'
    using assms(2)
    by (auto intro!: others_kept_trans [OF slot_others(1) [OF j] head_others [OF j]]
        others_kept_trans [OF slot_others(2) [OF j] body_others [OF j]])
  then show ?thesis
    using self slot_others [OF j, of s os] 
    by (simp add: e context_resume_def exec_simps split: context_phase.split option.split prod.split)
qed

lemma stage_other:
  "stage env P j h R s \<Longrightarrow> fst e \<noteq> j \<Longrightarrow> stage env P j h R (exec (context_resume os rl on_h on_b e) s)"
  using resume_other [of e j s os rl] by (auto simp: stage_def others_kept_def)

lemma stage_others:
  "(\<And>e. e \<in> set es \<Longrightarrow> fst e \<noteq> j) \<Longrightarrow> stage env P j h R s \<Longrightarrow>
   stage env P j h R (serve_events (context_resume os rl on_h on_b) es s)"
  by (induction es arbitrary: s) (auto simp: stage_other)

lemma stage_grow:
  assumes "stage env (head_awaited n g) j h {} s"
  shows "stage env (head_awaited (unat len) g) j h {}
    (exec (context_resume os rl on_h on_b (j, ERROR_MORE_DATA, len, xs)) s)"
proof -
  have s: "j < length (contexts s)" "head_awaited n g (contexts s ! j)" "env s = h"
    using assms by (simp_all add: stage_def)
  then have "cx_phase (contexts s ! j) = Receiving_head" by (simp add: head_awaited_def)
  then show ?thesis
    using s head_grows [OF s(1,2)] by (simp add: stage_def context_resume_def exec_simps env_on)
qed

lemma stage_head:
  assumes "stage env (head_awaited n g) j h {} s" and "length xs \<le> n" and "unat len = length xs"
  shows "stage env (body_awaited xs 128 [] g) j h {} (exec (context_resume os rl on_h on_b (j, 0, len, xs)) s)"
proof -
  have s: "j < length (contexts s)" "head_awaited n g (contexts s ! j)" "env s = h"
    using assms by (simp_all add: stage_def)
  have ph: "cx_phase (contexts s ! j) = Receiving_head" using s(2) by (simp add: head_awaited_def)
  note d = head_done [OF s(1,2) assms(2,3), of os rl, unfolded Let_def]
  let ?s1 = "exec (on_head j (head_code os rl 0 len xs)) s"
  have "j < length (contexts ?s1)" using s(1) by simp
  from head_starts_body [OF this, of xs g] d(2)
  show ?thesis
    using s(1,3) ph d(1) by (simp add: stage_def context_resume_def exec_simps env_on)
qed

lemma stage_chunk:
  assumes "stage env (body_awaited ws n d g) j h {} s" and "length xs \<le> unat n"
  shows "stage env (body_awaited ws (next_size 128 xs) (d @ xs) g) j h {}
    (exec (context_resume os rl on_h on_b (j, chunk_event xs)) s)"
proof -
  have s: "j < length (contexts s)" "body_awaited ws n d g (contexts s ! j)" "env s = h"
    using assms by (simp_all add: stage_def)
  then have "cx_phase (contexts s ! j) = Receiving_body" by (simp add: body_awaited_def)
  then show ?thesis
    using s body_chunk [OF s(1,2) assms(2)]
    by (simp add: stage_def context_resume_def exec_simps chunk_event_def env_on)
qed

lemma stage_end:
  assumes "stage env (body_awaited ws n d g) j h {} s" and "length xs \<le> unat n"
  shows "stage env (\<lambda>_. True) j h (set (answer h (request_of ws (d @ xs)) (simple_response_new g)))
    (exec (context_resume os rl on_h on_b (j, ERROR_HANDLE_EOF, word_of_nat (length xs), xs)) s)"
proof -
  have s: "j < length (contexts s)" "body_awaited ws n d g (contexts s ! j)" "env s = h"
    using assms by (simp_all add: stage_def)
  have ph: "cx_phase (contexts s ! j) = Receiving_body" using s(2) by (simp add: body_awaited_def)
  let ?s1 = "exec (on_body j (body_code os ERROR_HANDLE_EOF (word_of_nat (length xs)) xs)) s"
  note d = body_done [OF s(1,2) assms(2), of os, unfolded Let_def]
  have "j < length (contexts ?s1)" using s(1) by simp
  note a = body_answers [OF this]
  show ?thesis
    using ph d s(3) a by (simp add: stage_def context_resume_def exec_simps env_on request_of_def)
qed

lemma serve_grow:
  assumes "filter (\<lambda>e. fst e = j) es = map (Pair j) (grow_events gs)" and "stage env (head_awaited n g) j h {} s"
  shows "stage env (head_awaited (grown n gs) g) j h {} (serve_events (context_resume os rl on_h on_b) es s)"
  using assms
proof (induction es arbitrary: gs n s)
  case (Cons e es)
  show ?case
  proof (cases "fst e = j")
    case True
    then obtain len xs gs' where gs: "gs = (len, xs) # gs'" "e = (j, ERROR_MORE_DATA, len, xs)"
      using Cons.prems(1) by (cases gs) auto
    with Cons.IH [OF _ stage_grow [OF Cons.prems(2)], of gs'] Cons.prems(1) show ?thesis by simp
  next
    case False
    with Cons.IH [OF _ stage_other [OF Cons.prems(2)]] Cons.prems(1) show ?thesis by simp
  qed
next
  case Nil
  then have "gs = []" by (cases gs) auto
  with Nil show ?case by simp
qed

lemma serve_chunks:
  assumes "filter (\<lambda>e. fst e = j) es = map (Pair j) (map chunk_event cs)"
    and "stage env (body_awaited ws n d g) j h {} s" and "valid_chunks 128 n cs"
  shows "stage env (body_awaited ws (last (asked 128 n cs)) (d @ concat cs) g) j h {}
    (serve_events (context_resume os rl on_h on_b) es s)"
  using assms
proof (induction es arbitrary: cs n d s)
  case (Cons e es)
  show ?case
  proof (cases "fst e = j")
    case True
    then obtain xs cs' where cs: "cs = xs # cs'" "e = (j, chunk_event xs)"
      using Cons.prems(1) by (cases cs) auto
    have xs: "length xs \<le> unat n" "valid_chunks 128 (next_size 128 xs) cs'"
      using Cons.prems(3) by (simp_all add: cs)
    obtain t where "asked 128 (next_size 128 xs) cs' = next_size 128 xs # t" by (cases cs') simp_all
    with Cons.IH [OF _ stage_chunk [OF Cons.prems(2) xs(1)] xs(2)] Cons.prems(1) cs
    show ?thesis by simp
  next
    case False
    with Cons.IH [OF _ stage_other [OF Cons.prems(2)] Cons.prems(3)] Cons.prems(1) show ?thesis by simp
  qed
next
  case Nil
  then have "cs = []" by (cases cs) auto
  with Nil show ?case by simp
qed

text \<open>Whatever happens to other requests meanwhile, the request gets the server's answer to it.\<close>

lemma request_served:
  assumes "filter (\<lambda>e. fst e = j) es = map (Pair j) (request_events gs ws cs ys)"
    and "stage env (head_awaited n g) j h {} s"
    and "length ws \<le> grown n gs" "length ws < 2 ^ 64"
    and "valid_chunks 128 128 cs" "length ys \<le> unat (last (asked 128 128 cs))"
  shows "set (answer h (request_of ws (concat cs @ ys)) (simple_response_new g)) \<subseteq>
    set (sent (serve_events (context_resume os rl on_h on_b) es s))"
proof -
  let ?mine = "filter (\<lambda>e. fst e = j)"
  have "?mine es = map (Pair j) (grow_events gs) @ (j, 0, word_of_nat (length ws), ws) #
      (map (Pair j) (map chunk_event cs) @ [(j, ERROR_HANDLE_EOF, word_of_nat (length ys), ys)])"
    using assms(1) by (simp add: request_events_def)
  from filter_splits [OF this] obtain es1 es2 where es: "es = es1 @ (j, 0, word_of_nat (length ws), ws) # es2"
    and es1: "?mine es1 = map (Pair j) (grow_events gs)"
    and es2: "?mine es2 = map (Pair j) (map chunk_event cs) @ [(j, ERROR_HANDLE_EOF, word_of_nat (length ys), ys)]"
    by blast
  from filter_splits [OF es2] obtain es3 es4 where es': "es2 = es3 @ (j, ERROR_HANDLE_EOF, word_of_nat (length ys), ys) # es4"
    and es3: "?mine es3 = map (Pair j) (map chunk_event cs)" and es4: "?mine es4 = []"
    by blast
  have len: "unat (word_of_nat (length ws) :: size_t) = length ws"
    using assms(4) by (simp add: unat_of_nat)
  note s1 = serve_grow [OF es1 assms(2), of os rl]
  note s2 = serve_chunks [OF es3 stage_head [OF s1 assms(3) len] assms(5), of os rl]
  note s3 = stage_others [OF _ stage_end [OF s2 assms(6), where os = os and rl = rl], where es = es4 and rl = rl and os = os]
  have "\<And>e. e \<in> set es4 \<Longrightarrow> fst e \<noteq> j" using es4 by (auto simp: filter_empty_conv)
  from s3 [OF this] show ?thesis by (simp add: stage_def es es')
qed

end

end
