(* ===== verification/Http_Exchange.thy ===== *)
theory Http_Exchange
  imports Http_Controller Http_Stages
begin

text \<open>
  \<open>basic_http_controller\<close> as an interpretation of the contract of \<open>Http_Stages\<close>, and the answer it
  gives in terms of the registrations.
\<close>

section \<open>The controller is a server over contexts\<close>

lemma controller_fields [simp]:
  "handlers (exec (on_head j m) s) = handlers s" "handlers (exec (on_body j m') s) = handlers s"
  "handlers (exec (set_context j f) s) = handlers s"
  by (simp_all add: on_head_def on_body_def set_context_def exec_def Let_def)

lemma next_request_frame:
  "handlers (exec (receive_next_request os rl g) s) = handlers s"
  "length (contexts (exec (receive_next_request os rl g) s)) = Suc (length (contexts s))"
  "j < length (contexts s) \<Longrightarrow> contexts (exec (receive_next_request os rl g) s) ! j = contexts s ! j"
  by (simp_all add: receive_next_request_def exec_simps nth_append)

lemma dispatch_frame:
  "handlers (exec (dispatch os rl j) s) = handlers s"
  "length (contexts (exec (dispatch os rl j) s)) = length (contexts s)"
  "j' \<noteq> j \<Longrightarrow> contexts (exec (dispatch os rl j) s) ! j' = contexts s ! j'"
  by (simp_all add: dispatch_def exec_simps Let_def send_io_state split: option.split sum.split prod.split)

lemma on_received_frame:
  "handlers (exec (on_received os rl g j ec) s) = handlers s"
  "length (contexts (exec (on_received os rl g j ec) s)) = Suc (length (contexts s))"
  "j' \<noteq> j \<Longrightarrow> j' < length (contexts s) \<Longrightarrow>
     contexts (exec (on_received os rl g j ec) s) ! j' = contexts s ! j'"
  "sent (exec (on_received os rl g j ec) s) = sent s"
  by (simp_all add: on_received_def exec_simps next_request_frame next_request_loop phases_set_context(2)
      sent_on receive_ops_sent)

lemma on_body_received_frame:
  "handlers (exec (on_body_received os rl j ec) s) = handlers s"
  "length (contexts (exec (on_body_received os rl j ec) s)) = length (contexts s)"
  "j' \<noteq> j \<Longrightarrow> contexts (exec (on_body_received os rl j ec) s) ! j' = contexts s ! j'"
  "\<exists>ys. sent (exec (on_body_received os rl j ec) s) = sent s @ ys"
  by (simp_all add: on_body_received_def exec_simps dispatch_frame dispatch_loop phases_set_context(2))

text \<open>The answer of a controller with handlers \<open>hs\<close> to a request.\<close>

definition reply_to :: "request_layout \<Rightarrow> handler_map \<Rightarrow> simple_request \<Rightarrow> simple_response \<Rightarrow>
    (http_response \<times> HTTP_REQUEST_ID \<times> ULONG) list" where
  "reply_to rl hs rq r = reply_of rl hs ((request_context_new 0)\<lparr>cx_request := rq, cx_response := r\<rparr>)"

lemma reply_of_cong:
  "cx_request cx = cx_request cx' \<Longrightarrow> cx_response cx = cx_response cx' \<Longrightarrow> reply_of rl hs cx = reply_of rl hs cx'"
  by (simp add: reply_of_def cong: option.case_cong sum.case_cong)

lemma controller_resume_eq:
  "controller_resume os rl gs = context_resume os rl (on_received os rl gs) (on_body_received os rl)"
  by (rule ext) (simp add: controller_resume_def context_resume_def)

interpretation controller_server: context_server "on_received os rl gs" "on_body_received os rl" handlers
    "reply_to rl"
proof (unfold_locales, goal_cases)
  case (4 j' j s ec)
  obtain ys where "sent (exec (on_body_received os rl j ec) s) = sent s @ ys"
    using on_body_received_frame(4) by blast
  with 4 show ?case by (auto simp: others_kept_def on_body_received_frame(1-3))
next
  case (5 j s xs g)
  then have "body_awaited xs 128 [] g (contexts (exec (on_received os rl gs j 0) s) ! j)"
    by (simp add: on_received_def exec_simps)
      (rule body_begins, simp_all add: next_request_frame set_context_def)
  with 5 show ?case by (simp add: on_received_frame)
next
  case (6 j s)
  let ?s = "exec (set_context j (\<lambda>cx. cx\<lparr>cx_phase := Finished\<rparr>)) s"
  from 6 have "contexts ?s ! j = (contexts s ! j)\<lparr>cx_phase := Finished\<rparr>"
    by (simp add: set_context_def)
  then have "reply_of rl (handlers s) (contexts ?s ! j) =
      reply_to rl (handlers s) (cx_request (contexts s ! j)) (cx_response (contexts s ! j))"
    by (auto simp: reply_to_def intro: reply_of_cong)
  with 6 show ?case
    by (simp add: on_body_received_def exec_simps dispatch_frame dispatch_loop)
qed (simp_all add: others_kept_def on_received_frame)

definition serve :: "http_os \<Rightarrow> request_layout \<Rightarrow> (nat \<Rightarrow> USHORT) \<Rightarrow> (nat \<times> http_event) list \<Rightarrow>
    controller \<Rightarrow> controller" where
  "serve os rl gs = serve_events (controller_resume os rl gs)"

text \<open>The next request waits for its head with the initial size.\<close>

lemma next_request_awaits:
  assumes "layout_ok rl"
  shows "head_awaited (unat (sizeof_request rl) + 1024) (g (length (contexts s)))
    (contexts (exec (receive_next_request os rl g) s) ! length (contexts s))"
  using head_begins [OF assms, of "s\<lparr>contexts := contexts s @ [request_context_new (g (length (contexts s)))]\<rparr>"]
  by (simp add: receive_next_request_def exec_simps)

section \<open>From the registrations to the wire\<close>

lemma route_registered:
  assumes "\<And>r. r \<in> set regs \<Longrightarrow> valid_registration r" and "register_all base regs [] = Inr hs"
    and "verb < HttpVerbMaximum"
    and "map_of (rev (map (registration_key base) regs)) (url, verb) = Some (Some h)"
  shows "route hs url verb rq r = Inr (h rq (set_status_code 200 r))"
proof -
  from register_all_result [where rs = regs and hs = "[]" and base = base, OF assms(1)] assms(2,4)
  have "handlers_ok hs" "handler_at hs url verb = Some h" by auto
  then show ?thesis
    using assms(3) by (auto simp: route_def handler_at_def handlers_ok_def split: option.splits if_splits)
qed

lemma reply_to_registered:
  assumes "request_url (get_request rl rq) = Some url"
    and "route hs url (Verb (get_request rl rq)) rq r = Inr rs"
    and "fits rs" and "untaken rs" and "map_ok (known_headers rs)"
  shows "\<exists>w. reply_to rl hs rq r = [(w, RequestId (get_request rl rq), HTTP_SEND_RESPONSE_FLAG_DISCONNECT)] \<and>
    StatusCode w = status_code rs \<and> wire_reason w = reason rs \<and> wire_unknown w = unknown_headers rs \<and>
    wire_body w = body rs \<and> wire_trailers w = trailers rs"
proof -
  from get_response_fresh [OF assms(3-5)] obtain w r' where "get_response rs = Some (w, r')"
    "StatusCode w = status_code rs" "wire_reason w = reason rs" "wire_unknown w = unknown_headers rs"
    "wire_body w = body rs" "wire_trailers w = trailers rs"
    by blast
  then show ?thesis using assms(1,2) by (simp add: reply_to_def reply_of_def Let_def)
qed

end
