(* ===== verification/Http_Connection.thy ===== *)
theory Http_Connection
  imports Http_Stages
begin

text \<open>
  \<^verbatim>\<open>http/temp.hpp\<close>: \<open>http_connection\<close>, one object per request.  A connection receives the head of a
  request, starts the receive of its body, starts the next connection, and answers through the
  user's handler.  The connections that exist are the contexts of the state; the handler is
  passed from each connection to the next.
\<close>

type_synonym connection_handler = "simple_request \<Rightarrow> simple_response \<Rightarrow> simple_response"

record http_connections = http_contexts +
  conn_handler :: connection_handler

text \<open>The handler of the one-argument constructor.\<close>

definition default_handler :: connection_handler where
  "default_handler request response = set_reason ''Not Implemented'' (set_status_code 503 response)"

text \<open>Construction of a connection, and with its \<open>start\<close>, that is \<open>receive_request\<close>.\<close>

definition http_connection_new :: "USHORT \<Rightarrow> (http_connections, unit) state" where
  "http_connection_new garbage = modify (\<lambda>s. s\<lparr>contexts := contexts s @ [request_context_new garbage]\<rparr>)"

declare http_connection_new_def [simp]

definition connection_receive_request :: "http_os \<Rightarrow> request_layout \<Rightarrow> nat \<Rightarrow> (http_connections, unit) state" where
  "connection_receive_request os rl j = do {
     _ \<leftarrow> on_head j (async_receive os vector_ops rl note_head);
     ret ()
   }"

declare connection_receive_request_def [simp]

definition connection_start :: "http_os \<Rightarrow> request_layout \<Rightarrow> (nat \<Rightarrow> USHORT) \<Rightarrow> (http_connections, unit) state" where
  "connection_start os rl garbage = do {
     j \<leftarrow> gets (\<lambda>s. length (contexts s));
     http_connection_new (garbage j);
     connection_receive_request os rl j
   }"

definition on_receive_request :: "http_os \<Rightarrow> request_layout \<Rightarrow> nat \<Rightarrow> (http_connections, unit) state" where
  "on_receive_request os rl j = do {
     set_context j (\<lambda>cx. cx\<lparr>cx_phase := Receiving_body\<rparr>);
     i \<leftarrow> gets (\<lambda>s. get_request_id rl (cx_request (contexts s ! j)));
     _ \<leftarrow> on_body j (async_receive_body os vector_ops i note_body 128);
     ret ()
   }"

text \<open>The lambda of \<open>receive_request\<close>: an error is logged and the connection ends.\<close>

definition request_received :: "http_os \<Rightarrow> request_layout \<Rightarrow> (nat \<Rightarrow> USHORT) \<Rightarrow> nat \<Rightarrow> error_code \<Rightarrow>
    (http_connections, unit) state" where
  "request_received os rl garbage j ec =
     (if failed ec then set_context j (\<lambda>cx. cx\<lparr>cx_phase := Finished\<rparr>)
      else do {
        on_receive_request os rl j;
        connection_start os rl garbage
      })"

definition on_recieve_body :: "http_os \<Rightarrow> request_layout \<Rightarrow> nat \<Rightarrow> (http_connections, unit) state" where
  "on_recieve_body os rl j = do {
     s \<leftarrow> State_Monad.get;
     let cx = contexts s ! j;
     let rs = conn_handler s (cx_request cx) (cx_response cx);
     (case get_response rs of
        None \<Rightarrow> boost_assert False ''invalid known header write''
      | Some (h, rs') \<Rightarrow> do {
          set_context j (\<lambda>cx. cx\<lparr>cx_response := rs'\<rparr>);
          async_send_response os h (get_request_id rl (cx_request cx)) HTTP_SEND_RESPONSE_FLAG_DISCONNECT })
   }"

text \<open>The lambda of \<open>on_receive_request\<close>.\<close>

definition body_received :: "http_os \<Rightarrow> request_layout \<Rightarrow> nat \<Rightarrow> error_code \<Rightarrow> (http_connections, unit) state" where
  "body_received os rl j ec = do {
     set_context j (\<lambda>cx. cx\<lparr>cx_phase := Finished\<rparr>);
     only_if (\<not> failed ec) (on_recieve_body os rl j)
   }"

definition connection_resume :: "http_os \<Rightarrow> request_layout \<Rightarrow> (nat \<Rightarrow> USHORT) \<Rightarrow> nat \<times> http_event \<Rightarrow>
    (http_connections, unit) state" where
  "connection_resume os rl garbage e = (case e of (j, ec, len, xs) \<Rightarrow> do {
     ph \<leftarrow> gets (\<lambda>s. cx_phase (contexts s ! j));
     (case ph of
        Receiving_head \<Rightarrow> do {
          c \<leftarrow> on_head j (head_code os rl ec len xs);
          (case c of None \<Rightarrow> ret () | Some (ec', _) \<Rightarrow> request_received os rl garbage j ec') }
      | Receiving_body \<Rightarrow> do {
          c \<leftarrow> on_body j (body_code os ec len xs);
          (case c of None \<Rightarrow> ret () | Some (ec', _) \<Rightarrow> body_received os rl j ec') }
      | Finished \<Rightarrow> ret ())
   })"

section \<open>The chain of connections\<close>

lemma connection_start_chain:
  "phases (exec (connection_start os rl g) s) = phases s @ [Receiving_head]"
  "sent (exec (connection_start os rl g) s) = sent s"
  by (simp_all add: connection_start_def exec_simps sent_on receive_ops_sent request_context_new_def)

lemma request_received_chain:
  "phases (exec (request_received os rl g j ec) s) =
     (if failed ec then (phases s)[j := Finished] else (phases s)[j := Receiving_body] @ [Receiving_head])"
  "sent (exec (request_received os rl g j ec) s) = sent s"
  by (simp_all add: request_received_def on_receive_request_def exec_simps connection_start_chain
      phases_set_context sent_on receive_ops_sent)

lemma on_recieve_body_chain:
  "phases (exec (on_recieve_body os rl j) s) = phases s"
  "length (sent (exec (on_recieve_body os rl j) s)) \<le> Suc (length (sent s))"
  by (simp_all add: on_recieve_body_def exec_simps Let_def send_response_sent phases_set_context(2)
      more_contexts [OF send_io.op_state(2)] split: option.split prod.split)

lemma body_received_chain:
  "phases (exec (body_received os rl j ec) s) = (phases s)[j := Finished]"
  "length (sent (exec (body_received os rl j ec) s)) \<le> Suc (length (sent s))"
  using on_recieve_body_chain(2) [of os rl j "exec (set_context j (\<lambda>cx. cx\<lparr>cx_phase := Finished\<rparr>)) s"]
  by (simp_all add: body_received_def exec_simps on_recieve_body_chain(1) phases_set_context)

text \<open>What one completion does to the phases and to the number of responses.\<close>

definition chain_step :: "context_phase list \<Rightarrow> nat \<Rightarrow> context_phase list \<Rightarrow> nat \<Rightarrow> nat \<Rightarrow> bool" where
  "chain_step ps n ps' n' j \<longleftrightarrow> ps' = ps \<and> n' = n \<or>
     ps ! j = Receiving_head \<and> n' = n \<and>
       (ps' = ps[j := Finished] \<or> ps' = ps[j := Receiving_body] @ [Receiving_head]) \<or>
     ps ! j = Receiving_body \<and> n' \<le> Suc n \<and> ps' = ps[j := Finished]"

lemma connection_resume_chain:
  assumes "j < length (contexts s)"
  shows "chain_step (phases s) (length (sent s)) (phases (exec (connection_resume os rl g (j, ec, len, xs)) s))
    (length (sent (exec (connection_resume os rl g (j, ec, len, xs)) s))) j"
proof (cases "cx_phase (contexts s ! j)")
  case Receiving_head
  note m = code_sent(1) [of os rl ec len xs]
  show ?thesis
  proof (cases "result (on_head j (head_code os rl ec len xs)) s")
    case None
    with Receiving_head show ?thesis
      by (simp add: connection_resume_def exec_simps chain_step_def sent_on(1) [OF m])
  next
    case (Some c)
    then have "exec (connection_resume os rl g (j, ec, len, xs)) s =
        exec (request_received os rl g j (fst c)) (exec (on_head j (head_code os rl ec len xs)) s)"
      using Receiving_head by (cases c) (simp add: connection_resume_def exec_simps)
    with Receiving_head assms show ?thesis
      by (simp add: request_received_chain sent_on(1) [OF m] chain_step_def)
  qed
next
  case Receiving_body
  note m = code_sent(2) [of os ec len xs]
  show ?thesis
  proof (cases "result (on_body j (body_code os ec len xs)) s")
    case None
    with Receiving_body show ?thesis
      by (simp add: connection_resume_def exec_simps chain_step_def sent_on(2) [OF m])
  next
    case (Some c)
    let ?s1 = "exec (on_body j (body_code os ec len xs)) s"
    have "exec (connection_resume os rl g (j, ec, len, xs)) s = exec (body_received os rl j (fst c)) ?s1"
      using Receiving_body Some by (cases c) (simp add: connection_resume_def exec_simps)
    moreover have "sent ?s1 = sent s" by (rule sent_on(2) [OF m])
    ultimately show ?thesis
      using Receiving_body assms body_received_chain [of os rl j "fst c" ?s1] by (simp add: chain_step_def)
  qed
qed (simp add: connection_resume_def exec_simps chain_step_def)

text \<open>Sequences of completions.\<close>

inductive connection_run :: "http_os \<Rightarrow> request_layout \<Rightarrow> (nat \<Rightarrow> USHORT) \<Rightarrow> http_connections \<Rightarrow>
    http_connections \<Rightarrow> bool" for os rl g s0 where
  here: "connection_run os rl g s0 s0"
| completed: "connection_run os rl g s0 s \<Longrightarrow> j < length (contexts s) \<Longrightarrow>
    connection_run os rl g s0 (exec (connection_resume os rl g (j, ec, len, xs)) s)"

lemma chain_inv:
  assumes "chain_step ps n ps' n' j" and "j < length ps"
    and "count_list ps Receiving_head \<le> 1" and "n \<le> count_list ps Finished"
  shows "count_list ps' Receiving_head \<le> 1 \<and> n' \<le> count_list ps' Finished"
  using assms(1,3,4) count_list_update [OF assms(2), of Finished Receiving_head]
    count_list_update [OF assms(2), of Finished Finished]
    count_list_update [OF assms(2), of Receiving_body Receiving_head]
    count_list_update [OF assms(2), of Receiving_body Finished]
  by (auto simp: chain_step_def)

lemma chain_stopped:
  assumes "chain_step ps n ps' n' j" and "j < length ps" and "count_list ps Receiving_head = 0"
  shows "count_list ps' Receiving_head = 0 \<and> length ps' = length ps"
proof -
  have "ps ! j \<noteq> Receiving_head"
    using assms(2,3) by (metis count_list_0_iff nth_mem)
  then show ?thesis
    using assms(1,3) count_list_update [OF assms(2), of Finished Receiving_head]
    by (auto simp: chain_step_def)
qed

lemma connection_run_inv:
  assumes "connection_run os rl g s0 s" and "count_list (phases s0) Receiving_head \<le> 1"
    and "length (sent s0) \<le> count_list (phases s0) Finished"
  shows "count_list (phases s) Receiving_head \<le> 1 \<and> length (sent s) \<le> count_list (phases s) Finished"
  using assms
proof induction
  case (completed s j ec len xs)
  then show ?case
    using chain_inv [OF connection_resume_chain [of j s os rl g ec len xs]] by simp
qed simp

lemma connection_run_stopped:
  assumes "connection_run os rl g s0 s" and "count_list (phases s0) Receiving_head = 0"
  shows "count_list (phases s) Receiving_head = 0 \<and> length (phases s) = length (phases s0)"
  using assms
proof induction
  case (completed s j ec len xs)
  then show ?case
    using chain_stopped [OF connection_resume_chain [of j s os rl g ec len xs]] by simp
qed simp

lemma failed_head_stops:
  assumes "count_list (phases s) Receiving_head \<le> 1" and "j < length (contexts s)"
    and "cx_phase (contexts s ! j) = Receiving_head" and "cx_head (contexts s ! j) = HR_recieving"
    and "failed ec" "ec \<noteq> ERROR_HANDLE_EOF" "ec \<noteq> ERROR_MORE_DATA"
  shows "count_list (phases (exec (connection_resume os rl g (j, ec, len, xs)) s)) Receiving_head = 0"
proof -
  note c = head_code_error [OF assms(4-7), of os rl len xs]
  have "phases (exec (connection_resume os rl g (j, ec, len, xs)) s) = (phases s)[j := Finished]"
    using assms(3,5) c by (simp add: connection_resume_def exec_simps request_received_chain)
  then show ?thesis
    using count_list_update [of j "phases s" Finished Receiving_head] assms(1-3) by simp
qed

text \<open>
  C17: connections form one chain, and the chain ends at the first error: from the first
  connection on, at most one connection waits for a request and each finished one has sent at
  most one response; when the receive of a head fails, no connection waits any more, and no
  later completion ever starts another one.
\<close>

theorem connection_chain:
  assumes "connection_run os rl g (exec (connection_start os rl g) s0) s"
    and "contexts s0 = []" and "sent s0 = []"
  shows "count_list (phases s) Receiving_head \<le> 1 \<and> length (sent s) \<le> count_list (phases s) Finished \<and>
    (\<forall>j ec len xs s'. j < length (contexts s) \<and> cx_phase (contexts s ! j) = Receiving_head \<and>
       cx_head (contexts s ! j) = HR_recieving \<and> failed ec \<and> ec \<noteq> ERROR_HANDLE_EOF \<and> ec \<noteq> ERROR_MORE_DATA \<and>
       connection_run os rl g (exec (connection_resume os rl g (j, ec, len, xs)) s) s' \<longrightarrow>
       count_list (phases s') Receiving_head = 0)"
proof -
  have inv: "count_list (phases s) Receiving_head \<le> 1" "length (sent s) \<le> count_list (phases s) Finished"
    using connection_run_inv [OF assms(1)] assms(2,3) by (simp_all add: connection_start_chain)
  then show ?thesis
    using connection_run_stopped failed_head_stops [OF inv(1)] by blast
qed

definition sample_connections :: http_connections where
  "sample_connections = \<lparr>trace = [], violations = [], queue_handle = 3, contexts = [],
     conn_handler = default_handler\<rparr>"

theorem connection_chain_witness:
  "let s = exec (connection_start accepting_http_os sample_layout (\<lambda>_. 0)) sample_connections
   in cx_head (contexts s ! 0) = HR_recieving \<and>
     count_list (phases (exec (connection_resume accepting_http_os sample_layout (\<lambda>_. 0) (0, 6, 0, [])) s))
       Receiving_head = 0"
proof -
  let ?s = "exec (connection_start accepting_http_os sample_layout (\<lambda>_. 0)) sample_connections"
  have s: "length (contexts ?s) = 1" "cx_head (contexts ?s ! 0) = HR_recieving"
    "cx_phase (contexts ?s ! 0) = Receiving_head"
    by (simp_all add: connection_start_def exec_simps on_head_def exec_def [of "State _"]
        result_def [of "State _"] Let_def request_context_new_def
        sample_connections_def async_receive_def receive_step_def recieve_def receive_io_state)
  have e: "contexts sample_connections = []" "sent sample_connections = []"
    by (simp_all add: sample_connections_def)
  have "count_list (phases (exec (connection_resume accepting_http_os sample_layout (\<lambda>_. 0) (0, 6, 0, [])) ?s))
      Receiving_head = 0"
    by (rule connection_chain [OF connection_run.here e, THEN conjunct2, THEN conjunct2, rule_format,
          where j = 0 and ec = 6 and len = 0 and xs = "[]" and os = accepting_http_os and
          rl = sample_layout and g = "\<lambda>_. 0"])
      (simp add: s failed_def connection_run.here)
  with s(2) show ?thesis by (simp add: Let_def)
qed

section \<open>A connection answers its request\<close>

lemma connection_start_frame:
  "conn_handler (exec (connection_start os rl g) s) = conn_handler s"
  "length (contexts (exec (connection_start os rl g) s)) = Suc (length (contexts s))"
  "j < length (contexts s) \<Longrightarrow> contexts (exec (connection_start os rl g) s) ! j = contexts s ! j"
  by (simp_all add: connection_start_def exec_simps nth_append on_simps)

lemma connection_fields:
  "conn_handler (exec (on_head j m) s) = conn_handler s" "conn_handler (exec (on_body j m') s) = conn_handler s"
  "conn_handler (exec (set_context j f) s) = conn_handler s"
  by (simp_all add: set_context_def on_simps)

lemma request_received_frame:
  "conn_handler (exec (request_received os rl g j ec) s) = conn_handler s"
  "length (contexts s) \<le> length (contexts (exec (request_received os rl g j ec) s))"
  "j' \<noteq> j \<Longrightarrow> j' < length (contexts s) \<Longrightarrow>
     contexts (exec (request_received os rl g j ec) s) ! j' = contexts s ! j'"
  by (simp_all add: request_received_def on_receive_request_def exec_simps connection_start_frame connection_fields)

lemma more_connections:
  assumes "http_queue.more s' = http_queue.more s"
  shows "contexts s' = contexts s" and "conn_handler s' = conn_handler s"
  using assms by (cases s; cases s'; simp)+

lemmas send_connection = send_io.op_state(2) [THEN more_connections(1)]
  send_io.op_state(2) [THEN more_connections(2)]

definition connection_answer :: "request_layout \<Rightarrow> connection_handler \<Rightarrow> simple_request \<Rightarrow> simple_response \<Rightarrow>
    (http_response \<times> HTTP_REQUEST_ID \<times> ULONG) list" where
  "connection_answer rl h rq r = (case get_response (h rq r) of None \<Rightarrow> []
     | Some (w, _) \<Rightarrow> [(w, get_request_id rl rq, HTTP_SEND_RESPONSE_FLAG_DISCONNECT)])"

lemma on_recieve_body_frame:
  "conn_handler (exec (on_recieve_body os rl j) s) = conn_handler s"
  "length (contexts (exec (on_recieve_body os rl j) s)) = length (contexts s)"
  "j' \<noteq> j \<Longrightarrow> contexts (exec (on_recieve_body os rl j) s) ! j' = contexts s ! j'"
  "sent (exec (on_recieve_body os rl j) s) = sent s @
     connection_answer rl (conn_handler s) (cx_request (contexts s ! j)) (cx_response (contexts s ! j))"
  by (simp_all add: on_recieve_body_def connection_answer_def exec_simps Let_def send_connection
      connection_fields send_response_sent phases_set_context(2) split: option.split prod.split)

lemma body_received_frame:
  "conn_handler (exec (body_received os rl j ec) s) = conn_handler s"
  "length (contexts (exec (body_received os rl j ec) s)) = length (contexts s)"
  "j' \<noteq> j \<Longrightarrow> contexts (exec (body_received os rl j ec) s) ! j' = contexts s ! j'"
  "set (sent s) \<subseteq> set (sent (exec (body_received os rl j ec) s))"
  by (simp_all add: body_received_def exec_simps on_recieve_body_frame connection_fields phases_set_context(2))

lemma connection_resume_eq:
  "connection_resume os rl g = context_resume os rl (request_received os rl g) (body_received os rl)"
  by (rule ext) (simp add: connection_resume_def context_resume_def)

interpretation connection_server: context_server "request_received os rl g" "body_received os rl" conn_handler
    "connection_answer rl"
proof (unfold_locales, goal_cases)
  case (5 j s xs g')
  let ?s1 = "exec (set_context j (\<lambda>cx. cx\<lparr>cx_phase := Receiving_body\<rparr>)) s"
  have "body_awaited xs 128 [] g' (contexts (exec (on_body j (async_receive_body os vector_ops i note_body 128)) ?s1) ! j)" for i
    using 5 by (intro body_begins) (simp_all add: set_context_def)
  with 5 show ?case
    by (simp add: request_received_def on_receive_request_def exec_simps connection_start_frame connection_fields)
next
  case (6 j s)
  then show ?case
    by (simp add: body_received_def exec_simps on_recieve_body_frame connection_fields)
      (simp add: set_context_def)
qed (simp_all add: others_kept_def request_received_frame request_received_chain(2) body_received_frame connection_fields)



end
