(* ===== verification/Http_Shutdown.thy ===== *)
theory Http_Shutdown
  imports Http_Exchange Http_Connection
begin

text \<open>
  What becomes of the two servers when the request queue is shut down (\<open>shutdown\<close> of
  \<^verbatim>\<open>http/basic_http_queue_handle.hpp\<close>).  \<open>HttpShutdownRequestQueue\<close> cancels the receives that are
  outstanding; their handlers get \<open>ERROR_OPERATION_ABORTED\<close>.  The chain of connections of
  \<^verbatim>\<open>http/temp.hpp\<close> then comes to rest.  The controller of \<^verbatim>\<open>http/basic_http_controller.hpp\<close> starts the next
  receive before it looks at the error, so it goes on for ever.
\<close>

section \<open>Contexts with an operation in flight\<close>

abbreviation (input) ERROR_OPERATION_ABORTED :: error_code where "ERROR_OPERATION_ABORTED \<equiv> 995"

definition cancelled :: "nat \<Rightarrow> nat \<times> http_event" where
  "cancelled j = (j, ERROR_OPERATION_ABORTED, 0, [])"

text \<open>A context that is not finished has started the operation of its phase.\<close>

definition armed :: "request_context \<Rightarrow> bool" where
  "armed cx \<longleftrightarrow> (cx_phase cx = Receiving_head \<longrightarrow> cx_head cx = HR_recieving) \<and>
     (cx_phase cx = Receiving_body \<longrightarrow> cx_body cx = HB_recieving)"

definition others_armed :: "nat \<Rightarrow> 'z http_contexts_scheme \<Rightarrow> bool" where
  "others_armed j s \<longleftrightarrow> (\<forall>i < length (contexts s). i \<noteq> j \<longrightarrow> armed (contexts s ! i))"

definition all_armed :: "'z http_contexts_scheme \<Rightarrow> bool" where
  "all_armed s \<longleftrightarrow> (\<forall>i < length (contexts s). armed (contexts s ! i))"

lemma all_armed_iff: "j < length (contexts s) \<Longrightarrow> all_armed s \<longleftrightarrow> others_armed j s \<and> armed (contexts s ! j)"
  by (auto simp: all_armed_def others_armed_def)

lemma others_armed_on [simp]:
  "others_armed j (exec (on_head j m) s) = others_armed j s"
  "others_armed j (exec (on_body j m') s) = others_armed j s"
  "others_armed j (exec (set_context j f) s) = others_armed j s"
  by (auto simp: others_armed_def)

lemma armed_code:
  assumes "j < length (contexts s)" and "armed (contexts s ! j)"
  shows "cx_phase (contexts s ! j) = Receiving_head \<Longrightarrow>
      armed (contexts (exec (on_head j (head_code os rl ec len xs)) s) ! j)"
    and "cx_phase (contexts s ! j) = Receiving_body \<Longrightarrow>
      armed (contexts (exec (on_body j (body_code os ec len xs)) s) ! j)"
  using assms
  by (simp_all add: armed_def on_simps head_code_def receive_step_def recieve_def body_code_def
      receive_body_step_def recieve_body_def exec_simps slot_io note_head_def note_body_def)

lemma armed_begins:
  "j < length (contexts s) \<Longrightarrow> cx_phase (contexts s ! j) = Receiving_head \<Longrightarrow>
     armed (contexts (exec (on_head j (async_receive os vector_ops rl note_head)) s) ! j)"
  "j < length (contexts s) \<Longrightarrow> cx_phase (contexts s ! j) = Receiving_body \<Longrightarrow>
     armed (contexts (exec (on_body j (async_receive_body os vector_ops i note_body n)) s) ! j)"
  by (simp_all add: armed_def on_simps async_receive_def receive_step_def recieve_def
      async_receive_body_def receive_body_step_def recieve_body_def exec_simps slot_io)

text \<open>A cancelled operation completes with the error, and no call is made.\<close>

lemma cancel_code:
  "cx_head (contexts s ! j) = HR_recieving \<Longrightarrow>
     result (on_head j (head_code os rl ERROR_OPERATION_ABORTED 0 [])) s = Some (ERROR_OPERATION_ABORTED, 0)"
  "cx_head (contexts s ! j) = HR_recieving \<Longrightarrow>
     trace (exec (on_head j (head_code os rl ERROR_OPERATION_ABORTED 0 [])) s) = trace s"
  "cx_body (contexts s ! j) = HB_recieving \<Longrightarrow>
     result (on_body j (body_code os ERROR_OPERATION_ABORTED 0 [])) s = Some (ERROR_OPERATION_ABORTED, 0)"
  "cx_body (contexts s ! j) = HB_recieving \<Longrightarrow>
     trace (exec (on_body j (body_code os ERROR_OPERATION_ABORTED 0 [])) s) = trace s"
  by (simp_all add: on_simps head_code_def body_code_def exec_simps receive_step_def receive_body_step_def
      note_head_def note_body_def failed_def)

section \<open>The contract of a server that arms its contexts\<close>

locale arming_server = context_server on_h on_b env answer
  for on_h on_b :: "nat \<Rightarrow> error_code \<Rightarrow> ('z http_contexts_scheme, unit) state"
    and env :: "'z http_contexts_scheme \<Rightarrow> 'h"
    and answer :: "'h \<Rightarrow> simple_request \<Rightarrow> simple_response \<Rightarrow> (http_response \<times> HTTP_REQUEST_ID \<times> ULONG) list" +
  assumes head_arms: "j < length (contexts s) \<Longrightarrow> others_armed j s \<Longrightarrow> all_armed (exec (on_h j ec) s)"
    and body_arms: "j < length (contexts s) \<Longrightarrow> others_armed j s \<Longrightarrow> all_armed (exec (on_b j ec) s)"
begin

lemma resume_arms:
  assumes "all_armed s" and "j < length (contexts s)"
  shows "all_armed (exec (context_resume os rl on_h on_b (j, ec, len, xs)) s)"
proof -
  have s: "others_armed j s" "armed (contexts s ! j)" using assms by (simp_all add: all_armed_iff)
  let ?h = "exec (on_head j (head_code os rl ec len xs)) s" and ?b = "exec (on_body j (body_code os ec len xs)) s"
  have "cx_phase (contexts s ! j) = Receiving_head \<Longrightarrow> all_armed ?h"
    "cx_phase (contexts s ! j) = Receiving_body \<Longrightarrow> all_armed ?b"
    using s assms(2) armed_code [OF assms(2) s(2)] by (simp_all add: all_armed_iff [of j])
  moreover have "all_armed (exec (on_h j ec') ?h)" "all_armed (exec (on_b j ec') ?b)" for ec'
    using s(1) assms(2) by (simp_all add: head_arms body_arms)
  ultimately show ?thesis using assms(1)
    by (simp add: context_resume_def exec_simps split: context_phase.split option.split prod.split)
qed

text \<open>A cancelled operation runs its handler with the error.\<close>

lemma resume_cancelled:
  assumes "all_armed s" and "j < length (contexts s)"
  shows "exec (context_resume os rl on_h on_b (cancelled j)) s = (case cx_phase (contexts s ! j) of
      Receiving_head \<Rightarrow> exec (on_h j ERROR_OPERATION_ABORTED)
        (exec (on_head j (head_code os rl ERROR_OPERATION_ABORTED 0 [])) s)
    | Receiving_body \<Rightarrow> exec (on_b j ERROR_OPERATION_ABORTED)
        (exec (on_body j (body_code os ERROR_OPERATION_ABORTED 0 [])) s)
    | Finished \<Rightarrow> s)"
proof -
  have "armed (contexts s ! j)" using assms by (simp add: all_armed_iff)
  then show ?thesis
    by (cases "cx_phase (contexts s ! j)")
      (simp_all add: cancelled_def context_resume_def exec_simps armed_def cancel_code)
qed

end

lemma armed_finished: "cx_phase cx = Finished \<Longrightarrow> armed cx"
  by (simp add: armed_def)

lemma all_armed_phases:
  assumes "others_armed j s" and "length (contexts s') = length (contexts s)"
    and "\<And>i. i \<noteq> j \<Longrightarrow> contexts s' ! i = contexts s ! i"
    and "j < length (contexts s) \<Longrightarrow> cx_phase (contexts s' ! j) = Finished"
  shows "all_armed s'"
  using assms by (auto simp: all_armed_def others_armed_def) (metis armed_finished)

lemma finishing_arms:
  "others_armed j s \<Longrightarrow> all_armed (exec (set_context j (\<lambda>cx. cx\<lparr>cx_phase := Finished\<rparr>)) s)"
  by (erule all_armed_phases) (simp_all add: set_context_def)

lemma body_starting_arms:
  assumes "others_armed j s" and "j < length (contexts s)"
  shows "all_armed (exec (on_body j (async_receive_body os vector_ops i note_body n))
    (exec (set_context j (\<lambda>cx. cx\<lparr>cx_phase := Receiving_body\<rparr>)) s))"
  using assms armed_begins(2) [of j "exec (set_context j (\<lambda>cx. cx\<lparr>cx_phase := Receiving_body\<rparr>)) s"]
  by (simp add: all_armed_iff [of j]) (simp add: set_context_def)

text \<open>A new context is armed by the receive of its head; the others stay as they were.\<close>

lemma new_context_arms:
  fixes s :: "'z http_contexts_scheme"
  defines "s' \<equiv> \<lambda>os rl g. exec (on_head (length (contexts s)) (async_receive os vector_ops rl note_head))
    (s\<lparr>contexts := contexts s @ [request_context_new g]\<rparr>)"
  shows "armed (contexts (s' os rl g) ! length (contexts s))"
    and "all_armed s \<Longrightarrow> all_armed (s' os rl g)" and "others_armed j s \<Longrightarrow> others_armed j (s' os rl g)"
proof -
  show new: "armed (contexts (s' os rl g) ! length (contexts s))"
    unfolding s'_def by (rule armed_begins(1)) (simp_all add: request_context_new_def)
  have "length (contexts (s' os rl g)) = Suc (length (contexts s))" by (simp add: s'_def)
  moreover have "contexts (s' os rl g) ! i = contexts s ! i" if "i < length (contexts s)" for i
    using that by (simp add: s'_def nth_append)
  ultimately show "all_armed s \<Longrightarrow> all_armed (s' os rl g)" "others_armed j s \<Longrightarrow> others_armed j (s' os rl g)"
    using new by (auto simp: all_armed_def others_armed_def less_Suc_eq)
qed

lemma connection_start_arms: "all_armed s \<Longrightarrow> all_armed (exec (connection_start os rl g) s)"
  by (simp add: connection_start_def exec_simps new_context_arms)

lemma next_request_arms:
  "all_armed s \<Longrightarrow> all_armed (exec (receive_next_request os rl g) s)"
  "others_armed j s \<Longrightarrow> others_armed j (exec (receive_next_request os rl g) s)"
  by (simp_all add: receive_next_request_def exec_simps new_context_arms)

interpretation arming_connections: arming_server "request_received os rl g" "body_received os rl" conn_handler
    "connection_answer rl"
proof (unfold_locales, goal_cases)
  case (1 j s ec)
  then show ?case
    by (simp add: request_received_def on_receive_request_def exec_simps finishing_arms
        connection_start_arms body_starting_arms)
next
  case (2 j s ec)
  have "cx_phase (contexts (exec (body_received os rl j ec) s) ! j) = Finished"
    using arg_cong [OF body_received_chain(1) [of os rl j ec s], of "\<lambda>ps. ps ! j"] 2(1)
    by (simp add: body_received_frame)
  then show ?case
    by (intro all_armed_phases [OF 2(2)]) (simp_all add: body_received_frame)
qed

interpretation arming_controller: arming_server "on_received os rl gs" "on_body_received os rl" handlers
    "reply_to rl"
proof (unfold_locales, goal_cases)
  case (1 j s ec)
  then show ?case
    by (simp add: on_received_def exec_simps finishing_arms body_starting_arms next_request_arms
        next_request_frame)
next
  case (2 j s ec)
  let ?s1 = "exec (set_context j (\<lambda>cx. cx\<lparr>cx_phase := Finished\<rparr>)) s"
  have "phases (exec (on_body_received os rl j ec) s) = (phases s)[j := Finished]"
    by (simp add: on_body_received_def exec_simps dispatch_loop phases_set_context)
  from arg_cong [OF this, of "\<lambda>ps. ps ! j"] 2(1)
  have "cx_phase (contexts (exec (on_body_received os rl j ec) s) ! j) = Finished"
    by (simp add: on_body_received_frame)
  then show ?case
    by (intro all_armed_phases [OF 2(2)]) (simp_all add: on_body_received_frame)
qed

section \<open>The connections come to rest\<close>

lemma connection_run_armed:
  assumes "connection_run os rl g s0 s" and "all_armed s0"
  shows "all_armed s"
  using assms
  by induction (simp_all add: connection_resume_eq arming_connections.resume_arms)

text \<open>The cancellation of a connection ends it and makes no call.\<close>

lemma connection_cancelled:
  assumes "all_armed s" and "j < length (contexts s)" and s': "s' = exec (connection_resume os rl g (cancelled j)) s"
  shows "phases s' = (phases s)[j := Finished]" and "trace s' = trace s"
proof -
  have "armed (contexts s ! j)" using assms(1,2) by (simp add: all_armed_iff)
  moreover have "failed ERROR_OPERATION_ABORTED" by (simp add: failed_def)
  moreover have "cx_phase (contexts s ! j) = Finished \<Longrightarrow> (phases s)[j := Finished] = phases s"
    by (simp add: assms(2) list_update_same_conv)
  ultimately show "phases s' = (phases s)[j := Finished]" "trace s' = trace s"
    using arming_connections.resume_cancelled [OF assms(1,2)]
    by (simp_all add: s' connection_resume_eq request_received_def body_received_def exec_simps
        phases_set_context cancel_code armed_def split: context_phase.splits)
qed

lemma connections_cancelled:
  assumes "all_armed s" and "\<And>j. j \<in> set js \<Longrightarrow> j < length (contexts s)"
    and s': "s' = serve_events (connection_resume os rl g) (map cancelled js) s"
  shows "phases s' = map (\<lambda>i. if i \<in> set js then Finished else phases s ! i) [0..<length (contexts s)] \<and>
    trace s' = trace s"
  using assms
proof (induction js arbitrary: s)
  case Nil
  then show ?case by (simp add: map_nth [of "phases s", unfolded length_map] del: nth_map)
next
  case (Cons j js)
  let ?s = "exec (connection_resume os rl g (cancelled j)) s"
  have j: "j < length (contexts s)" using Cons.prems(2) by simp
  note c = connection_cancelled [OF Cons.prems(1) j refl, of os rl g]
  have "all_armed ?s"
    unfolding cancelled_def connection_resume_eq by (rule arming_connections.resume_arms [OF Cons.prems(1) j])
  moreover have len: "length (contexts ?s) = length (contexts s)"
    using arg_cong [OF c(1), of length] by simp
  ultimately show ?case
    using Cons.IH [of ?s] Cons.prems(2,3) c
    by (auto simp: nth_list_update j)
qed

lemma shutdown_frame [simp]:
  "contexts (exec (shutdown os) s) = contexts s" "phases (exec (shutdown os) s) = phases s"
  "all_armed (exec (shutdown os) s) = all_armed s"
  by (simp_all add: shutdown_def exec_simps all_armed_def)

text \<open>
  C18: shutting the queue down brings the connections to rest.  Whatever the connections did
  before, and whatever completions were still on their way when the queue was shut down: once each
  operation that is outstanding has been cancelled, in any order, every connection is finished, and
  the cancellations started no operation and no connection and made no call at all.
\<close>

theorem shutdown_quiets_connections:
  assumes "connection_run os rl g (exec (connection_start os rl g) s0) s" and "contexts s0 = []"
    and "connection_run os rl g (exec (shutdown os) s) s1"
    and "set js = {i. i < length (contexts s1) \<and> cx_phase (contexts s1 ! i) \<noteq> Finished}"
  shows "let s' = serve_events (connection_resume os rl g) (map cancelled js) s1
    in phases s' = replicate (length (contexts s1)) Finished \<and> trace s' = trace s1"
proof -
  have "all_armed (exec (connection_start os rl g) s0)"
    using assms(2) by (intro connection_start_arms) (simp add: all_armed_def)
  then have "all_armed s1"
    using connection_run_armed [OF assms(3)] connection_run_armed [OF assms(1)] by simp
  moreover have "map (\<lambda>i. if i \<in> set js then Finished else phases s1 ! i) [0..<length (contexts s1)] =
      replicate (length (contexts s1)) Finished"
    using assms(4) by (intro nth_equalityI) auto
  ultimately show ?thesis
    using connections_cancelled [OF _ _ refl, of s1 js os rl g] assms(4) by (simp only: Let_def) auto
qed

text \<open>One request is being read and the next one is awaited when the queue is shut down.\<close>

theorem shutdown_quiets_connections_witness:
  "let s1 = exec (shutdown accepting_http_os) (exec (connection_resume accepting_http_os sample_layout (\<lambda>_. 0)
       (0, 0, 3, ''abc'')) (exec (connection_start accepting_http_os sample_layout (\<lambda>_. 0)) sample_connections));
     s' = serve_events (connection_resume accepting_http_os sample_layout (\<lambda>_. 0)) (map cancelled [1, 0]) s1
   in phases s1 = [Receiving_body, Receiving_head] \<and> phases s' = [Finished, Finished] \<and> trace s' = trace s1"
proof -
  let ?os = "accepting_http_os" and ?rl = sample_layout and ?g = "\<lambda>_ :: nat. 0 :: USHORT"
  let ?first = "exec (connection_start ?os ?rl ?g) sample_connections"
  let ?next = "exec (connection_resume ?os ?rl ?g (0, 0, 3, ''abc'')) ?first"
  have s0: "length (contexts ?first) = 1" "phases ?first = [Receiving_head]"
    by (simp_all add: connection_start_frame connection_start_chain sample_connections_def)
  then have run: "connection_run ?os ?rl ?g ?first ?next"
    by (intro connection_run.completed [OF connection_run.here]) simp
  have "head_awaited 1026 0 (contexts ?first ! 0)"
    using head_begins [OF sample_layout_ok, of "sample_connections\<lparr>contexts := [request_context_new 0]\<rparr>" 0 0]
    by (simp add: connection_start_def exec_simps sample_connections_def sample_layout_def)
  moreover have "cx_phase (contexts ?first ! 0) = Receiving_head"
    using \<open>head_awaited 1026 0 (contexts ?first ! 0)\<close> by (simp add: head_awaited_def)
  ultimately have ph: "phases ?next = [Receiving_body, Receiving_head]"
    using head_done(1) [of 0 ?first 1026 0 "''abc''" 3 ?os ?rl] s0
    by (simp add: connection_resume_def exec_simps request_received_chain failed_def)
  then have len: "length (contexts ?next) = 2" by (metis length_map length_Cons list.size(3) numeral_2_eq_2 One_nat_def)
  have "cx_phase (contexts ?next ! i) \<noteq> Finished" if "i < 2" for i
    using arg_cong [OF ph, of "\<lambda>ps. ps ! i"] that len by (auto simp: less_Suc_eq numeral_2_eq_2)
  then have "set [1, 0] = {i. i < length (contexts (exec (shutdown ?os) ?next)) \<and>
      cx_phase (contexts (exec (shutdown ?os) ?next) ! i) \<noteq> Finished}" by (auto simp: len)
  moreover have "contexts sample_connections = []" by (simp add: sample_connections_def)
  ultimately show ?thesis
    using shutdown_quiets_connections [OF run _ connection_run.here, where js = "[1, 0]"]
    by (simp add: Let_def ph len numeral_2_eq_2)
qed

section \<open>The controller does not\<close>

text \<open>The calls that receive the head of a request.\<close>

fun head_call :: "http_call \<Rightarrow> unit option" where
  "head_call (HttpReceiveHttpRequest _ _ _ _) = Some ()"
| "head_call _ = None"

abbreviation "head_calls s \<equiv> length (observe head_call (trace s))"

lemma next_request_calls: "head_calls (exec (receive_next_request os rl g) s) = Suc (head_calls s)"
  by (simp add: receive_next_request_def exec_simps on_simps async_receive_def receive_step_def recieve_def
      receive_io.observe_op [OF refl] settle_def)

lemma list_update_snoc: "j < length xs \<Longrightarrow> last ((xs @ [x])[j := y]) = x"
  by (simp add: list_update_append)

text \<open>In every state of a started controller the last context awaits a head.\<close>

lemma serving_listens:
  assumes "serving os rl g s0 s" and "contexts s0 = []"
  shows "all_armed s \<and> contexts s \<noteq> [] \<and> last (phases s) = Receiving_head"
  using assms
proof induction
  case started
  have "all_armed (exec (start os rl g) s0)"
    unfolding start_def using started by (intro next_request_arms) (simp add: all_armed_def)
  moreover have "phases (exec (start os rl g) s0) = [Receiving_head]"
    using started by (simp only: start_def next_request_loop) simp
  ultimately show ?case by auto
next
  case (completed s j e)
  obtain ec len xs where e: "e = (ec, len, xs)" by (cases e)
  let ?s = "exec (controller_resume os rl g (j, ec, len, xs)) s"
  have IH: "all_armed s" "contexts s \<noteq> []" "last (phases s) = Receiving_head" using completed by simp_all
  have "all_armed ?s"
    using IH(1) completed.hyps(2) by (simp add: controller_resume_eq arming_controller.resume_arms)
  moreover have "phases ?s \<noteq> [] \<and> last (phases ?s) = Receiving_head"
  proof (cases "cx_phase (contexts s ! j)")
    case Receiving_head
    from resume_head [OF completed.hyps(2) this, of os rl g ec len xs] IH show ?thesis by auto
  next
    case Receiving_body
    then have "j \<noteq> length (phases s) - 1"
      using IH by (auto simp: last_conv_nth)
    with resume_body [OF completed.hyps(2) Receiving_body, of os rl g ec len xs] IH completed.hyps(2) show ?thesis
      by (cases "phases ?s = phases s") (simp_all add: last_list_update)
  next
    case Finished
    then show ?thesis using IH by (simp add: controller_resume_def exec_simps)
  qed
  ultimately show ?case by (auto simp: e)
qed

text \<open>Cancelling the receive of the last context starts the next one.\<close>

lemma controller_cancelled:
  assumes "all_armed s" and "contexts s \<noteq> []" and "last (phases s) = Receiving_head"
    and s': "s' = exec (controller_resume os rl g (cancelled (length (contexts s) - 1))) s"
  shows "all_armed s'" and "length (contexts s') = Suc (length (contexts s))"
    and "last (phases s') = Receiving_head" and "head_calls s' = Suc (head_calls s)"
proof -
  let ?j = "length (contexts s) - 1"
  have j: "?j < length (contexts s)" using assms(2) by simp
  have ph: "cx_phase (contexts s ! ?j) = Receiving_head"
    using assms(2,3) by (simp add: last_conv_nth last_map)
  then have head: "cx_head (contexts s ! ?j) = HR_recieving"
    using assms(1) j by (simp add: all_armed_def armed_def)
  let ?s1 = "exec (on_head ?j (head_code os rl ERROR_OPERATION_ABORTED 0 [])) s"
  have eq: "s' = exec (on_received os rl g ?j ERROR_OPERATION_ABORTED) ?s1"
    using arming_controller.resume_cancelled [OF assms(1) j] ph by (simp add: s' controller_resume_eq)
  show "all_armed s'"
    unfolding s' cancelled_def controller_resume_eq by (rule arming_controller.resume_arms [OF assms(1) j])
  show "length (contexts s') = Suc (length (contexts s))" by (simp add: eq on_received_frame)
  show "last (phases s') = Receiving_head"
    using on_received_loop(1) [of ?j ?s1 os rl g ERROR_OPERATION_ABORTED] j by (simp add: eq)
  show "head_calls s' = Suc (head_calls s)"
    by (simp add: eq on_received_def exec_simps failed_def phases_set_context(2) next_request_calls
        cancel_code(2) [OF head, simplified])
qed

text \<open>The cancellations of the receives the controller keeps starting, each of the newest context.\<close>

lemma controller_never_rests:
  assumes "all_armed s" and "contexts s \<noteq> []" and "last (phases s) = Receiving_head"
    and "s' = serve os rl g (map (\<lambda>k. cancelled (length (contexts s) - 1 + k)) [0..<n]) s"
  shows "length (contexts s') = length (contexts s) + n \<and> last (phases s') = Receiving_head \<and>
    head_calls s' = head_calls s + n"
  using assms
proof (induction n arbitrary: s)
  case 0
  then show ?case by (simp add: serve_def)
next
  case (Suc n)
  let ?next = "exec (controller_resume os rl g (cancelled (length (contexts s) - 1))) s"
  note c = controller_cancelled [OF Suc.prems(1-3) refl, of os rl g]
  obtain m where m: "length (contexts s) = Suc m" using Suc.prems(2) by (cases "contexts s") auto
  have "map (\<lambda>k. cancelled (length (contexts s) - 1 + k)) [0..<Suc n] =
      cancelled (length (contexts s) - 1) # map (\<lambda>k. cancelled (length (contexts ?next) - 1 + k)) [0..<n]"
    unfolding c(2) by (simp add: m upt_conv_Cons map_Suc_upt [symmetric] del: upt_Suc)
  moreover have "contexts ?next \<noteq> []" using c(2) by auto
  ultimately show ?case
    using Suc.IH [OF c(1) _ c(3)] Suc.prems(4) c(2,4) by (simp add: serve_def)
qed

text \<open>
  C15: shutting the queue down does not stop the controller.  From any state it can reach, when
  each receive it has outstanding after the shutdown is cancelled in turn, every cancellation makes
  it build one more context and ask for one more request, and it is listening again: after any
  number of cancellations there is another to come, so it never comes to rest.
\<close>

theorem shutdown_never_quiets_controller:
  assumes "serving os rl g s0 s" and "contexts s0 = []"
  shows "let s1 = exec (shutdown os) s; m = length (contexts s);
      s' = serve os rl g (map (\<lambda>k. cancelled (m - 1 + k)) [0..<n]) s1
    in length (contexts s') = m + n \<and> last (phases s') = Receiving_head \<and>
       head_calls s' = head_calls s1 + n"
proof -
  let ?down = "exec (shutdown os) s"
  have "all_armed ?down" "contexts ?down \<noteq> []" "last (phases ?down) = Receiving_head"
    using serving_listens [OF assms] by simp_all
  from controller_never_rests [OF this refl, of os rl g n] show ?thesis by (simp add: Let_def)
qed

text \<open>Three cancellations after the shutdown leave four contexts, the last of them listening.\<close>

theorem shutdown_never_quiets_controller_witness:
  "let s = exec (start accepting_http_os sample_layout (\<lambda>_. 0)) sample_controller;
     s1 = exec (shutdown accepting_http_os) s;
     s' = serve accepting_http_os sample_layout (\<lambda>_. 0) [cancelled 0, cancelled 1, cancelled 2] s1
   in length (contexts s') = 4 \<and> last (phases s') = Receiving_head \<and> head_calls s' = head_calls s1 + 3"
proof -
  let ?first = "exec (start accepting_http_os sample_layout (\<lambda>_. 0)) sample_controller"
  have "contexts sample_controller = []" by (simp add: sample_controller_def)
  moreover have "length (phases ?first) = 1"
    by (simp only: start_def next_request_loop) (simp add: sample_controller_def)
  ultimately show ?thesis
    using shutdown_never_quiets_controller [OF serving.started,
        where ?s0.0 = sample_controller and n = 3 and os = accepting_http_os and rl = sample_layout and g = "\<lambda>_. 0"]
    by (simp add: Let_def upt_rec numeral_eq_Suc)
qed

end
