(* ===== verification/Named_Pipe.thy ===== *)
theory Named_Pipe
  imports Prelude
begin

text \<open>
  \<^verbatim>\<open>named_pipe/named_pipe.hpp\<close> and \<^verbatim>\<open>named_pipe/named_pipe_client_details.hpp\<close>: a named pipe as an
  asio stream handle.  The handle itself (\<open>is_open\<close>, \<open>assign\<close>, \<open>close\<close>) belongs to asio; the model
  states what its documentation says: a closed handle is \<open>INVALID_HANDLE_VALUE\<close>, and \<open>assign\<close> on
  an open handle throws.  An exception is the left value of a sum.
\<close>

section \<open>External entry points\<close>

datatype pipe_call =
    CreateNamedPipe string DWORD DWORD DWORD DWORD DWORD
  | CreateFile string DWORD DWORD DWORD
  | WaitNamedPipe string DWORD
  | SetNamedPipeHandleState HANDLE DWORD
  | ConnectNamedPipe HANDLE
  | FlushFileBuffers HANDLE
  | DisconnectNamedPipe HANDLE
  | Pipe_GetLastError
  | Printf_timeout DWORD
  | Stream_assign HANDLE
  | Stream_close HANDLE
  | Pipe_release
  | Pipe_complete error_code
  | Stream_read HANDLE nat
  | Stream_write HANDLE string

type_synonym pipe_os = "(pipe_call, reply) os"

unbundle bit_operations_syntax

abbreviation (input) PIPE_ACCESS_DUPLEX :: DWORD where "PIPE_ACCESS_DUPLEX \<equiv> 3"
abbreviation (input) FILE_FLAG_OVERLAPPED :: DWORD where "FILE_FLAG_OVERLAPPED \<equiv> 0x40000000"
abbreviation (input) PIPE_TYPE_MESSAGE :: DWORD where "PIPE_TYPE_MESSAGE \<equiv> 4"
abbreviation (input) PIPE_READMODE_MESSAGE :: DWORD where "PIPE_READMODE_MESSAGE \<equiv> 2"
abbreviation (input) PIPE_WAIT :: DWORD where "PIPE_WAIT \<equiv> 0"
abbreviation (input) PIPE_UNLIMITED_INSTANCES :: DWORD where "PIPE_UNLIMITED_INSTANCES \<equiv> 255"
abbreviation (input) GENERIC_READ :: DWORD where "GENERIC_READ \<equiv> 0x80000000"
abbreviation (input) GENERIC_WRITE :: DWORD where "GENERIC_WRITE \<equiv> 0x40000000"
abbreviation (input) OPEN_EXISTING :: DWORD where "OPEN_EXISTING \<equiv> 3"
abbreviation (input) ERROR_ALREADY_OPEN :: error_code where "ERROR_ALREADY_OPEN \<equiv> 1"

section \<open>named_pipe\<close>

record named_pipe = "(pipe_call, reply) external" +
  pipe_handle :: HANDLE

definition named_pipe_new :: named_pipe where
  "named_pipe_new = \<lparr>trace = [], violations = [], pipe_handle = INVALID_HANDLE_VALUE\<rparr>"

definition is_open :: "'z named_pipe_scheme \<Rightarrow> bool" where
  "is_open s \<longleftrightarrow> pipe_handle s \<noteq> INVALID_HANDLE_VALUE"

text \<open>asio's \<open>assign\<close>: registration with the completion port may fail as well.\<close>

definition stream_assign :: "pipe_os \<Rightarrow> HANDLE \<Rightarrow> ('z named_pipe_scheme, error_code + unit) state" where
  "stream_assign os h = do {
     already \<leftarrow> gets is_open;
     if already then ret (Inl ERROR_ALREADY_OPEN)
     else do {
       r \<leftarrow> invoke os (Stream_assign h);
       if dword r \<noteq> 0 then ret (Inl (dword r))
       else do { modify (\<lambda>s. s\<lparr>pipe_handle := h\<rparr>); ret (Inr ()) }
     }
   }"

definition stream_close :: "pipe_os \<Rightarrow> ('z named_pipe_scheme, unit) state" where
  "stream_close os = do {
     h \<leftarrow> gets pipe_handle;
     _ \<leftarrow> invoke os (Stream_close h);
     modify (\<lambda>s. s\<lparr>pipe_handle := INVALID_HANDLE_VALUE\<rparr>)
   }"

text \<open>The error code parameter after the call, or the exception of \<open>assign\<close>.\<close>

definition server_create :: "pipe_os \<Rightarrow> error_code \<Rightarrow> string \<Rightarrow>
    ('z named_pipe_scheme, error_code + error_code) state" where
  "server_create os ec endpoint = do {
     hPipe \<leftarrow> invoke os (CreateNamedPipe endpoint (PIPE_ACCESS_DUPLEX OR FILE_FLAG_OVERLAPPED)
       (PIPE_TYPE_MESSAGE OR PIPE_READMODE_MESSAGE OR PIPE_WAIT) PIPE_UNLIMITED_INSTANCES 512 512);
     if rv hPipe = INVALID_HANDLE_VALUE then do {
       e \<leftarrow> invoke os Pipe_GetLastError;
       ret (Inr (dword e)) }
     else do {
       a \<leftarrow> stream_assign os (rv hPipe);
       ret (case a of Inl x \<Rightarrow> Inl x | Inr _ \<Rightarrow> Inr ec) }
   }"

definition async_server_connect :: "pipe_os \<Rightarrow> ('z named_pipe_scheme, unit) state" where
  "async_server_connect os = do {
     h \<leftarrow> gets pipe_handle;
     fConnected \<leftarrow> invoke os (ConnectNamedPipe h);
     if truthy fConnected then do {
       e \<leftarrow> invoke os Pipe_GetLastError;
       _ \<leftarrow> invoke os (Pipe_complete (dword e));
       ret () }
     else do {
       e \<leftarrow> invoke os Pipe_GetLastError;
       if dword e = ERROR_IO_PENDING then do { _ \<leftarrow> invoke os Pipe_release; ret () }
       else if dword e = ERROR_PIPE_CONNECTED then do { _ \<leftarrow> invoke os (Pipe_complete 0); ret () }
       else do {
         e' \<leftarrow> invoke os Pipe_GetLastError;
         _ \<leftarrow> invoke os (Pipe_complete (dword e'));
         ret () }
     }
   }"

section \<open>client_connect\<close>

text \<open>
  The loop: a valid handle, or the error that ended it.  It may run for ever, so it is a
  partial function on states; \<open>None\<close> is non-termination.
\<close>

definition try_open :: "pipe_os \<Rightarrow> string \<Rightarrow> DWORD \<Rightarrow>
    ('z named_pipe_scheme, (error_code + HANDLE) option) state" where
  "try_open os endpoint timeout_ms = do {
     hPipe \<leftarrow> invoke os (CreateFile endpoint (GENERIC_READ OR GENERIC_WRITE) OPEN_EXISTING FILE_FLAG_OVERLAPPED);
     if rv hPipe \<noteq> INVALID_HANDLE_VALUE then ret (Some (Inr (rv hPipe)))
     else do {
       e \<leftarrow> invoke os Pipe_GetLastError;
       if dword e \<noteq> ERROR_PIPE_BUSY then ret (Some (Inl (dword e)))
       else do {
         ok \<leftarrow> invoke os (WaitNamedPipe endpoint timeout_ms);
         if \<not> truthy ok then do {
           _ \<leftarrow> invoke os (Printf_timeout (timeout_ms div 1000));
           e \<leftarrow> invoke os Pipe_GetLastError;
           ret (Some (Inl (dword e))) }
         else ret None
       }
     }
   }"

partial_function (option) open_loop :: "pipe_os \<Rightarrow> string \<Rightarrow> DWORD \<Rightarrow> 'z named_pipe_scheme \<Rightarrow>
    ((error_code + HANDLE) \<times> 'z named_pipe_scheme) option" where
  "open_loop os endpoint timeout_ms s =
     (case result (try_open os endpoint timeout_ms) s of
        Some r \<Rightarrow> Some (r, exec (try_open os endpoint timeout_ms) s)
      | None \<Rightarrow> open_loop os endpoint timeout_ms (exec (try_open os endpoint timeout_ms) s))"

text \<open>The out-parameters \<open>ec\<close> and \<open>pipe_ret\<close> after the call, with the state.\<close>

definition client_connect :: "pipe_os \<Rightarrow> error_code \<Rightarrow> HANDLE \<Rightarrow> string \<Rightarrow> DWORD \<Rightarrow> 'z named_pipe_scheme \<Rightarrow>
    ((error_code \<times> HANDLE) \<times> 'z named_pipe_scheme) option" where
  "client_connect os ec pipe_ret endpoint timeout_ms s =
     (case open_loop os endpoint timeout_ms s of
        None \<Rightarrow> None
      | Some (Inl e, s1) \<Rightarrow> Some ((e, pipe_ret), s1)
      | Some (Inr hPipe, s1) \<Rightarrow> Some (run_state (do {
          fSuccess \<leftarrow> invoke os (SetNamedPipeHandleState hPipe PIPE_READMODE_MESSAGE);
          if \<not> truthy fSuccess then do {
            e \<leftarrow> invoke os Pipe_GetLastError;
            ret (dword e, pipe_ret) }
          else ret (ec, hPipe) }) s1))"

text \<open>The error code after the call, or the exception of \<open>assign\<close>.\<close>

definition pipe_connect :: "pipe_os \<Rightarrow> string \<Rightarrow> error_code \<Rightarrow> DWORD \<Rightarrow> 'z named_pipe_scheme \<Rightarrow>
    ((error_code + error_code) \<times> 'z named_pipe_scheme) option" where
  "pipe_connect os endpoint ec timeout_ms s =
     (let s1 = (if is_open s then exec (stream_close os) s else s)
      in case client_connect os ec 0 endpoint timeout_ms s1 of
        None \<Rightarrow> None
      | Some ((ec', hPipe), s2) \<Rightarrow>
          if failed ec' then Some (Inr ec', s2)
          else Some (case run_state (stream_assign os hPipe) s2 of
              (Inl x, s3) \<Rightarrow> (Inl x, s3)
            | (Inr _, s3) \<Rightarrow> (Inr ec', s3)))"

text \<open>The overload that throws; its time-out is the default of the other.\<close>

definition pipe_connect_throwing :: "pipe_os \<Rightarrow> string \<Rightarrow> 'z named_pipe_scheme \<Rightarrow>
    ((error_code + unit) \<times> 'z named_pipe_scheme) option" where
  "pipe_connect_throwing os endpoint s = (case pipe_connect os endpoint 0 20000 s of
     None \<Rightarrow> None
   | Some (Inl x, s') \<Rightarrow> Some (Inl x, s')
   | Some (Inr ec, s') \<Rightarrow> Some (if failed ec then Inl ec else Inr (), s'))"

definition pipe_shutdown :: "pipe_os \<Rightarrow> error_code \<Rightarrow> ('z named_pipe_scheme, error_code) state" where
  "pipe_shutdown os ec = do {
     openp \<leftarrow> gets is_open;
     if openp then do {
       h \<leftarrow> gets pipe_handle;
       flushed \<leftarrow> invoke os (FlushFileBuffers h);
       if \<not> truthy flushed then do { e \<leftarrow> invoke os Pipe_GetLastError; ret (dword e) }
       else do {
         disconnected \<leftarrow> invoke os (DisconnectNamedPipe h);
         if \<not> truthy disconnected then do { e \<leftarrow> invoke os Pipe_GetLastError; ret (dword e) }
         else ret ec } }
     else ret ec
   }"

section \<open>Server side: settling the overlapped structure\<close>

fun pipe_settlement :: "pipe_call \<Rightarrow> error_code option option" where
  "pipe_settlement Pipe_release = Some None"
| "pipe_settlement (Pipe_complete ec) = Some (Some ec)"
| "pipe_settlement _ = None"

text \<open>
  \<open>async_server_connect\<close> settles its overlapped structure exactly once: it is left to the
  completion port exactly when the connection is pending; a client that is already connected
  completes it with success; everything else completes it with an error code that the
  platform reported after \<open>ConnectNamedPipe\<close>.
\<close>

theorem server_connect_settles_once:
  "\<exists>t. let status = dword (os (trace s @ [(ConnectNamedPipe (pipe_handle s),
        os (trace s) (ConnectNamedPipe (pipe_handle s)))]) Pipe_GetLastError)
   in observe pipe_settlement (trace (exec (async_server_connect os) s)) =
      observe pipe_settlement (trace s) @
        [if truthy (os (trace s) (ConnectNamedPipe (pipe_handle s))) then Some status
         else if status = ERROR_IO_PENDING then None
         else if status = ERROR_PIPE_CONNECTED then Some 0
         else Some (dword (os t Pipe_GetLastError))]"
  by (auto simp: async_server_connect_def exec_simps Let_def)

section \<open>Client side: the loop\<close>

text \<open>
  What a round of the loop sees of the platform, whatever the code makes of it: the handle that
  \<open>CreateFile\<close> returns when it is called after the history \<open>t\<close>, the error it leaves, and the history
  after these two calls, after a wait for the pipe, and after a message that the wait timed out.
\<close>

abbreviation (input) create_file :: "string \<Rightarrow> pipe_call" where
  "create_file ep \<equiv> CreateFile ep (GENERIC_READ OR GENERIC_WRITE) OPEN_EXISTING FILE_FLAG_OVERLAPPED"
abbreviation (input) message_mode :: "HANDLE \<Rightarrow> pipe_call" where
  "message_mode h \<equiv> SetNamedPipeHandleState h PIPE_READMODE_MESSAGE"

definition file_handle :: "pipe_os \<Rightarrow> string \<Rightarrow> (pipe_call, reply) history \<Rightarrow> HANDLE" where
  "file_handle os ep t = rv (os t (create_file ep))"

definition file_error :: "pipe_os \<Rightarrow> string \<Rightarrow> (pipe_call, reply) history \<Rightarrow> DWORD" where
  "file_error os ep t = dword (os (call_on os (create_file ep) t) Pipe_GetLastError)"

definition failed_open :: "pipe_os \<Rightarrow> string \<Rightarrow> (pipe_call, reply) history \<Rightarrow> (pipe_call, reply) history" where
  "failed_open os ep t = call_on os Pipe_GetLastError (call_on os (create_file ep) t)"

definition waited :: "pipe_os \<Rightarrow> string \<Rightarrow> DWORD \<Rightarrow> (pipe_call, reply) history \<Rightarrow> (pipe_call, reply) history" where
  "waited os ep tm t = call_on os (WaitNamedPipe ep tm) (failed_open os ep t)"

definition timed_out :: "pipe_os \<Rightarrow> string \<Rightarrow> DWORD \<Rightarrow> (pipe_call, reply) history \<Rightarrow> (pipe_call, reply) history" where
  "timed_out os ep tm t = call_on os (Printf_timeout (tm div 1000)) (waited os ep tm t)"

text \<open>
  The only reason for another round: all instances of the pipe were busy, and one became available
  before the time was over.  \<open>rounds\<close> is the history after so many rounds of this kind.
\<close>

definition busy_then_free :: "pipe_os \<Rightarrow> string \<Rightarrow> DWORD \<Rightarrow> (pipe_call, reply) history \<Rightarrow> bool" where
  "busy_then_free os ep tm t \<longleftrightarrow> file_handle os ep t = INVALID_HANDLE_VALUE \<and>
     file_error os ep t = ERROR_PIPE_BUSY \<and> truthy (os (failed_open os ep t) (WaitNamedPipe ep tm))"

definition rounds :: "pipe_os \<Rightarrow> string \<Rightarrow> DWORD \<Rightarrow> nat \<Rightarrow> (pipe_call, reply) history \<Rightarrow> (pipe_call, reply) history" where
  "rounds os ep tm n t = (waited os ep tm ^^ n) t"

text \<open>
  The end of the loop, and of \<open>client_connect\<close>, when it ends in the round that starts at \<open>t\<close>: the
  error code and the handle for the caller, given what they were before, and the history.
\<close>

definition loop_end :: "pipe_os \<Rightarrow> string \<Rightarrow> DWORD \<Rightarrow> (pipe_call, reply) history \<Rightarrow>
    (error_code + HANDLE) \<times> (pipe_call, reply) history" where
  "loop_end os ep tm t =
     (if file_handle os ep t \<noteq> INVALID_HANDLE_VALUE
      then (Inr (file_handle os ep t), call_on os (create_file ep) t)
      else if file_error os ep t \<noteq> ERROR_PIPE_BUSY then (Inl (file_error os ep t), failed_open os ep t)
      else (Inl (dword (os (timed_out os ep tm t) Pipe_GetLastError)),
            call_on os Pipe_GetLastError (timed_out os ep tm t)))"

definition connect_end :: "pipe_os \<Rightarrow> error_code \<Rightarrow> HANDLE \<Rightarrow> string \<Rightarrow> DWORD \<Rightarrow> (pipe_call, reply) history \<Rightarrow>
    (error_code \<times> HANDLE) \<times> (pipe_call, reply) history" where
  "connect_end os ec p ep tm t =
     (case loop_end os ep tm t of
        (Inl e, t') \<Rightarrow> ((e, p), t')
      | (Inr h, t') \<Rightarrow>
          let t'' = call_on os (message_mode h) t'
          in if truthy (os t' (message_mode h)) then ((ec, h), t'')
             else ((dword (os t'' Pipe_GetLastError), p), call_on os Pipe_GetLastError t''))"

lemmas round_defs = file_handle_def file_error_def failed_open_def waited_def timed_out_def call_on_def
lemmas step_defs = file_handle_def file_error_def failed_open_def waited_def timed_out_def

lemma try_open_round:
  "result (try_open os ep tm) s =
     (if busy_then_free os ep tm (trace s) then None else Some (fst (loop_end os ep tm (trace s))))"
  "exec (try_open os ep tm) s = s\<lparr>trace :=
     (if busy_then_free os ep tm (trace s) then waited os ep tm (trace s) else snd (loop_end os ep tm (trace s)))\<rparr>"
  by (auto simp: try_open_def exec_simps busy_then_free_def loop_end_def round_defs)

lemma open_loop_round:
  "open_loop os ep tm s =
     (if busy_then_free os ep tm (trace s) then open_loop os ep tm (s\<lparr>trace := waited os ep tm (trace s)\<rparr>)
      else Some (fst (loop_end os ep tm (trace s)), s\<lparr>trace := snd (loop_end os ep tm (trace s))\<rparr>))"
  by (subst open_loop.simps) (simp add: try_open_round)

lemma rounds_Suc: "rounds os ep tm (Suc n) t = rounds os ep tm n (waited os ep tm t)"
  by (simp add: rounds_def funpow_swap1)

lemma open_loop_after:
  assumes "\<And>k. k < n \<Longrightarrow> busy_then_free os ep tm (rounds os ep tm k (trace s))"
    and "\<not> busy_then_free os ep tm (rounds os ep tm n (trace s))"
  shows "open_loop os ep tm s = Some (fst (loop_end os ep tm (rounds os ep tm n (trace s))),
    s\<lparr>trace := snd (loop_end os ep tm (rounds os ep tm n (trace s)))\<rparr>)"
  using assms
proof (induction n arbitrary: s)
  case 0
  then show ?case by (subst open_loop_round) (simp add: rounds_def)
next
  case (Suc n)
  let ?s = "s\<lparr>trace := waited os ep tm (trace s)\<rparr>"
  have "busy_then_free os ep tm (trace s)" using Suc.prems(1) [of 0] by (simp add: rounds_def)
  moreover have "open_loop os ep tm ?s = Some (fst (loop_end os ep tm (rounds os ep tm n (trace ?s))),
      ?s\<lparr>trace := snd (loop_end os ep tm (rounds os ep tm n (trace ?s)))\<rparr>)"
    using Suc.prems(1) [of "Suc k" for k] Suc.prems(2) by (intro Suc.IH) (simp_all add: rounds_Suc)
  ultimately show ?case by (subst open_loop_round) (simp add: rounds_Suc)
qed

lemma open_loop_returns:
  assumes ret: "open_loop os ep tm s = Some rs"
  shows "\<exists>n. \<not> busy_then_free os ep tm (rounds os ep tm n (trace s))"
proof (rule open_loop.raw_induct
    [where P = "\<lambda>os ep tm s r. \<exists>n. \<not> busy_then_free os ep tm (rounds os ep tm n (trace s))", OF _ ret])
  fix f :: "pipe_os \<Rightarrow> string \<Rightarrow> DWORD \<Rightarrow> 'a named_pipe_scheme \<Rightarrow>
      ((error_code + HANDLE) \<times> 'a named_pipe_scheme) option" and os ep tm s rs
  assume IH: "\<And>os ep tm s rs. f os ep tm s = Some rs \<Longrightarrow> \<exists>n. \<not> busy_then_free os ep tm (rounds os ep tm n (trace s))"
    and eq: "(case result (try_open os ep tm) s of
        Some r \<Rightarrow> Some (r, exec (try_open os ep tm) s)
      | None \<Rightarrow> f os ep tm (exec (try_open os ep tm) s)) = Some rs"
  show "\<exists>n. \<not> busy_then_free os ep tm (rounds os ep tm n (trace s))"
  proof (cases "busy_then_free os ep tm (trace s)")
    case True
    with eq have "f os ep tm (s\<lparr>trace := waited os ep tm (trace s)\<rparr>) = Some rs" by (simp add: try_open_round)
    from IH [OF this] obtain n where "\<not> busy_then_free os ep tm (rounds os ep tm (Suc n) (trace s))"
      by (auto simp: rounds_Suc)
    then show ?thesis by blast
  next
    case False
    then show ?thesis by (intro exI [of _ 0]) (simp add: rounds_def)
  qed
qed

text \<open>The round in which the loop ends.\<close>

lemma open_loop_ends:
  assumes "open_loop os ep tm s = Some (r, s')"
  obtains n t where "t = rounds os ep tm n (trace s)" and "\<not> busy_then_free os ep tm t"
    and "\<And>k. k < n \<Longrightarrow> busy_then_free os ep tm (rounds os ep tm k (trace s))"
    and "r = fst (loop_end os ep tm t)" and "s' = s\<lparr>trace := snd (loop_end os ep tm t)\<rparr>"
proof -
  obtain n where n: "\<not> busy_then_free os ep tm (rounds os ep tm n (trace s))"
    "\<And>k. k < n \<Longrightarrow> busy_then_free os ep tm (rounds os ep tm k (trace s))"
    using open_loop_returns [OF assms]
      exists_least_iff [of "\<lambda>n. \<not> busy_then_free os ep tm (rounds os ep tm n (trace s))"] by blast
  from open_loop_after [OF n(2,1)] assms that [OF refl n] show ?thesis by simp
qed

lemma client_connect_loop:
  "client_connect os ec p ep tm s = (case open_loop os ep tm s of
     None \<Rightarrow> None
   | Some (Inl e, s') \<Rightarrow> Some ((e, p), s')
   | Some (Inr h, s') \<Rightarrow>
       let t'' = call_on os (message_mode h) (trace s')
       in Some (if truthy (os (trace s') (message_mode h)) then ((ec, h), s'\<lparr>trace := t''\<rparr>)
          else ((dword (os t'' Pipe_GetLastError), p), s'\<lparr>trace := call_on os Pipe_GetLastError t''\<rparr>)))"
  by (auto simp: client_connect_def run_state_exec_result exec_simps call_on_def Let_def
      split: option.split sum.split)

text \<open>
  C24: \<open>client_connect\<close> returns exactly when some round is the last: a round goes on only when the
  pipe was busy and the wait for it succeeded, so the call does not return exactly when
  every round finds the pipe busy again after a wait that succeeded, and there is no bound on the
  number of rounds.  When it returns, the first other round decides.  A handle is returned,
  with the error code untouched, when the pipe could be opened and set to message mode;
  an error with the handle untouched otherwise: the error of \<open>CreateFile\<close> when the pipe was not
  busy, what the last error is after the message when the wait timed out, or the error of setting
  the mode.  The calls made are exactly those of these rounds.
\<close>

theorem client_connect_returns_iff:
  "(client_connect os ec p ep tm s \<noteq> None \<longleftrightarrow>
      (\<exists>n. \<not> busy_then_free os ep tm (rounds os ep tm n (trace s)))) \<and>
   (\<forall>n t. t = rounds os ep tm n (trace s) \<and> \<not> busy_then_free os ep tm t \<and>
        (\<forall>k < n. busy_then_free os ep tm (rounds os ep tm k (trace s))) \<longrightarrow>
      client_connect os ec p ep tm s =
        Some (fst (connect_end os ec p ep tm t), s\<lparr>trace := snd (connect_end os ec p ep tm t)\<rparr>))"
proof -
  have last: "client_connect os ec p ep tm s =
      Some (fst (connect_end os ec p ep tm t), s\<lparr>trace := snd (connect_end os ec p ep tm t)\<rparr>)"
    if "t = rounds os ep tm n (trace s)" "\<not> busy_then_free os ep tm t"
      "\<And>k. k < n \<Longrightarrow> busy_then_free os ep tm (rounds os ep tm k (trace s))" for n t
    using open_loop_after [OF that(3)] that(1,2)
    by (auto simp: client_connect_loop connect_end_def Let_def split: prod.split sum.split)
  moreover have "client_connect os ec p ep tm s \<noteq> None" if "\<exists>n. \<not> busy_then_free os ep tm (rounds os ep tm n (trace s))"
    using that last exists_least_iff [of "\<lambda>n. \<not> busy_then_free os ep tm (rounds os ep tm n (trace s))"] by blast
  moreover have "\<exists>n. \<not> busy_then_free os ep tm (rounds os ep tm n (trace s))" if "client_connect os ec p ep tm s \<noteq> None"
    using that open_loop_returns by (cases "open_loop os ep tm s") (auto simp: client_connect_loop)
  ultimately show ?thesis by blast
qed

text \<open>
  A platform on which the pipe is busy for the first two attempts, of three calls each, and one
  on which it stays busy and the wait times out with an error that the message leaves alone.
\<close>

fun twice_busy_os :: pipe_os where
  "twice_busy_os t (CreateFile _ _ _ _) = answer (if length t < 6 then - 1 else 9)"
| "twice_busy_os t Pipe_GetLastError = answer 231"
| "twice_busy_os t (Stream_assign _) = answer 0"
| "twice_busy_os t _ = answer 1"

fun timeout_os :: pipe_os where
  "timeout_os t (CreateFile _ _ _ _) = answer (- 1)"
| "timeout_os t Pipe_GetLastError = answer (if length t = 1 then 231 else 121)"
| "timeout_os t _ = answer 0"

lemma length_call_on [simp]: "length (call_on os c t) = Suc (length t)"
  by (simp add: call_on_def)

lemma twice_busy_round:
  "busy_then_free twice_busy_os ep tm t \<longleftrightarrow> length t < 6"
  "length (waited twice_busy_os ep tm t) = length t + 3"
  by (auto simp: busy_then_free_def waited_def failed_open_def file_handle_def file_error_def truthy_def dword_def)

lemma twice_busy:
  "k < 2 \<Longrightarrow> busy_then_free twice_busy_os ep tm (rounds twice_busy_os ep tm k [])"
  "\<not> busy_then_free twice_busy_os ep tm (rounds twice_busy_os ep tm 2 [])"
  by (auto simp: rounds_def numeral_2_eq_2 less_Suc_eq twice_busy_round)

lemma twice_busy_file: "\<not> length t < 6 \<Longrightarrow> fst (loop_end twice_busy_os ep tm t) = Inr 9"
  by (simp add: loop_end_def file_handle_def)

lemma twice_busy_loop:
  assumes "trace s = []"
  shows "\<exists>s'. open_loop twice_busy_os ep tm s = Some (Inr 9, s')"
proof -
  have "length (rounds twice_busy_os ep tm 2 []) = 6"
    by (simp add: rounds_def numeral_2_eq_2 twice_busy_round)
  then show ?thesis
    using open_loop_after [of 2 twice_busy_os ep tm s] twice_busy twice_busy_file by (simp add: assms)
qed

theorem client_connect_returns_iff_witness:
  "(\<exists>s'. client_connect twice_busy_os 0 0 ''p'' 20000 named_pipe_new = Some ((0, 9), s')) \<and>
   (\<exists>s'. client_connect timeout_os 0 0 ''p'' 20000 named_pipe_new = Some ((121, 0), s'))"
proof -
  have t: "trace named_pipe_new = []" by (simp add: named_pipe_new_def)
  let ?t = "rounds twice_busy_os ''p'' 20000 2 []"
  have "length ?t = 6" by (simp add: rounds_def numeral_2_eq_2 twice_busy_round)
  then have "fst (connect_end twice_busy_os 0 0 ''p'' 20000 ?t) = (0, 9)"
    by (simp add: connect_end_def loop_end_def file_handle_def truthy_def Let_def)
  moreover have "fst (connect_end timeout_os 0 0 ''p'' 20000 []) = (121, 0)" "\<not> busy_then_free timeout_os ''p'' 20000 []"
    by (simp_all add: connect_end_def loop_end_def round_defs busy_then_free_def truthy_def dword_def)
  moreover have "rounds timeout_os ''p'' 20000 0 [] = []" by (simp add: rounds_def)
  ultimately show ?thesis
    using client_connect_returns_iff [of twice_busy_os 0 0 "''p''" 20000 named_pipe_new]
      client_connect_returns_iff [of timeout_os 0 0 "''p''" 20000 named_pipe_new] twice_busy
    unfolding t by (metis not_less_zero)
qed

section \<open>Client side: what becomes of the handle\<close>

fun disposed :: "pipe_call \<Rightarrow> HANDLE option" where
  "disposed (Stream_assign h) = Some h"
| "disposed (Stream_close h) = Some h"
| "disposed _ = None"

abbreviation "disposals s \<equiv> observe disposed (trace s)"

lemma waited_disposals: "observe disposed (waited os ep tm t) = observe disposed t"
  by (simp add: round_defs)

lemma rounds_disposals: "observe disposed (rounds os ep tm n t) = observe disposed t"
  by (induction n) (simp_all add: rounds_def waited_disposals)

lemma loop_end_disposals: "observe disposed (snd (loop_end os ep tm t)) = observe disposed t"
  by (simp add: loop_end_def round_defs)

lemma open_loop_state:
  assumes "open_loop os ep tm s = Some (r, s')"
  shows "disposals s' = disposals s \<and> pipe_handle s' = pipe_handle s"
proof -
  from assms obtain n t where "t = rounds os ep tm n (trace s)" "s' = s\<lparr>trace := snd (loop_end os ep tm t)\<rparr>"
    by (rule open_loop_ends)
  then show ?thesis by (simp add: loop_end_disposals rounds_disposals)
qed

text \<open>The read mode cannot be set, and the platform reports an error for it.\<close>

definition mode_fails :: "pipe_os \<Rightarrow> HANDLE \<Rightarrow> 'z named_pipe_scheme \<Rightarrow> bool" where
  "mode_fails os h s \<longleftrightarrow> \<not> truthy (os (trace s) (SetNamedPipeHandleState h PIPE_READMODE_MESSAGE)) \<and>
     failed (dword (os (trace s @ [(SetNamedPipeHandleState h PIPE_READMODE_MESSAGE,
       os (trace s) (SetNamedPipeHandleState h PIPE_READMODE_MESSAGE))]) Pipe_GetLastError))"

text \<open>
  C40: \<open>connect\<close> leaks the handle it opened in two cases: when the read mode cannot be set, and,
  even on full success, when the caller's error code was not clear on entry, because the code
  tests it without having cleared it.  The opened handle is then neither assigned to the pipe
  nor closed, and the pipe stays closed.
\<close>

theorem connect_leaks_handle:
  assumes "\<not> is_open s" and "open_loop os ep tm s = Some (Inr h, s1)"
    and "mode_fails os h s1 \<or> failed ec \<and> truthy (os (trace s1) (SetNamedPipeHandleState h PIPE_READMODE_MESSAGE))"
  shows "\<exists>e s'. pipe_connect os ep ec tm s = Some (Inr e, s') \<and> failed e \<and> \<not> is_open s' \<and>
    disposals s' = disposals s"
  using assms open_loop_state [OF assms(2)]
  by (auto simp: pipe_connect_def client_connect_def Let_def mode_fails_def run_state_exec_result
      exec_simps is_open_def)

theorem connect_leaks_handle_witness:
  "\<exists>e s'. pipe_connect twice_busy_os ''p'' 5 20000 named_pipe_new = Some (Inr e, s') \<and> failed e \<and>
     \<not> is_open s' \<and> disposals s' = []"
proof -
  obtain s1 where "open_loop twice_busy_os ''p'' 20000 named_pipe_new = Some (Inr 9, s1)"
    using twice_busy_loop [of named_pipe_new] by (auto simp: named_pipe_new_def)
  from connect_leaks_handle [OF _ this, of 5] show ?thesis
    by (simp add: is_open_def named_pipe_new_def failed_def truthy_def)
qed

text \<open>
  Documented: \<open>GetLastError\<close> directly after a call that failed is not \<open>0\<close>.  Nothing is said about its
  value after other calls, \<open>printf\<close> for instance.
\<close>

fun pipe_call_failed :: "pipe_call \<Rightarrow> reply \<Rightarrow> bool" where
  "pipe_call_failed (CreateNamedPipe _ _ _ _ _ _) r = (rv r = INVALID_HANDLE_VALUE)"
| "pipe_call_failed (CreateFile _ _ _ _) r = (rv r = INVALID_HANDLE_VALUE)"
| "pipe_call_failed (WaitNamedPipe _ _) r = (\<not> truthy r)"
| "pipe_call_failed (SetNamedPipeHandleState _ _) r = (\<not> truthy r)"
| "pipe_call_failed (FlushFileBuffers _) r = (\<not> truthy r)"
| "pipe_call_failed (DisconnectNamedPipe _) r = (\<not> truthy r)"
| "pipe_call_failed _ r = False"

definition pipe_errors_reported :: "pipe_os \<Rightarrow> bool" where
  "pipe_errors_reported os \<longleftrightarrow> (\<forall>t c. pipe_call_failed c (os t c) \<longrightarrow>
     failed (dword (os (call_on os c t) Pipe_GetLastError)))"

lemma create_pipe_error:
  assumes "pipe_errors_reported os" and "rv (os t (CreateNamedPipe ep m ty n i o')) = INVALID_HANDLE_VALUE"
  shows "failed (dword (os (t @ [(CreateNamedPipe ep m ty n i o', os t (CreateNamedPipe ep m ty n i o'))]) Pipe_GetLastError))"
  using assms by (simp add: pipe_errors_reported_def call_on_def)

text \<open>The handles that \<open>CreateFile\<close> opened, those set to message mode, and the waits that timed out.\<close>

fun file_opened :: "pipe_call \<times> reply \<Rightarrow> HANDLE option" where
  "file_opened (CreateFile _ _ _ _, r) = (if rv r = INVALID_HANDLE_VALUE then None else Some (rv r))"
| "file_opened _ = None"

fun mode_changed :: "pipe_call \<times> reply \<Rightarrow> HANDLE option" where
  "mode_changed (SetNamedPipeHandleState h m, r) = (if truthy r \<and> m = PIPE_READMODE_MESSAGE then Some h else None)"
| "mode_changed _ = None"

fun wait_failed :: "pipe_call \<times> reply \<Rightarrow> unit option" where
  "wait_failed (WaitNamedPipe _ _, r) = (if truthy r then None else Some ())"
| "wait_failed _ = None"

abbreviation "opened_files s \<equiv> List.map_filter file_opened (trace s)"
abbreviation "message_pipes s \<equiv> List.map_filter mode_changed (trace s)"
abbreviation "failed_waits s \<equiv> List.map_filter wait_failed (trace s)"

lemma map_filter_append [simp]: "List.map_filter f (xs @ ys) = List.map_filter f xs @ List.map_filter f ys"
  by (simp add: List.map_filter_def)

lemma map_filter_call_on [simp]:
  "List.map_filter f (call_on os c t) = List.map_filter f t @
     (case f (c, os t c) of None \<Rightarrow> [] | Some y \<Rightarrow> [y])"
  by (simp add: call_on_def List.map_filter_simps split: option.split)

lemma waited_events:
  assumes "busy_then_free os ep tm t"
  shows "List.map_filter file_opened (waited os ep tm t) = List.map_filter file_opened t"
    and "List.map_filter mode_changed (waited os ep tm t) = List.map_filter mode_changed t"
    and "List.map_filter wait_failed (waited os ep tm t) = List.map_filter wait_failed t"
  using assms by (simp_all add: busy_then_free_def step_defs)

lemma rounds_events:
  assumes "\<And>k. k < n \<Longrightarrow> busy_then_free os ep tm (rounds os ep tm k t)"
  shows "List.map_filter file_opened (rounds os ep tm n t) = List.map_filter file_opened t \<and>
    List.map_filter mode_changed (rounds os ep tm n t) = List.map_filter mode_changed t \<and>
    List.map_filter wait_failed (rounds os ep tm n t) = List.map_filter wait_failed t"
  using assms
proof (induction n arbitrary: t)
  case 0
  then show ?case by (simp add: rounds_def)
next
  case (Suc n)
  have "busy_then_free os ep tm t" using Suc.prems [of 0] by (simp add: rounds_def)
  moreover have "busy_then_free os ep tm (rounds os ep tm k (waited os ep tm t))" if "k < n" for k
    using Suc.prems [of "Suc k"] that by (simp add: rounds_Suc)
  ultimately show ?case using Suc.IH [of "waited os ep tm t"] by (simp add: rounds_Suc waited_events)
qed

lemma loop_end_file:
  assumes "loop_end os ep tm t = (Inr h, t')"
  shows "h \<noteq> INVALID_HANDLE_VALUE" and "List.map_filter file_opened t' = List.map_filter file_opened t @ [h]"
    and "List.map_filter mode_changed t' = List.map_filter mode_changed t"
    and "List.map_filter wait_failed t' = List.map_filter wait_failed t"
  using assms by (auto simp: loop_end_def step_defs split: if_splits)

text \<open>The loop fails: with an error, unless the wait timed out, after which nothing is known of it.\<close>

lemma loop_end_error:
  assumes "loop_end os ep tm t = (Inl e, t')" and "\<not> busy_then_free os ep tm t" and "pipe_errors_reported os"
  shows "List.map_filter file_opened t' = List.map_filter file_opened t"
    and "List.map_filter wait_failed t' = List.map_filter wait_failed t \<Longrightarrow> failed e"
proof -
  have handle: "file_handle os ep t = INVALID_HANDLE_VALUE" using assms(1) by (auto simp: loop_end_def split: if_splits)
  then have "failed (file_error os ep t)"
    using assms(3) by (simp add: pipe_errors_reported_def file_handle_def file_error_def)
  then show "List.map_filter file_opened t' = List.map_filter file_opened t"
    and "List.map_filter wait_failed t' = List.map_filter wait_failed t \<Longrightarrow> failed e"
    using assms(1,2) handle
    by (auto simp: loop_end_def busy_then_free_def step_defs split: if_splits)
qed

lemma client_connect_success:
  assumes ret: "client_connect os 0 0 ep tm s = Some ((0, h), s')" and rep: "pipe_errors_reported os"
  shows "h \<noteq> INVALID_HANDLE_VALUE \<and>
    (if failed_waits s' = failed_waits s
     then opened_files s' = opened_files s @ [h] \<and> message_pipes s' = message_pipes s @ [h]
     else h = 0 \<and> opened_files s' = opened_files s)"
proof -
  from ret obtain r s1 where open_loop: "open_loop os ep tm s = Some (r, s1)"
    by (auto simp: client_connect_loop split: option.splits)
  then obtain n t where t: "t = rounds os ep tm n (trace s)" "\<not> busy_then_free os ep tm t"
    and before: "\<And>k. k < n \<Longrightarrow> busy_then_free os ep tm (rounds os ep tm k (trace s))"
    and r: "r = fst (loop_end os ep tm t)" and s1: "s1 = s\<lparr>trace := snd (loop_end os ep tm t)\<rparr>"
    using that by (rule open_loop_ends) blast
  note events = rounds_events [OF before, of n, folded t(1)]
  show ?thesis
  proof (cases r)
    case (Inl e)
    with r have fin: "loop_end os ep tm t = (Inl e, trace s1)" by (simp add: s1 prod_eq_iff)
    from ret open_loop Inl have "e = 0" "h = 0" "s' = s1" by (auto simp: client_connect_loop)
    with loop_end_error [OF fin t(2) rep] events show ?thesis by (auto simp: failed_def)
  next
    case (Inr g)
    with r have fin: "loop_end os ep tm t = (Inr g, trace s1)" by (simp add: s1 prod_eq_iff)
    let ?m = "SetNamedPipeHandleState g PIPE_READMODE_MESSAGE"
    have "truthy (os (trace s1) ?m)"
    proof (rule ccontr)
      assume f: "\<not> truthy (os (trace s1) ?m)"
      with rep have "failed (dword (os (call_on os ?m (trace s1)) Pipe_GetLastError))"
        by (simp add: pipe_errors_reported_def)
      with ret open_loop Inr f show False by (auto simp: client_connect_loop Let_def failed_def)
    qed
    with ret open_loop Inr have "h = g" "s' = s1\<lparr>trace := call_on os ?m (trace s1)\<rparr>"
      "truthy (os (trace s1) ?m)"
      by (auto simp: client_connect_loop Let_def)
    with loop_end_file [OF fin] events show ?thesis by simp
  qed
qed

lemma client_connect_state:
  assumes "client_connect os ec p ep tm s = Some (r, s')"
  shows "disposals s' = disposals s \<and> pipe_handle s' = pipe_handle s"
proof -
  obtain r1 s1 where "open_loop os ep tm s = Some (r1, s1)"
    using assms by (auto simp: client_connect_loop split: option.splits)
  with assms open_loop_state [OF this] show ?thesis
    by (auto simp: client_connect_loop Let_def call_on_def split: sum.splits if_splits)
qed

text \<open>
  C25: with a clear error code \<open>connect\<close> reports success exactly when the pipe ends up open; an
  earlier handle was closed first, and the new one is assigned exactly once.  Unless a wait timed
  out, the handle the pipe then holds is the one that \<open>CreateFile\<close> opened, the only one it opened, and
  this very handle was set to message mode.  When the wait timed out the error is read only
  after the message was printed, about which nothing is documented: if it is \<open>0\<close> by then,
  \<open>connect\<close> reports success and the pipe holds the null handle, though no file was opened.
\<close>

theorem connect_success_iff_open:
  assumes "pipe_connect os ep 0 tm s = Some (Inr e, s')" and "pipe_errors_reported os"
  shows "(e = 0 \<longleftrightarrow> is_open s') \<and>
    disposals s' = disposals s @ (if is_open s then [pipe_handle s] else []) @
      (if is_open s' then [pipe_handle s'] else []) \<and>
    (is_open s' \<longrightarrow>
      (if failed_waits s' = failed_waits s
       then opened_files s' = opened_files s @ [pipe_handle s'] \<and>
         message_pipes s' = message_pipes s @ [pipe_handle s']
       else pipe_handle s' = 0 \<and> opened_files s' = opened_files s))"
proof -
  define s1 where "s1 = (if is_open s then exec (stream_close os) s else s)"
  have s1: "\<not> is_open s1" "disposals s1 = disposals s @ (if is_open s then [pipe_handle s] else [])"
    "opened_files s1 = opened_files s" "message_pipes s1 = message_pipes s" "failed_waits s1 = failed_waits s"
    by (simp_all add: s1_def stream_close_def exec_simps is_open_def List.map_filter_simps)
  obtain ec h s2 where conn: "client_connect os 0 0 ep tm s1 = Some ((ec, h), s2)"
    using assms(1) by (auto simp: pipe_connect_def s1_def [symmetric] Let_def split: option.splits)
  note s2 = client_connect_state [OF conn]
  show ?thesis
  proof (cases "failed ec")
    case True
    then have "e = ec" "s' = s2" using assms(1) conn by (simp_all add: pipe_connect_def s1_def [symmetric] Let_def)
    with True s1 s2 show ?thesis by (simp add: is_open_def failed_def)
  next
    case False
    then have "ec = 0" by (simp add: failed_def)
    note h = client_connect_success [OF conn [unfolded this] assms(2)]
    have "\<not> is_open s2" using s1(1) s2 by (simp add: is_open_def)
    then have "e = 0" "s' = s2\<lparr>pipe_handle := h, trace := call_on os (Stream_assign h) (trace s2)\<rparr>"
      using assms(1) conn False \<open>ec = 0\<close>
      by (auto simp: pipe_connect_def s1_def [symmetric] Let_def stream_assign_def run_state_exec_result
          exec_simps call_on_def split: if_splits)
    with h s1 s2 show ?thesis by (simp add: is_open_def call_on_def List.map_filter_simps)
  qed
qed

text \<open>A platform on which the wait times out and printing the message clears the last error.\<close>

fun cleared_os :: pipe_os where
  "cleared_os t (CreateFile _ _ _ _) = answer (- 1)"
| "cleared_os t Pipe_GetLastError = answer (case rev t of (Printf_timeout _, _) # _ \<Rightarrow> 0 | _ \<Rightarrow> 231)"
| "cleared_os t _ = answer 0"

theorem connect_success_iff_open_witness:
  "(\<exists>s'. pipe_connect twice_busy_os ''p'' 0 20000 named_pipe_new = Some (Inr 0, s') \<and>
     disposals s' = [9] \<and> message_pipes s' = [9]) \<and>
   (\<exists>s'. pipe_connect cleared_os ''p'' 0 20000 named_pipe_new = Some (Inr 0, s') \<and> is_open s' \<and>
     opened_files s' = [])"
proof (rule conjI)
  obtain s1 where "open_loop twice_busy_os ''p'' 20000 named_pipe_new = Some (Inr 9, s1)"
    using twice_busy_loop [of named_pipe_new] by (auto simp: named_pipe_new_def)
  with open_loop_state [OF this]
  have "\<exists>s'. pipe_connect twice_busy_os ''p'' 0 20000 named_pipe_new = Some (Inr 0, s') \<and> pipe_handle s' = 9"
    by (simp add: pipe_connect_def client_connect_def named_pipe_new_def is_open_def
        run_state_exec_result exec_simps stream_assign_def truthy_def dword_def)
  then obtain s' where s': "pipe_connect twice_busy_os ''p'' 0 20000 named_pipe_new = Some (Inr 0, s')"
    "pipe_handle s' = 9" by blast
  from connect_success_iff_open [OF s'(1)] s'
  show "\<exists>s'. pipe_connect twice_busy_os ''p'' 0 20000 named_pipe_new = Some (Inr 0, s') \<and>
      disposals s' = [9] \<and> message_pipes s' = [9]"
    by (simp add: pipe_errors_reported_def dword_def failed_def named_pipe_new_def is_open_def List.map_filter_simps
        split: if_splits)
next
  have "\<exists>s'. pipe_connect cleared_os ''p'' 0 20000 named_pipe_new = Some (Inr 0, s') \<and>
      failed_waits s' \<noteq> failed_waits named_pipe_new"
    by (simp add: pipe_connect_def client_connect_loop open_loop_round busy_then_free_def loop_end_def round_defs
        named_pipe_new_def is_open_def run_state_exec_result exec_simps stream_assign_def truthy_def dword_def
        failed_def List.map_filter_simps)
  then obtain s' where s': "pipe_connect cleared_os ''p'' 0 20000 named_pipe_new = Some (Inr 0, s')"
    "failed_waits s' \<noteq> failed_waits named_pipe_new" by blast
  have "pipe_errors_reported cleared_os"
    by (auto simp: pipe_errors_reported_def call_on_def failed_def dword_def elim!: pipe_call_failed.elims)
  from connect_success_iff_open [OF s'(1) this] s'
  show "\<exists>s'. pipe_connect cleared_os ''p'' 0 20000 named_pipe_new = Some (Inr 0, s') \<and> is_open s' \<and>
      opened_files s' = []"
    by (simp add: named_pipe_new_def List.map_filter_simps)
qed

end
