(* ===== verification/Named_Pipe_Acceptor.thy ===== *)
theory Named_Pipe_Acceptor
  imports Named_Pipe "HOL-Library.Multiset"
begin

text \<open>
  \<^verbatim>\<open>named_pipe/named_pipe_acceptor.hpp\<close> with its two \<open>async_accept\<close> overloads, and the servers of
  \<^verbatim>\<open>examples/named_pipe\<close> that run on them: \<open>server\<close>, which accepts into a pipe of its own,
  \<open>server_movable\<close>, which is handed a pipe, and the echo \<open>session\<close>.
\<close>

section \<open>async_accept\<close>

text \<open>
  The overloads differ in the pipe they create, the user's or the acceptor's own \<open>pipe_\<close>: it is
  the pipe of the state.  The initiation ends in one of three ways; when the pipe cannot be
  created the handler runs inside it, with the error.
\<close>

datatype accept_outcome =
    Accept_threw error_code
  | Handler_called error_code
  | Accept_started

definition async_accept :: "pipe_os \<Rightarrow> string \<Rightarrow> ('z named_pipe_scheme, accept_outcome) state" where
  "async_accept os endpoint = do {
     r \<leftarrow> server_create os 0 endpoint;
     (case r of
        Inl x \<Rightarrow> ret (Accept_threw x)
      | Inr ec \<Rightarrow>
          if failed ec then ret (Handler_called ec)
          else do { async_server_connect os; ret Accept_started })
   }"

text \<open>\<open>std::move(pipe)\<close>: the handle, which the source loses.\<close>

definition move_pipe :: "('z named_pipe_scheme, HANDLE) state" where
  "move_pipe = do {
     h \<leftarrow> gets pipe_handle;
     modify (\<lambda>s. s\<lparr>pipe_handle := INVALID_HANDLE_VALUE\<rparr>);
     ret h
   }"

text \<open>The overload that moves: its handler is called with the pipe as well, also after an error.\<close>

datatype move_accept_outcome =
    Move_threw error_code
  | Move_handler_called error_code HANDLE
  | Move_started

definition async_accept_move :: "pipe_os \<Rightarrow> string \<Rightarrow> ('z named_pipe_scheme, move_accept_outcome) state" where
  "async_accept_move os endpoint = do {
     r \<leftarrow> server_create os 0 endpoint;
     (case r of
        Inl x \<Rightarrow> ret (Move_threw x)
      | Inr ec \<Rightarrow>
          if failed ec then do { h \<leftarrow> move_pipe; ret (Move_handler_called ec h) }
          else do { async_server_connect os; ret Move_started })
   }"

section \<open>The servers\<close>

text \<open>\<open>sessions\<close> are the pipes that sessions were made with, \<open>crashed\<close> the exceptions that escaped.\<close>

record pipe_server = named_pipe +
  endpoint :: string
  waiting :: bool
  sessions :: "HANDLE list"
  crashed :: "error_code list"

text \<open>\<open>socket\<close>, the handler's parameter, is destroyed at its end unless a session took it.\<close>

definition destroy_pipe :: "pipe_os \<Rightarrow> HANDLE \<Rightarrow> ('z named_pipe_scheme, unit) state" where
  "destroy_pipe os h = only_if (h \<noteq> INVALID_HANDLE_VALUE) (do { _ \<leftarrow> invoke os (Stream_close h); ret () })"

definition set_waiting :: "bool \<Rightarrow> (pipe_server, unit) state" where
  "set_waiting b = modify (\<lambda>s. s\<lparr>waiting := b\<rparr>)"

definition make_session :: "HANDLE \<Rightarrow> (pipe_server, unit) state" where
  "make_session h = modify (\<lambda>s. s\<lparr>sessions := sessions s @ [h]\<rparr>)"

text \<open>
  \<open>do_accept\<close> of \<open>server\<close>: the handler calls \<open>do_accept\<close> again, inside the call when the pipe
  cannot be created, which may recurse for ever.
\<close>

partial_function (option) do_accept :: "pipe_os \<Rightarrow> pipe_server \<Rightarrow> pipe_server option" where
  "do_accept os s = (case result (async_accept os (endpoint s)) s of
     Accept_threw x \<Rightarrow> Some ((exec (async_accept os (endpoint s)) s)
       \<lparr>crashed := crashed (exec (async_accept os (endpoint s)) s) @ [x]\<rparr>)
   | Accept_started \<Rightarrow> Some (exec (do { _ \<leftarrow> async_accept os (endpoint s); set_waiting True }) s)
   | Handler_called ec \<Rightarrow> do_accept os (exec (async_accept os (endpoint s)) s))"

text \<open>The handler of \<open>server\<close> when the connection completes.\<close>

definition on_accepted :: "pipe_os \<Rightarrow> error_code \<Rightarrow> pipe_server \<Rightarrow> pipe_server option" where
  "on_accepted os ec s = do_accept os (exec (do {
     set_waiting False;
     only_if (\<not> failed ec) (do { h \<leftarrow> move_pipe; make_session h })
   }) s)"

text \<open>\<open>do_accept\<close> and the handler of \<open>server_movable\<close>.\<close>

partial_function (option) do_accept_movable :: "pipe_os \<Rightarrow> pipe_server \<Rightarrow> pipe_server option" where
  "do_accept_movable os s = (case result (async_accept_move os (endpoint s)) s of
     Move_threw x \<Rightarrow> Some ((exec (async_accept_move os (endpoint s)) s)
       \<lparr>crashed := crashed (exec (async_accept_move os (endpoint s)) s) @ [x]\<rparr>)
   | Move_started \<Rightarrow> Some (exec (do { _ \<leftarrow> async_accept_move os (endpoint s); set_waiting True }) s)
   | Move_handler_called ec h \<Rightarrow>
       do_accept_movable os (exec (do { _ \<leftarrow> async_accept_move os (endpoint s); destroy_pipe os h }) s))"

definition on_accepted_movable :: "pipe_os \<Rightarrow> error_code \<Rightarrow> pipe_server \<Rightarrow> pipe_server option" where
  "on_accepted_movable os ec s = do_accept_movable os (exec (do {
     set_waiting False;
     h \<leftarrow> move_pipe;
     if \<not> failed ec then make_session h else destroy_pipe os h
   }) s)"

text \<open>The acceptor keeps its end point and a pipe that is not open; nothing has been accepted.\<close>

definition named_pipe_acceptor_new :: "string \<Rightarrow> pipe_server" where
  "named_pipe_acceptor_new ep = \<lparr>trace = [], violations = [], pipe_handle = INVALID_HANDLE_VALUE, endpoint = ep,
     waiting = False, sessions = [], crashed = []\<rparr>"

declare named_pipe_acceptor_new_def [simp]

definition server_new :: "string \<Rightarrow> pipe_server" where
  "server_new ep = named_pipe_acceptor_new ep"

definition server_movable_new :: "pipe_os \<Rightarrow> string \<Rightarrow> pipe_server option" where
  "server_movable_new os ep = do_accept_movable os (named_pipe_acceptor_new ep)"

text \<open>
  The two \<open>main\<close> functions: the constructor of the server accepts, \<open>io_context::run\<close> then delivers the
  completions.
\<close>

abbreviation (input) pipe_name :: string where
  "pipe_name \<equiv> [CHR 0x5C, CHR 0x5C, CHR 0x2E, CHR 0x5C] @ ''pipe'' @ [CHR 0x5C] @ ''mynamedpipe''"

definition echoserver_main :: "pipe_os \<Rightarrow> pipe_server option" where
  "echoserver_main os = do_accept os (server_new pipe_name)"

definition echoserver_movable_main :: "pipe_os \<Rightarrow> pipe_server option" where
  "echoserver_movable_main os = server_movable_new os pipe_name"

section \<open>The echo session\<close>

abbreviation (input) max_length :: nat where "max_length \<equiv> 1024"

record echo_session = named_pipe +
  sdata :: string

definition session_do_read :: "pipe_os \<Rightarrow> ('z echo_session_scheme, unit) state" where
  "session_do_read os = do {
     h \<leftarrow> gets pipe_handle;
     _ \<leftarrow> invoke os (Stream_read h max_length);
     ret ()
   }"

text \<open>\<open>async_write\<close> writes the whole buffer, the first \<open>length\<close> bytes of \<open>data_\<close>.\<close>

definition session_do_write :: "pipe_os \<Rightarrow> nat \<Rightarrow> ('z echo_session_scheme, unit) state" where
  "session_do_write os n = do {
     h \<leftarrow> gets pipe_handle;
     d \<leftarrow> gets sdata;
     _ \<leftarrow> invoke os (Stream_write h (take n d));
     ret ()
   }"

definition session_start :: "pipe_os \<Rightarrow> ('z echo_session_scheme, unit) state" where
  "session_start os = session_do_read os"

text \<open>A completed read has stored \<open>xs\<close> at the start of \<open>data_\<close>.\<close>

datatype session_event =
    Read_done error_code string
  | Write_done error_code

fun session_resume :: "pipe_os \<Rightarrow> session_event \<Rightarrow> ('z echo_session_scheme, unit) state" where
  "session_resume os (Read_done ec xs) = do {
     modify (\<lambda>s. s\<lparr>sdata := xs @ drop (length xs) (sdata s)\<rparr>);
     only_if (\<not> failed ec) (session_do_write os (length xs))
   }"
| "session_resume os (Write_done ec) = only_if (\<not> failed ec) (session_do_read os)"

section \<open>The movable server accounts for every pipe\<close>

text \<open>The pipes that were created, and those that were closed.\<close>

fun created_pipe :: "pipe_call \<times> reply \<Rightarrow> HANDLE option" where
  "created_pipe (CreateNamedPipe _ _ _ _ _ _, r) =
     (if rv r = INVALID_HANDLE_VALUE then None else Some (rv r))"
| "created_pipe _ = None"

definition created :: "(pipe_call, reply) history \<Rightarrow> HANDLE list" where
  "created t = List.map_filter created_pipe t"

lemma created_simps [simp]:
  "created [] = []"
  "created (t @ u) = created t @ created u"
  "created (e # t) = (case created_pipe e of None \<Rightarrow> created t | Some h \<Rightarrow> h # created t)"
  by (simp_all add: created_def List.map_filter_def split: option.splits)

fun closed_pipe :: "pipe_call \<Rightarrow> HANDLE option" where
  "closed_pipe (Stream_close h) = Some h"
| "closed_pipe _ = None"

abbreviation "closed s \<equiv> observe closed_pipe (trace s)"

text \<open>
  Each pipe is in exactly one place: with a session, closed, or in the acceptor, and it is in
  the acceptor exactly while a connection is awaited.
\<close>

definition pipes_accounted :: "pipe_server \<Rightarrow> bool" where
  "pipes_accounted s \<longleftrightarrow> mset (created (trace s)) = mset (sessions s) + mset (closed s) +
     mset (if is_open s then [pipe_handle s] else [])"

definition server_inv :: "pipe_server \<Rightarrow> bool" where
  "server_inv s \<longleftrightarrow> pipes_accounted s \<and> crashed s = [] \<and> (waiting s \<longleftrightarrow> is_open s)"

text \<open>asio can register the handles, and failed calls leave an error.\<close>

definition pipes_usable :: "pipe_os \<Rightarrow> bool" where
  "pipes_usable os \<longleftrightarrow> (\<forall>t h. dword (os t (Stream_assign h)) = 0) \<and> pipe_errors_reported os"

lemma server_connect_frame:
  "created (trace (exec (async_server_connect os) s)) = created (trace s)"
  "closed (exec (async_server_connect os) s) = closed s"
  "pipe_handle (exec (async_server_connect os) s) = pipe_handle s"
  "sessions (exec (async_server_connect os) s') = sessions s'"
  "crashed (exec (async_server_connect os) s') = crashed s'"
  "waiting (exec (async_server_connect os) s') = waiting s'"
  by (simp_all add: async_server_connect_def exec_simps)

text \<open>One call of \<open>async_accept\<close> on a closed acceptor.\<close>

lemma accept_move_step:
  fixes s :: pipe_server
  assumes "pipes_usable os" and "\<not> is_open s"
  shows "case result (async_accept_move os ep) s of
      Move_threw x \<Rightarrow> False
    | Move_started \<Rightarrow> is_open (exec (async_accept_move os ep) s) \<and> created (trace (exec (async_accept_move os ep) s)) = created (trace s) @ [pipe_handle (exec (async_accept_move os ep) s)]
    | Move_handler_called ec h \<Rightarrow> \<not> is_open (exec (async_accept_move os ep) s) \<and> h = INVALID_HANDLE_VALUE \<and> failed ec \<and>
        created (trace (exec (async_accept_move os ep) s)) = created (trace s)"
    and "closed (exec (async_accept_move os ep) s) = closed s" "sessions (exec (async_accept_move os ep) s) = sessions s" "crashed (exec (async_accept_move os ep) s) = crashed s" "waiting (exec (async_accept_move os ep) s) = waiting s"
  using assms
  by (auto simp: async_accept_move_def server_create_def stream_assign_def exec_simps move_pipe_def
      is_open_def server_connect_frame pipes_usable_def create_pipe_error)

text \<open>What the server does with the pipe it holds before it accepts again.\<close>

definition release_pipe :: "pipe_os \<Rightarrow> error_code \<Rightarrow> (pipe_server, unit) state" where
  "release_pipe os ec = do {
     set_waiting False;
     h \<leftarrow> move_pipe;
     if \<not> failed ec then make_session h else destroy_pipe os h
   }"

lemma release_pipe_step:
  assumes "server_inv s" and "is_open s"
  shows "server_inv (exec (release_pipe os ec) s) \<and> \<not> is_open (exec (release_pipe os ec) s)"
  using assms
  by (simp add: release_pipe_def exec_simps set_waiting_def move_pipe_def make_session_def
      destroy_pipe_def server_inv_def pipes_accounted_def is_open_def)

text \<open>The invariant survives every attempt to accept, however many of them fail.\<close>

lemma failed_attempt:
  assumes usable: "pipes_usable os" and inv: "server_inv s" and "\<not> is_open s"
    and res: "result (async_accept_move os ep) s = Move_handler_called ec h"
  defines "s1 \<equiv> exec (do { _ \<leftarrow> async_accept_move os ep; destroy_pipe os h }) s"
  shows "server_inv s1 \<and> \<not> is_open s1"
proof -
  note st = accept_move_step [OF usable \<open>\<not> is_open s\<close>, of ep]
  from st(1) res have h: "h = INVALID_HANDLE_VALUE" and "\<not> is_open (exec (async_accept_move os ep) s)"
    and "created (trace (exec (async_accept_move os ep) s)) = created (trace s)"
    by simp_all
  moreover have "s1 = exec (async_accept_move os ep) s"
    using h by (simp add: s1_def exec_simps destroy_pipe_def)
  ultimately show ?thesis
    using inv \<open>\<not> is_open s\<close> st(2-) by (simp add: server_inv_def pipes_accounted_def)
qed

lemma started_attempt:
  assumes usable: "pipes_usable os" and inv: "server_inv s" and "\<not> is_open s"
    and res: "result (async_accept_move os ep) s = Move_started"
  defines "s1 \<equiv> exec (do { _ \<leftarrow> async_accept_move os ep; set_waiting True }) s"
  shows "server_inv s1 \<and> is_open s1"
proof -
  note st = accept_move_step [OF usable \<open>\<not> is_open s\<close>, of ep]
  from st(1) res have "is_open (exec (async_accept_move os ep) s)"
    and "created (trace (exec (async_accept_move os ep) s)) =
      created (trace s) @ [pipe_handle (exec (async_accept_move os ep) s)]"
    by simp_all
  then show ?thesis
    using inv \<open>\<not> is_open s\<close> st(2-)
    by (simp add: s1_def exec_simps set_waiting_def server_inv_def pipes_accounted_def is_open_def)
qed

lemma accept_movable_inv:
  assumes ret: "do_accept_movable os s = Some s'"
  shows "pipes_usable os \<longrightarrow> server_inv s \<longrightarrow> \<not> is_open s \<longrightarrow> server_inv s' \<and> is_open s'"
proof (rule do_accept_movable.raw_induct [where P = "\<lambda>os s s'. pipes_usable os \<longrightarrow> server_inv s \<longrightarrow>
    \<not> is_open s \<longrightarrow> server_inv s' \<and> is_open s'", OF _ ret])
  fix f :: "pipe_os \<Rightarrow> pipe_server \<Rightarrow> pipe_server option" and os s s'
  assume IH: "\<And>os s s'. f os s = Some s' \<Longrightarrow> pipes_usable os \<longrightarrow> server_inv s \<longrightarrow> \<not> is_open s \<longrightarrow>
      server_inv s' \<and> is_open s'"
    and eq: "(case result (async_accept_move os (endpoint s)) s of
        Move_threw x \<Rightarrow> Some ((exec (async_accept_move os (endpoint s)) s)
          \<lparr>crashed := crashed (exec (async_accept_move os (endpoint s)) s) @ [x]\<rparr>)
      | Move_handler_called ec h \<Rightarrow>
          f os (exec (do { _ \<leftarrow> async_accept_move os (endpoint s); destroy_pipe os h }) s)
      | Move_started \<Rightarrow> Some (exec (do { _ \<leftarrow> async_accept_move os (endpoint s); set_waiting True }) s)) = Some s'"
  show "pipes_usable os \<longrightarrow> server_inv s \<longrightarrow> \<not> is_open s \<longrightarrow> server_inv s' \<and> is_open s'"
  proof (intro impI)
    assume pre: "pipes_usable os" "server_inv s" "\<not> is_open s"
    show "server_inv s' \<and> is_open s'"
    proof (cases "result (async_accept_move os (endpoint s)) s")
      case (Move_threw x)
      with accept_move_step(1) [OF pre(1,3), of "endpoint s"] show ?thesis by simp
    next
      case (Move_handler_called ec h)
      with eq have "f os (exec (do { _ \<leftarrow> async_accept_move os (endpoint s); destroy_pipe os h }) s) = Some s'"
        by simp
      from IH [OF this] failed_attempt [OF pre Move_handler_called] pre(1) show ?thesis by blast
    next
      case Move_started
      with eq started_attempt [OF pre Move_started] show ?thesis by auto
    qed
  qed
qed

text \<open>The states of \<open>server_movable\<close> while connections complete.\<close>

inductive movable_run :: "pipe_os \<Rightarrow> string \<Rightarrow> pipe_server \<Rightarrow> bool" for os ep where
  movable_start: "do_accept_movable os (server_new ep) = Some s \<Longrightarrow> movable_run os ep s"
| movable_accepted: "movable_run os ep s \<Longrightarrow> on_accepted_movable os ec s = Some s' \<Longrightarrow> movable_run os ep s'"

lemma on_accepted_movable_eq:
  "on_accepted_movable os ec s = do_accept_movable os (exec (release_pipe os ec) s)"
  by (simp add: on_accepted_movable_def release_pipe_def)

lemma server_new_inv: "server_inv (server_new ep) \<and> \<not> is_open (server_new ep)"
  by (simp add: server_inv_def pipes_accounted_def server_new_def is_open_def)

text \<open>
  C19: \<open>server_movable\<close> neither leaks nor loses a pipe: whenever it runs, after any connections and
  failures in any order, no exception has escaped, a connection is awaited on an open pipe, and
  every pipe ever created is in exactly one place: with a session, closed, or awaited on.
\<close>

theorem movable_server_accounts:
  assumes "movable_run os ep s" and "pipes_usable os"
  shows "crashed s = [] \<and> waiting s \<and> is_open s \<and>
    mset (created (trace s)) = mset (sessions s) + mset (closed s) + {#pipe_handle s#}"
proof -
  from assms(1) have "server_inv s \<and> is_open s"
  proof induction
    case (movable_start s)
    then show ?case using accept_movable_inv server_new_inv assms(2) by blast
  next
    case (movable_accepted s ec s')
    then show ?case
      using accept_movable_inv release_pipe_step assms(2) unfolding on_accepted_movable_eq by blast
  qed
  then show ?thesis by (simp add: server_inv_def pipes_accounted_def)
qed

text \<open>A platform that numbers the pipes by the calls made before.\<close>

fun numbering_pipe_os :: pipe_os where
  "numbering_pipe_os t (CreateNamedPipe _ _ _ _ _ _) = answer (word_of_nat (length t))"
| "numbering_pipe_os t (Stream_assign _) = answer 0"
| "numbering_pipe_os t (ConnectNamedPipe _) = answer 0"
| "numbering_pipe_os t Pipe_GetLastError = answer 997"
| "numbering_pipe_os t _ = answer 1"

lemma numbering_usable: "pipes_usable numbering_pipe_os"
  by (simp add: pipes_usable_def pipe_errors_reported_def dword_def failed_def)

lemmas server_run_simps = async_accept_move_def async_accept_def server_create_def stream_assign_def
  async_server_connect_def set_waiting_def move_pipe_def make_session_def destroy_pipe_def
  exec_simps is_open_def dword_def truthy_def failed_def

theorem movable_server_accounts_witness:
  "\<exists>s. movable_run numbering_pipe_os ''p'' s \<and> sessions s = [0] \<and> is_open s \<and>
     mset (created (trace s)) = {#0#} + {#pipe_handle s#}"
proof -
  define s1 where "s1 = exec (do { _ \<leftarrow> async_accept_move numbering_pipe_os ''p''; set_waiting True })
    (server_new ''p'')"
  have one: "do_accept_movable numbering_pipe_os (server_new ''p'') = Some s1"
    unfolding s1_def by (subst do_accept_movable.simps) (simp add: server_run_simps server_new_def)
  then have run1: "movable_run numbering_pipe_os ''p'' s1" by (rule movable_start)
  have "\<exists>s2. on_accepted_movable numbering_pipe_os 0 s1 = Some s2 \<and> sessions s2 = [0] \<and> closed s2 = []"
    unfolding on_accepted_movable_def
    by (subst do_accept_movable.simps) (simp add: s1_def server_run_simps server_new_def)
  then obtain s2 where two: "on_accepted_movable numbering_pipe_os 0 s1 = Some s2"
    and s2: "sessions s2 = [0]" "closed s2 = []" by blast
  from movable_accepted [OF run1 two] have run2: "movable_run numbering_pipe_os ''p'' s2" .
  from movable_server_accounts [OF run2 numbering_usable] run2 s2 show ?thesis by auto
qed

section \<open>The plain server and its pipe\<close>

text \<open>The call that creates the next pipe, and whether it succeeds.\<close>

abbreviation "create_call ep \<equiv> CreateNamedPipe ep (PIPE_ACCESS_DUPLEX OR FILE_FLAG_OVERLAPPED)
  (PIPE_TYPE_MESSAGE OR PIPE_READMODE_MESSAGE OR PIPE_WAIT) PIPE_UNLIMITED_INSTANCES 512 512"

text \<open>
  C38: \<open>server\<close> survives exactly the connections that succeed: when the next pipe can be created, a
  successful connection hands the pipe to a session and the server waits on the new one; after a
  failed connection the old pipe is still open, so assigning the new one throws
  ``already open'' out of the handler, the server stops accepting, and the new pipe leaks.
\<close>

theorem server_survives_iff_connected:
  assumes "pipes_usable os" and "is_open s"
    and "rv (os (trace s) (create_call (endpoint s))) = h" and "h \<noteq> INVALID_HANDLE_VALUE"
  shows "\<exists>s'. on_accepted os ec s = Some s' \<and> created (trace s') = created (trace s) @ [h] \<and>
    closed s' = closed s \<and>
    (if failed ec
     then crashed s' = crashed s @ [ERROR_ALREADY_OPEN] \<and> \<not> waiting s' \<and>
       sessions s' = sessions s \<and> pipe_handle s' = pipe_handle s
     else crashed s' = crashed s \<and> waiting s' \<and>
       sessions s' = sessions s @ [pipe_handle s] \<and> pipe_handle s' = h)"
  using assms unfolding on_accepted_def
  by (subst do_accept.simps)
    (simp add: async_accept_def server_create_def stream_assign_def set_waiting_def move_pipe_def
      make_session_def exec_simps is_open_def pipes_usable_def server_connect_frame)

theorem server_survives_iff_connected_witness:
  "\<exists>s'. on_accepted numbering_pipe_os 109 ((server_new ''p'')\<lparr>pipe_handle := 7, waiting := True\<rparr>) = Some s' \<and>
     crashed s' = [ERROR_ALREADY_OPEN] \<and> \<not> waiting s'"
  using server_survives_iff_connected [OF numbering_usable,
      where s = "(server_new ''p'')\<lparr>pipe_handle := 7, waiting := True\<rparr>" and ec = 109 and h = 0]
  by (auto simp: server_new_def is_open_def failed_def)

section \<open>Accepting may never return\<close>

text \<open>
  C39: when no pipe can ever be created, \<open>do_accept\<close> of \<open>server_movable\<close> does not return: each attempt
  calls the handler with the error, and the handler attempts again inside that call, without
  going back to the event loop.
\<close>

theorem accept_never_returns:
  assumes never: "\<And>t ep. rv (os t (create_call ep)) = INVALID_HANDLE_VALUE"
    and reported: "pipe_errors_reported os"
  shows "do_accept_movable os s = None"
proof (rule ccontr)
  assume "do_accept_movable os s \<noteq> None"
  then obtain s' where ret: "do_accept_movable os s = Some s'" by blast
  have "os \<noteq> os"
  proof (rule do_accept_movable.raw_induct [where P = "\<lambda>os' s s'. os' \<noteq> os", OF _ ret])
    fix f :: "pipe_os \<Rightarrow> pipe_server \<Rightarrow> pipe_server option" and os' s s'
    assume IH: "\<And>os' s s'. f os' s = Some s' \<Longrightarrow> os' \<noteq> os"
      and eq: "(case result (async_accept_move os' (endpoint s)) s of
          Move_threw x \<Rightarrow> Some ((exec (async_accept_move os' (endpoint s)) s)
            \<lparr>crashed := crashed (exec (async_accept_move os' (endpoint s)) s) @ [x]\<rparr>)
        | Move_handler_called ec h \<Rightarrow>
            f os' (exec (do { _ \<leftarrow> async_accept_move os' (endpoint s); destroy_pipe os' h }) s)
        | Move_started \<Rightarrow> Some (exec (do { _ \<leftarrow> async_accept_move os' (endpoint s); set_waiting True }) s)) = Some s'"
    show "os' \<noteq> os"
    proof
      assume "os' = os"
      then have "\<exists>ec h. result (async_accept_move os' (endpoint s)) s = Move_handler_called ec h"
        using never reported
        by (simp add: async_accept_move_def server_create_def exec_simps create_pipe_error reported)
      with eq obtain s'' where "f os' s'' = Some s'" by auto
      from IH [OF this] \<open>os' = os\<close> show False by simp
    qed
  qed
  then show False by simp
qed

text \<open>A platform that refuses every pipe.\<close>

fun no_pipe_os :: pipe_os where
  "no_pipe_os t (CreateNamedPipe _ _ _ _ _ _) = answer (- 1)"
| "no_pipe_os t _ = answer 231"

theorem accept_never_returns_witness: "do_accept_movable no_pipe_os (server_new ''p'') = None"
  by (rule accept_never_returns) (simp_all add: pipe_errors_reported_def failed_def dword_def)

section \<open>The session echoes\<close>

fun written_bytes :: "pipe_call \<Rightarrow> (HANDLE \<times> string) option" where
  "written_bytes (Stream_write h xs) = Some (h, xs)"
| "written_bytes _ = None"

fun read_asked :: "pipe_call \<Rightarrow> (HANDLE \<times> nat) option" where
  "read_asked (Stream_read h n) = Some (h, n)"
| "read_asked _ = None"

abbreviation "written s \<equiv> observe written_bytes (trace s)"
abbreviation "asked_reads s \<equiv> observe read_asked (trace s)"

definition session_run :: "pipe_os \<Rightarrow> session_event list \<Rightarrow> 'z echo_session_scheme \<Rightarrow> 'z echo_session_scheme" where
  "session_run os es s = fold (\<lambda>e. exec (session_resume os e)) es s"

definition echo_events :: "string list \<Rightarrow> session_event list" where
  "echo_events cs = concat (map (\<lambda>c. [Read_done 0 c, Write_done 0]) cs)"

lemma echo_round:
  assumes "length c \<le> length (sdata s)"
  shows "let s' = exec (session_resume os (Write_done 0)) (exec (session_resume os (Read_done 0 c)) s)
    in written s' = written s @ [(pipe_handle s, c)] \<and>
       asked_reads s' = asked_reads s @ [(pipe_handle s, max_length)] \<and>
       pipe_handle s' = pipe_handle s \<and> length (sdata s') = length (sdata s)"
  using assms by (simp add: Let_def exec_simps session_do_write_def session_do_read_def)

lemma echo_rounds:
  "(\<And>c. c \<in> set cs \<Longrightarrow> length c \<le> length (sdata s)) \<Longrightarrow>
   written (session_run os (echo_events cs) s) = written s @ map (Pair (pipe_handle s)) cs \<and>
   asked_reads (session_run os (echo_events cs) s) =
     asked_reads s @ replicate (length cs) (pipe_handle s, max_length) \<and>
   pipe_handle (session_run os (echo_events cs) s) = pipe_handle s \<and>
   length (sdata (session_run os (echo_events cs) s)) = length (sdata s)"
proof (induction cs arbitrary: s)
  case (Cons c cs)
  let ?s = "exec (session_resume os (Write_done 0)) (exec (session_resume os (Read_done 0 c)) s)"
  have "session_run os (echo_events (c # cs)) s = session_run os (echo_events cs) ?s"
    by (simp add: session_run_def echo_events_def)
  with Cons.IH [of ?s] Cons.prems echo_round [of c s os] show ?case
    by (simp add: Let_def)
qed (simp_all add: session_run_def echo_events_def)

text \<open>
  A session echoes: every chunk a read delivers is written back, complete and in order, to the
  pipe it came from, before the next read is asked for; reads are for the size of the
  buffer, which no chunk overruns; and after the read that fails nothing more is asked for.
\<close>

theorem session_echoes:
  assumes "\<And>c. c \<in> set cs \<Longrightarrow> length c \<le> length (sdata s)" and "failed e"
  shows "let s' = session_run os (echo_events cs @ [Read_done e []]) (exec (session_start os) s)
    in written s' = written s @ map (Pair (pipe_handle s)) cs \<and>
       asked_reads s' = asked_reads s @ replicate (Suc (length cs)) (pipe_handle s, max_length) \<and>
       length (sdata s') = length (sdata s)"
proof -
  let ?s = "exec (session_start os) s"
  have s: "written ?s = written s" "asked_reads ?s = asked_reads s @ [(pipe_handle s, max_length)]"
    "pipe_handle ?s = pipe_handle s" "sdata ?s = sdata s"
    by (simp_all add: session_start_def session_do_read_def exec_simps)
  have last: "session_run os (echo_events cs @ [Read_done e []]) ?s = session_run os (echo_events cs) ?s"
    using assms(2) by (simp add: session_run_def exec_simps)
  from echo_rounds [of cs ?s os] assms(1) s show ?thesis
    unfolding last by (simp add: Let_def)
qed

theorem session_echoes_witness:
  "let s = \<lparr>trace = [], violations = [], pipe_handle = 7, sdata = replicate 1024 (CHR 0x00)\<rparr>;
     s' = session_run numbering_pipe_os (echo_events [''ab'', ''c''] @ [Read_done 109 []])
       (exec (session_start numbering_pipe_os) s)
   in written s' = [(7, ''ab''), (7, ''c'')] \<and> length (asked_reads s') = 3"
proof -
  let ?s = "\<lparr>trace = [], violations = [], pipe_handle = 7, sdata = replicate 1024 (CHR 0x00)\<rparr> :: echo_session"
  have "\<And>c. c \<in> set [''ab'', ''c''] \<Longrightarrow> length c \<le> length (sdata ?s)" by auto
  moreover have "failed 109" by (simp add: failed_def)
  ultimately show ?thesis
    using session_echoes [of "[''ab'', ''c'']" ?s 109 numbering_pipe_os] by (simp add: Let_def)
qed

end
