(* ===== verification/Beast_Server.thy ===== *)
theory Beast_Server
  imports Named_Pipe_Acceptor Http_Convert
begin

text \<open>
  \<^verbatim>\<open>examples/named_pipe/http/beast_server.cpp\<close>: an HTTP server on Boost.Beast whose sockets are named
  pipes.  A connection reads one request, answers it and shuts the pipe down; a timer closes the
  pipe of a connection that takes too long.  Beast is external: a message is its fields, as far
  as the code sets or reads them, and \<open>outbox\<close> are the messages handed to \<open>http::async_write\<close>.
\<close>

section \<open>Messages\<close>

datatype verb = Verb_get | Verb_other

datatype field = Field_server | Field_content_type

record beast_request =
  rq_version :: nat
  rq_method :: verb
  rq_method_string :: string
  rq_target :: string

record beast_response =
  rs_version :: nat
  rs_keep_alive :: bool
  rs_result :: nat
  rs_fields :: "field \<Rightarrow> string option"
  rs_body :: string
  rs_content_length :: "nat option"

abbreviation (input) status_ok :: nat where "status_ok \<equiv> 200"
abbreviation (input) status_bad_request :: nat where "status_bad_request \<equiv> 400"
abbreviation (input) status_not_found :: nat where "status_not_found \<equiv> 404"

definition set_field :: "field \<Rightarrow> string \<Rightarrow> beast_response \<Rightarrow> beast_response" where
  "set_field f v r = r\<lparr>rs_fields := (rs_fields r)(f \<mapsto> v)\<rparr>"

text \<open>\<open>beast::ostream(response_.body()) << text\<close> appends.\<close>

definition write_text :: "string \<Rightarrow> beast_response \<Rightarrow> beast_response" where
  "write_text t r = r\<lparr>rs_body := rs_body r @ t\<rparr>"

abbreviation (input) nl :: string where "nl \<equiv> [CHR 0x0A]"

section \<open>The pages\<close>

text \<open>\<open>my_program_state::request_count\<close>: the value it returns is the count it leaves.\<close>

definition next_count :: "size_t \<Rightarrow> size_t" where
  "next_count c = c + 1"

definition count_page :: "size_t \<Rightarrow> string" where
  "count_page n = ''<html>'' @ nl @ ''<head><title>Request count</title></head>'' @ nl @
     ''<body>'' @ nl @ ''<h1>Request count</h1>'' @ nl @
     ''<p>There have been '' @ decimal_chars (unat n) @ '' requests so far.</p>'' @ nl @
     ''</body>'' @ nl @ ''</html>'' @ nl"

definition time_page :: "nat \<Rightarrow> string" where
  "time_page now = ''<html>'' @ nl @ ''<head><title>Current time</title></head>'' @ nl @
     ''<body>'' @ nl @ ''<h1>Current time</h1>'' @ nl @
     ''<p>The current time is '' @ decimal_chars now @ '' seconds since the epoch.</p>'' @ nl @
     ''</body>'' @ nl @ ''</html>'' @ nl"

definition create_response :: "nat \<Rightarrow> beast_request \<Rightarrow> beast_response \<times> size_t \<Rightarrow> beast_response \<times> size_t" where
  "create_response now rq x = (case x of (r, c) \<Rightarrow>
     if rq_target rq = ''/count'' then
       (write_text (count_page (next_count c)) (set_field Field_content_type ''text/html'' r), next_count c)
     else if rq_target rq = ''/time'' then
       (write_text (time_page now) (set_field Field_content_type ''text/html'' r), c)
     else
       (write_text (''File not found'' @ [CHR 0x0D] @ nl)
          (set_field Field_content_type ''text/plain'' (r\<lparr>rs_result := status_not_found\<rparr>)), c))"

definition process_message :: "nat \<Rightarrow> beast_request \<Rightarrow> beast_response \<times> size_t \<Rightarrow> beast_response \<times> size_t" where
  "process_message now rq x = (case x of (r, c) \<Rightarrow>
     let r = r\<lparr>rs_version := rq_version rq, rs_keep_alive := False\<rparr>
     in case rq_method rq of
          Verb_get \<Rightarrow>
            create_response now rq (set_field Field_server ''Beast'' (r\<lparr>rs_result := status_ok\<rparr>), c)
        | Verb_other \<Rightarrow>
            (write_text (''Invalid request-method '' @ [CHR 0x27] @ rq_method_string rq @ [CHR 0x27])
               (set_field Field_content_type ''text/plain'' (r\<lparr>rs_result := status_bad_request\<rparr>)), c))"

section \<open>A connection\<close>

text \<open>\<open>reading\<close>, \<open>writing\<close> and \<open>deadline\<close> tell which asynchronous operations are outstanding.\<close>

record beast_connection = named_pipe +
  request :: beast_request
  response :: beast_response
  counter :: size_t
  outbox :: "beast_response list"
  reading :: bool
  writing :: bool
  deadline :: bool

definition read_request :: "('z beast_connection_scheme, unit) state" where
  "read_request = modify (\<lambda>s. s\<lparr>reading := True\<rparr>)"

definition check_deadline :: "('z beast_connection_scheme, unit) state" where
  "check_deadline = modify (\<lambda>s. s\<lparr>deadline := True\<rparr>)"

definition beast_start :: "('z beast_connection_scheme, unit) state" where
  "beast_start = do { read_request; check_deadline }"

definition write_response :: "('z beast_connection_scheme, unit) state" where
  "write_response = do {
     modify (\<lambda>s. s\<lparr>response := (response s)\<lparr>rs_content_length := Some (length (rs_body (response s)))\<rparr>\<rparr>);
     modify (\<lambda>s. s\<lparr>outbox := outbox s @ [response s], writing := True\<rparr>)
   }"

definition process_request :: "nat \<Rightarrow> ('z beast_connection_scheme, unit) state" where
  "process_request now = do {
     modify (\<lambda>s. let (r, n) = process_message now (request s) (response s, counter s)
       in s\<lparr>response := r, counter := n\<rparr>);
     write_response
   }"

text \<open>The completions: a read with the message it parsed, a write, the timer.\<close>

datatype beast_event =
    Request_read error_code beast_request
  | Response_written error_code
  | Deadline_reached error_code

text \<open>\<open>shutdown(ec)\<close> works on the handler's own error code; closing a closed pipe does nothing.\<close>

fun beast_handler :: "pipe_os \<Rightarrow> nat \<Rightarrow> beast_event \<Rightarrow> ('z beast_connection_scheme, unit) state" where
  "beast_handler os now (Request_read ec rq) = do {
     modify (\<lambda>s. s\<lparr>reading := False, request := rq\<rparr>);
     only_if (\<not> failed ec) (process_request now)
   }"
| "beast_handler os now (Response_written ec) = do {
     modify (\<lambda>s. s\<lparr>writing := False\<rparr>);
     _ \<leftarrow> pipe_shutdown os ec;
     modify (\<lambda>s. s\<lparr>deadline := False\<rparr>)
   }"
| "beast_handler os now (Deadline_reached ec) = do {
     modify (\<lambda>s. s\<lparr>deadline := False\<rparr>);
     openp \<leftarrow> gets is_open;
     only_if (\<not> failed ec \<and> openp) (stream_close os)
   }"

text \<open>Only outstanding operations complete.\<close>

fun outstanding :: "beast_event \<Rightarrow> 'z beast_connection_scheme \<Rightarrow> bool" where
  "outstanding (Request_read _ _) s = reading s"
| "outstanding (Response_written _) s = writing s"
| "outstanding (Deadline_reached _) s = deadline s"

inductive beast_run :: "pipe_os \<Rightarrow> beast_connection \<Rightarrow> beast_connection \<Rightarrow> bool" for os s0 where
  beast_started: "beast_run os s0 (exec beast_start s0)"
| beast_completed: "beast_run os s0 s \<Longrightarrow> outstanding e s \<Longrightarrow>
    beast_run os s0 (exec (beast_handler os now e) s)"

definition new_response :: beast_response where
  "new_response = \<lparr>rs_version = 11, rs_keep_alive = True, rs_result = status_ok, rs_fields = Map.empty,
     rs_body = [], rs_content_length = None\<rparr>"

definition new_connection :: "beast_connection \<Rightarrow> bool" where
  "new_connection s \<longleftrightarrow> response s = new_response \<and> outbox s = [] \<and> \<not> reading s \<and> \<not> writing s \<and> \<not> deadline s"

section \<open>Each request is answered once\<close>

text \<open>What the server promises: status, content type and body.\<close>

fun page :: "nat \<Rightarrow> size_t \<Rightarrow> beast_request \<Rightarrow> nat \<times> string \<times> string" where
  "page now c rq =
     (if rq_method rq = Verb_other then
        (status_bad_request, ''text/plain'', ''Invalid request-method '' @ [CHR 0x27] @ rq_method_string rq @ [CHR 0x27])
      else if rq_target rq = ''/count'' then (status_ok, ''text/html'', count_page (c + 1))
      else if rq_target rq = ''/time'' then (status_ok, ''text/html'', time_page now)
      else (status_not_found, ''text/plain'', ''File not found'' @ [CHR 0x0D] @ nl))"

definition answers :: "nat \<Rightarrow> size_t \<Rightarrow> beast_request \<Rightarrow> beast_response \<Rightarrow> bool" where
  "answers now c rq m \<longleftrightarrow> (rs_result m, the (rs_fields m Field_content_type), rs_body m) = page now c rq \<and>
     rs_version m = rq_version rq \<and> \<not> rs_keep_alive m \<and> rs_content_length m = Some (length (rs_body m))"

lemma process_message_answers:
  assumes "process_message now rq (new_response, c) = (r, c')"
  shows "answers now c rq (r\<lparr>rs_content_length := Some (length (rs_body r))\<rparr>)"
  using assms
  by (cases "rq_method rq")
    (auto simp: process_message_def create_response_def answers_def set_field_def write_text_def
      new_response_def next_count_def Let_def split: if_splits)

definition steps_left :: "'z beast_connection_scheme \<Rightarrow> nat" where
  "steps_left s = (if reading s then 2 else 0) + (if writing s then 1 else 0) + (if deadline s then 1 else 0)"

definition answered :: "size_t \<Rightarrow> 'z beast_connection_scheme \<Rightarrow> bool" where
  "answered c s \<longleftrightarrow>
     (if outbox s = [] then \<not> writing s \<and> counter s = c \<and> response s = new_response
      else \<not> reading s \<and> (\<exists>now m. outbox s = [m] \<and> answers now c (request s) m))"

lemma more_pipe:
  assumes "named_pipe.more s' = named_pipe.more s"
  shows "request s' = request s" "response s' = response s" "counter s' = counter s" "outbox s' = outbox s"
    "reading s' = reading s" "writing s' = writing s" "deadline s' = deadline s"
  using assms by (cases s; cases s'; simp)+

lemma pipe_ops_more:
  "named_pipe.more (exec (pipe_shutdown os ec) s) = named_pipe.more s"
  "named_pipe.more (exec (stream_close os) s) = named_pipe.more s"
  by (simp_all add: pipe_shutdown_def stream_close_def exec_simps)

lemmas pipe_ops_fields = pipe_ops_more(1) [THEN more_pipe(1)] pipe_ops_more(1) [THEN more_pipe(2)]
  pipe_ops_more(1) [THEN more_pipe(3)] pipe_ops_more(1) [THEN more_pipe(4)]
  pipe_ops_more(1) [THEN more_pipe(5)] pipe_ops_more(1) [THEN more_pipe(6)]
  pipe_ops_more(2) [THEN more_pipe(1)] pipe_ops_more(2) [THEN more_pipe(2)]
  pipe_ops_more(2) [THEN more_pipe(3)] pipe_ops_more(2) [THEN more_pipe(4)]
  pipe_ops_more(2) [THEN more_pipe(5)] pipe_ops_more(2) [THEN more_pipe(6)]
  pipe_ops_more(1) [THEN more_pipe(7)] pipe_ops_more(2) [THEN more_pipe(7)]

lemma handler_answers:
  assumes "answered c s" and "outstanding e s"
  shows "answered c (exec (beast_handler os now e) s)"
proof (cases e)
  case (Request_read ec rq)
  obtain r c' where p: "process_message now rq (new_response, c) = (r, c')"
    by (cases "process_message now rq (new_response, c)")
  from process_message_answers [OF p] assms Request_read show ?thesis
    by (auto simp: answered_def process_request_def write_response_def exec_simps p split: if_splits)
next
  case (Response_written ec)
  with assms show ?thesis
    by (auto simp: answered_def exec_simps pipe_ops_fields split: if_splits)
next
  case (Deadline_reached ec)
  with assms show ?thesis
    by (auto simp: answered_def exec_simps pipe_ops_fields split: if_splits)
qed

lemma handler_steps:
  assumes "outstanding e s"
  shows "steps_left (exec (beast_handler os now e) s) < steps_left s"
  using assms
  by (cases e) (auto simp: steps_left_def process_request_def write_response_def exec_simps Let_def
      pipe_ops_fields split: prod.split)

lemma beast_run_answers:
  assumes "beast_run os s0 s" and "new_connection s0"
  shows "\<forall>m \<in> set (outbox s). \<exists>now. answers now (counter s0) (request s) m" and "length (outbox s) \<le> 1"
    and "steps_left s \<le> 3"
proof -
  have "answered (counter s0) s \<and> steps_left s \<le> 3"
    using assms(1)
  proof induction
    case beast_started
    show ?case
      using assms(2)
      by (simp add: beast_start_def read_request_def check_deadline_def exec_simps answered_def
          new_connection_def steps_left_def)
  next
    case (beast_completed s e now)
    then show ?case using handler_answers handler_steps [of e s os now] by fastforce
  qed
  then show "\<forall>m \<in> set (outbox s). \<exists>now. answers now (counter s0) (request s) m" "length (outbox s) \<le> 1"
    "steps_left s \<le> 3"
    by (auto simp: answered_def split: if_splits)
qed

text \<open>
  Each connection answers its request once: however its read, its write and its timer complete,
  at most one response is written, after at most three completions nothing is outstanding, and
  the response is the one promised for the method and target of the request, with its
  version, its content length, and the next number when it asks for the count.
\<close>

theorem beast_connection_answers_once:
  assumes "beast_run os s0 s" and "new_connection s0"
  shows "steps_left s \<le> 3 \<and> length (outbox s) \<le> 1 \<and>
    (\<forall>m \<in> set (outbox s). \<exists>now. answers now (counter s0) (request s) m) \<and>
    (\<forall>e now. outstanding e s \<longrightarrow> steps_left (exec (beast_handler os now e) s) < steps_left s)"
  using beast_run_answers [OF assms] handler_steps by blast

definition sample_connection :: beast_connection where
  "sample_connection = \<lparr>trace = [], violations = [], pipe_handle = 7,
     request = \<lparr>rq_version = 11, rq_method = Verb_get, rq_method_string = ''GET'', rq_target = ''/''\<rparr>,
     response = new_response, counter = 4, outbox = [], reading = False, writing = False, deadline = False\<rparr>"

theorem beast_connection_answers_once_witness:
  "\<exists>s m. beast_run numbering_pipe_os sample_connection s \<and> outbox s = [m] \<and> rs_result m = 200 \<and>
     rs_body m = count_page 5"
proof -
  let ?rq = "\<lparr>rq_version = 10, rq_method = Verb_get, rq_method_string = ''GET'', rq_target = ''/count''\<rparr>"
  let ?s = "exec (beast_handler numbering_pipe_os 0 (Request_read 0 ?rq)) (exec beast_start sample_connection)"
  have run: "beast_run numbering_pipe_os sample_connection ?s"
    by (intro beast_run.intros)
      (simp add: beast_start_def read_request_def check_deadline_def exec_simps)
  have new: "new_connection sample_connection"
    by (simp add: new_connection_def sample_connection_def)
  have "outbox ?s \<noteq> []" "request ?s = ?rq"
    by (simp_all add: exec_simps process_request_def write_response_def Let_def split: prod.split)
  with beast_connection_answers_once [OF run new] obtain m now where "outbox ?s = [m]"
    "answers now (counter sample_connection) ?rq m"
    by (cases "outbox ?s") auto
  then show ?thesis using run by (auto simp: answers_def sample_connection_def)
qed

section \<open>The server\<close>

text \<open>
  \<open>http_server\<close> accepts into a socket of its own and calls itself in the handler, as \<open>server\<close> does
  in \<open>Named_Pipe_Acceptor\<close>; the acceptor and the socket are the state, \<open>sessions\<close> the pipes that
  connections were made with.  \<open>main\<close> catches what escapes while the server is set up.
\<close>

definition http_server :: "pipe_os \<Rightarrow> pipe_server \<Rightarrow> pipe_server option" where
  "http_server os s = do_accept os s"

definition http_server_accepted :: "pipe_os \<Rightarrow> error_code \<Rightarrow> pipe_server \<Rightarrow> pipe_server option" where
  "http_server_accepted os ec s = http_server os (exec (do {
     set_waiting False;
     only_if (\<not> failed ec) (do { h \<leftarrow> move_pipe; make_session h })
   }) s)"

definition beast_server_main :: "pipe_os \<Rightarrow> pipe_server option" where
  "beast_server_main os = http_server os
     (server_new pipe_name)"

end
