(* ===== verification/Beast_Service.thy ===== *)
theory Beast_Service
  imports Beast_Server
begin

text \<open>
  \<^verbatim>\<open>examples/named_pipe/http/beast_server.cpp\<close> with many connections at a time.  The count of requests
  is a static variable that all connections share, and the completions of different connections
  interleave as they like; the executor runs one handler at a time.
\<close>

section \<open>Connections that share the count\<close>

text \<open>\<open>served\<close> is history: the responses that were written, in order, each with its request.\<close>

record beast_service =
  conns :: "beast_connection list"
  shared_count :: size_t
  served :: "(beast_request \<times> beast_response) list"

definition on_connection :: "nat \<Rightarrow> (beast_connection, unit) state \<Rightarrow> beast_service \<Rightarrow> beast_service" where
  "on_connection j m w =
     (let s = exec m ((conns w ! j)\<lparr>counter := shared_count w\<rparr>)
      in w\<lparr>conns := (conns w)[j := s], shared_count := counter s,
           served := served w @ map (Pair (request s)) (drop (length (outbox (conns w ! j))) (outbox s))\<rparr>)"

text \<open>A connection is made and started, or an outstanding operation of one completes.\<close>

inductive service_step :: "pipe_os \<Rightarrow> beast_service \<Rightarrow> beast_service \<Rightarrow> bool" for os where
  opened: "new_connection s \<Longrightarrow>
     service_step os w (on_connection (length (conns w)) beast_start (w\<lparr>conns := conns w @ [s]\<rparr>))"
| completed: "j < length (conns w) \<Longrightarrow> outstanding e (conns w ! j) \<Longrightarrow>
     service_step os w (on_connection j (beast_handler os now e) w)"

definition service_new :: "size_t \<Rightarrow> beast_service" where
  "service_new c = \<lparr>conns = [], shared_count = c, served = []\<rparr>"

section \<open>One handler\<close>

definition asks_count :: "beast_request \<Rightarrow> bool" where
  "asks_count rq \<longleftrightarrow> rq_method rq = Verb_get \<and> rq_target rq = ''/count''"

text \<open>A connection that has not answered, and one that has.\<close>

definition settled :: "beast_connection \<Rightarrow> bool" where
  "settled s \<longleftrightarrow>
     (if outbox s = [] then \<not> writing s \<and> response s = new_response
      else \<not> reading s \<and> (\<exists>now c m. outbox s = [m] \<and> answers now c (request s) m))"

lemma settled_counter [simp]: "settled (s\<lparr>counter := c\<rparr>) = settled s"
  "outstanding e (s\<lparr>counter := c\<rparr>) = outstanding e s" "steps_left (s\<lparr>counter := c\<rparr>) = steps_left s"
  by (cases e; simp add: settled_def steps_left_def)+

lemma settled_started:
  assumes "new_connection s"
  shows "settled (exec beast_start (s\<lparr>counter := c\<rparr>))" and "counter (exec beast_start (s\<lparr>counter := c\<rparr>)) = c"
    and "outbox (exec beast_start (s\<lparr>counter := c\<rparr>)) = []"
    and "steps_left (exec beast_start (s\<lparr>counter := c\<rparr>)) = 3"
  using assms by (simp_all add: beast_start_def read_request_def check_deadline_def exec_simps settled_def
      new_connection_def steps_left_def)

lemma process_message_count:
  "snd (process_message now rq (r, c)) = (if asks_count rq then c + 1 else c)"
  by (cases "rq_method rq")
    (simp_all add: process_message_def create_response_def asks_count_def next_count_def Let_def)

text \<open>A completion answers the request, with the count of that moment, or writes nothing.\<close>

lemma handler_effect:
  assumes "settled s" and "outstanding e s"
  shows "settled (exec (beast_handler os now e) s)"
    and "(outbox (exec (beast_handler os now e) s) = outbox s \<and> counter (exec (beast_handler os now e) s) = counter s) \<or>
      (\<exists>m rq. outbox s = [] \<and> outbox (exec (beast_handler os now e) s) = [m] \<and>
        request (exec (beast_handler os now e) s) = rq \<and> answers now (counter s) rq m \<and>
        counter (exec (beast_handler os now e) s) = (if asks_count rq then counter s + 1 else counter s))"
    and "outbox s \<noteq> [] \<Longrightarrow> request (exec (beast_handler os now e) s) = request s"
proof -
  let ?s' = "exec (beast_handler os now e) s"
  have "settled ?s' \<and> ((outbox ?s' = outbox s \<and> counter ?s' = counter s) \<or>
      (\<exists>m rq. outbox s = [] \<and> outbox ?s' = [m] \<and> request ?s' = rq \<and> answers now (counter s) rq m \<and>
        counter ?s' = (if asks_count rq then counter s + 1 else counter s))) \<and>
      (outbox s \<noteq> [] \<longrightarrow> request ?s' = request s)"
  proof (cases e)
    case (Request_read ec rq)
    with assms have s: "outbox s = []" "response s = new_response" by (auto simp: settled_def split: if_splits)
    obtain r c' where p: "process_message now rq (new_response, counter s) = (r, c')"
      by (cases "process_message now rq (new_response, counter s)")
    from process_message_answers [OF p] process_message_count [of now rq new_response "counter s"] Request_read assms s
    show ?thesis
      by (auto simp: settled_def process_request_def write_response_def exec_simps p)
  next
    case (Response_written ec)
    with assms show ?thesis by (auto simp: settled_def exec_simps pipe_ops_fields split: if_splits)
  next
    case (Deadline_reached ec)
    with assms show ?thesis by (auto simp: settled_def exec_simps pipe_ops_fields split: if_splits)
  qed
  then show "settled ?s'"
    and "(outbox ?s' = outbox s \<and> counter ?s' = counter s) \<or>
      (\<exists>m rq. outbox s = [] \<and> outbox ?s' = [m] \<and> request ?s' = rq \<and> answers now (counter s) rq m \<and>
        counter ?s' = (if asks_count rq then counter s + 1 else counter s))"
    and "outbox s \<noteq> [] \<Longrightarrow> request ?s' = request s"
    by blast+
qed

section \<open>The service\<close>

definition count_bodies :: "(beast_request \<times> beast_response) list \<Rightarrow> string list" where
  "count_bodies ms = map (\<lambda>x. rs_body (snd x)) (filter (\<lambda>x. asks_count (fst x)) ms)"

lemma count_bodies_simps [simp]:
  "count_bodies [] = []" "count_bodies (ms @ ms') = count_bodies ms @ count_bodies ms'"
  "count_bodies [(rq, m)] = (if asks_count rq then [rs_body m] else [])"
  by (simp_all add: count_bodies_def)

text \<open>The pages that a counter hands out from \<open>c\<close> on.\<close>

definition numbered_pages :: "size_t \<Rightarrow> nat \<Rightarrow> string list" where
  "numbered_pages c n = map (\<lambda>i. count_page (c + word_of_nat i)) [1..<Suc n]"

lemma numbered_pages_Suc [simp]:
  "numbered_pages c 0 = []" "numbered_pages c (Suc n) = numbered_pages c n @ [count_page (c + word_of_nat (Suc n))]"
  by (simp_all add: numbered_pages_def)

text \<open>What the connections have written, each response with its request.\<close>

definition outputs :: "beast_connection list \<Rightarrow> (beast_request \<times> beast_response) multiset" where
  "outputs cs = (\<Sum>s \<in># mset cs. mset (map (Pair (request s)) (outbox s)))"

text \<open>What has been written by the connections is what was served.\<close>

definition service_inv :: "size_t \<Rightarrow> beast_service \<Rightarrow> bool" where
  "service_inv c w \<longleftrightarrow>
     (\<forall>s \<in> set (conns w). settled s \<and> steps_left s \<le> 3) \<and>
     mset (served w) = outputs (conns w) \<and>
     (\<forall>(rq, m) \<in> set (served w). \<exists>now c. answers now c rq m) \<and>
     shared_count w = c + word_of_nat (length (count_bodies (served w))) \<and>
     count_bodies (served w) = numbered_pages c (length (count_bodies (served w)))"

lemma outputs_simps [simp]:
  "outputs [] = {#}" "outputs (cs @ ds) = outputs cs + outputs ds"
  "outputs (s # cs) = mset (map (Pair (request s)) (outbox s)) + outputs cs"
  by (simp_all add: outputs_def)

lemma outputs_update:
  assumes "j < length cs" and "mset (map (Pair (request s)) (outbox s)) =
    mset (map (Pair (request (cs ! j))) (outbox (cs ! j))) + mset ms"
  shows "outputs (cs[j := s]) = outputs cs + mset ms"
proof -
  have "outputs cs = outputs (take j cs @ cs ! j # drop (Suc j) cs)"
    using assms(1) by (simp add: id_take_nth_drop [symmetric])
  then show ?thesis using assms by (simp add: upd_conv_take_nth_drop)
qed

lemma answers_count:
  "answers now c rq m \<Longrightarrow> asks_count rq \<Longrightarrow> rs_body m = count_page (c + 1)"
  by (simp add: answers_def asks_count_def)

text \<open>Opening a connection and every completion keep the invariant.\<close>

lemma opened_inv:
  assumes "service_inv c w" and "new_connection s"
  shows "service_inv c (on_connection (length (conns w)) beast_start (w\<lparr>conns := conns w @ [s]\<rparr>))"
  using assms(1) settled_started [OF assms(2), of "shared_count w"]
  by (auto simp: service_inv_def on_connection_def Let_def)

lemma completed_inv:
  assumes "service_inv c w" and "j < length (conns w)" and "outstanding e (conns w ! j)"
  shows "service_inv c (on_connection j (beast_handler os now e) w)"
proof -
  let ?s = "(conns w ! j)\<lparr>counter := shared_count w\<rparr>" and ?w = "on_connection j (beast_handler os now e) w"
  let ?s' = "exec (beast_handler os now e) ?s" and ?n = "length (count_bodies (served w))"
  have inv: "\<forall>s \<in> set (conns w). settled s \<and> steps_left s \<le> 3" "mset (served w) = outputs (conns w)"
    "\<forall>(rq, m) \<in> set (served w). \<exists>now c. answers now c rq m" "shared_count w = c + word_of_nat ?n"
    "count_bodies (served w) = numbered_pages c ?n"
    using assms(1) by (simp_all add: service_inv_def outputs_def)
  have s: "settled ?s" "outstanding e ?s" "steps_left ?s \<le> 3"
    using inv(1) assms(2,3) by simp_all
  note effect = handler_effect [OF s(1,2), of os now]
  have steps: "steps_left ?s' \<le> 3" using handler_steps [OF s(2)] s(3) by (meson less_imp_le order_trans)
  have conns: "\<forall>s \<in> set ((conns w)[j := ?s']). settled s \<and> steps_left s \<le> 3"
    using inv(1) effect(1) steps set_update_subset_insert [of "conns w" j ?s'] by blast
  from effect(2) show ?thesis
  proof (elim disjE exE conjE)
    assume same: "outbox ?s' = outbox ?s" "counter ?s' = counter ?s"
    have "outputs ((conns w)[j := ?s']) = outputs (conns w) + mset []"
      using same(1) effect(3) by (intro outputs_update [OF assms(2)]) (cases "outbox ?s"; simp)
    with same conns inv show ?thesis
      by (simp add: service_inv_def on_connection_def Let_def)
  next
    fix m rq
    assume m: "outbox ?s = []" "outbox ?s' = [m]" "request ?s' = rq" "answers now (counter ?s) rq m"
      "counter ?s' = (if asks_count rq then counter ?s + 1 else counter ?s)"
    have "outputs ((conns w)[j := ?s']) = outputs (conns w) + mset [(rq, m)]"
      using m by (intro outputs_update [OF assms(2)]) simp
    moreover have "asks_count rq \<Longrightarrow> rs_body m = count_page (c + word_of_nat (Suc ?n))"
      using answers_count [OF m(4)] inv(4) by (simp add: add.commute add.left_commute)
    ultimately show ?thesis using m conns inv
      by (auto simp: service_inv_def on_connection_def Let_def)
  qed
qed

lemma service_run_inv:
  assumes "(service_step os)\<^sup>*\<^sup>* (service_new c) w"
  shows "service_inv c w"
  using assms
proof (induction rule: rtranclp_induct)
  case base
  show ?case by (simp add: service_inv_def service_new_def)
next
  case (step w w')
  from step.hyps(2) step.IH show ?case
    by (cases rule: service_step.cases) (simp_all add: opened_inv completed_inv)
qed

text \<open>
  C35: the server with all its connections.  In whatever order connections are made and their reads,
  writes and timers complete: each connection writes at most one response and has at most three
  completions left; what was written is exactly what the connections wrote, each response the one
  promised for its connection's request; and the requests for the count get consecutive
  numbers, each number once, in the order in which they were answered.
\<close>

theorem service_numbers_requests:
  assumes "(service_step os)\<^sup>*\<^sup>* (service_new c) w"
  shows "(\<forall>s \<in> set (conns w). length (outbox s) \<le> 1 \<and> steps_left s \<le> 3) \<and>
    mset (served w) = (\<Sum>s \<in># mset (conns w). mset (map (Pair (request s)) (outbox s))) \<and>
    (\<forall>(rq, m) \<in> set (served w). \<exists>now c. answers now c rq m) \<and>
    count_bodies (served w) = numbered_pages c (length (count_bodies (served w)))"
  using service_run_inv [OF assms] by (auto simp: service_inv_def outputs_def settled_def split: if_splits)

text \<open>Two clients ask for the count; the one that connected second is answered first.\<close>

lemma read_is_served:
  assumes "outbox (conns w ! j) = []" and "asks_count rq"
  shows "length (count_bodies (served (on_connection j (beast_handler os now (Request_read 0 rq)) w))) =
    Suc (length (count_bodies (served w)))"
  using assms
  by (simp add: on_connection_def Let_def process_request_def write_response_def exec_simps failed_def
      split: prod.split)

lemma conns_on_connection [simp]:
  "length (conns (on_connection j m w)) = length (conns w)"
  "i \<noteq> j \<Longrightarrow> conns (on_connection j m w) ! i = conns w ! i"
  by (simp_all add: on_connection_def Let_def)

theorem service_numbers_requests_witness:
  "\<exists>w. (service_step numbering_pipe_os)\<^sup>*\<^sup>* (service_new 7) w \<and> length (conns w) = 2 \<and>
     count_bodies (served w) = [count_page 8, count_page 9]"
proof -
  let ?os = "numbering_pipe_os"
  let ?rq = "\<lparr>rq_version = 11, rq_method = Verb_get, rq_method_string = ''GET'', rq_target = ''/count''\<rparr>"
  let ?e = "Request_read 0 ?rq"
  let ?open = "\<lambda>w. on_connection (length (conns w)) beast_start (w\<lparr>conns := conns w @ [sample_connection]\<rparr>)"
  have new: "new_connection sample_connection"
    by (simp add: new_connection_def sample_connection_def)
  define w where "w = ?open (?open (service_new 7))"
  define w' where "w' = on_connection 1 (beast_handler ?os 0 ?e) w"
  define w'' where "w'' = on_connection 0 (beast_handler ?os 0 ?e) w'"
  have w: "length (conns w) = 2" "reading (conns w ! 0)" "reading (conns w ! 1)"
    "outbox (conns w ! 0) = []" "outbox (conns w ! 1) = []" "served w = []"
    by (simp_all add: w_def on_connection_def Let_def service_new_def beast_start_def read_request_def
        check_deadline_def exec_simps sample_connection_def)
  have rq: "asks_count ?rq" by (simp add: asks_count_def)
  have "service_step ?os (service_new 7) (?open (service_new 7))" by (rule opened [OF new])
  moreover have "service_step ?os (?open (service_new 7)) w" unfolding w_def by (rule opened [OF new])
  moreover have "service_step ?os w w'" unfolding w'_def by (rule completed) (use w in simp_all)
  moreover have "service_step ?os w' w''" unfolding w''_def by (rule completed) (use w in \<open>simp_all add: w'_def\<close>)
  ultimately have run: "(service_step ?os)\<^sup>*\<^sup>* (service_new 7) w''"
    by (meson converse_rtranclp_into_rtranclp r_into_rtranclp)
  have "length (count_bodies (served w'')) = Suc (length (count_bodies (served w')))"
    unfolding w''_def by (rule read_is_served [OF _ rq]) (simp add: w'_def w)
  also have "length (count_bodies (served w')) = Suc (length (count_bodies (served w)))"
    unfolding w'_def by (rule read_is_served [OF w(5) rq])
  finally have n: "length (count_bodies (served w'')) = 2" by (simp add: w)
  have "count_bodies (served w'') = numbered_pages 7 2"
    using service_numbers_requests [OF run] unfolding n by blast
  moreover have "numbered_pages 7 2 = [count_page 8, count_page 9]"
    by (simp add: numbered_pages_def numeral_2_eq_2)
  moreover have "length (conns w'') = 2" by (simp add: w''_def w'_def w)
  ultimately show ?thesis using run by metis
qed

end
