(* ===== verification/Echo_Client.thy ===== *)
theory Echo_Client
  imports Named_Pipe_Acceptor
begin

text \<open>
  \<^verbatim>\<open>examples/named_pipe/echoclient.cpp\<close>: the client that sends a line to the echo server and prints
  what comes back, and the client and a session of the server at the two ends of one pipe.
  The client blocks in \<open>net::write\<close> and \<open>net::read\<close>, so \<open>main\<close> is cut at these calls: each part runs up
  to the next of them.
\<close>

section \<open>The client\<close>

text \<open>\<open>std::istream::getline\<close> stores at most \<open>n - 1\<close> characters of the line; \<open>strlen\<close> stops at a NUL.\<close>

definition getline :: "nat \<Rightarrow> string \<Rightarrow> string" where
  "getline n input = take (n - 1) (takeWhile (\<lambda>c. c \<noteq> CHR 0x0A) input)"

definition strlen :: "string \<Rightarrow> nat" where
  "strlen xs = length (takeWhile (\<lambda>c. c \<noteq> CHR 0x00) xs)"

text \<open>
  Where \<open>main\<close> is: in \<open>net::write\<close> with the bytes still to be written, in \<open>net::read\<close> of so many bytes
  with those read so far, or at its end.
\<close>

datatype client_phase = Cl_write string | Cl_read nat string | Cl_end

text \<open>\<open>printed\<close> is what went to \<open>std::cout\<close>, \<open>thrown\<close> the exception that was caught.\<close>

record echo_client = named_pipe +
  cl_request :: string
  cl_phase :: client_phase
  printed :: string
  thrown :: "error_code option"

definition say :: "string \<Rightarrow> ('z echo_client_scheme, unit) state" where
  "say msg = modify (\<lambda>s. s\<lparr>printed := printed s @ msg\<rparr>)"

definition set_cl_phase :: "client_phase \<Rightarrow> ('z echo_client_scheme, unit) state" where
  "set_cl_phase p = modify (\<lambda>s. s\<lparr>cl_phase := p\<rparr>)"

definition client_catch :: "error_code \<Rightarrow> ('z echo_client_scheme, unit) state" where
  "client_catch x = do {
     modify (\<lambda>s. s\<lparr>thrown := Some x\<rparr>);
     set_cl_phase Cl_end
   }"

text \<open>From the connection to \<open>net::write\<close>.\<close>

definition client_ask :: "pipe_os \<Rightarrow> string \<Rightarrow> ('z echo_client_scheme, unit) state" where
  "client_ask os input = do {
     say ''Enter message: '';
     let request = getline max_length input;
     let request_length = strlen request;
     modify (\<lambda>s. s\<lparr>cl_request := take request_length request\<rparr>);
     h \<leftarrow> gets pipe_handle;
     _ \<leftarrow> invoke os (Stream_write h (take request_length request));
     set_cl_phase (Cl_write (take request_length request))
   }"

text \<open>From there to \<open>net::read\<close>.\<close>

definition client_wrote :: "pipe_os \<Rightarrow> ('z echo_client_scheme, unit) state" where
  "client_wrote os = do {
     request_length \<leftarrow> gets (\<lambda>s. length (cl_request s));
     h \<leftarrow> gets pipe_handle;
     _ \<leftarrow> invoke os (Stream_read h request_length);
     set_cl_phase (Cl_read request_length [])
   }"

definition client_replied :: "string \<Rightarrow> ('z echo_client_scheme, unit) state" where
  "client_replied reply = do {
     say ''Reply is: '';
     say reply;
     say [CHR 0x0A];
     set_cl_phase Cl_end
   }"

definition client_main :: "pipe_os \<Rightarrow> string \<Rightarrow> 'z echo_client_scheme \<Rightarrow> 'z echo_client_scheme option" where
  "client_main os input s =
     (case pipe_connect_throwing os pipe_name s of
        None \<Rightarrow> None
      | Some (Inl x, s') \<Rightarrow> Some (exec (client_catch x) s')
      | Some (Inr _, s') \<Rightarrow> Some (exec (client_ask os input) s'))"

section \<open>The client and a server over one pipe\<close>

text \<open>
  The documented behaviour of a pipe in message mode: a write adds one message, or several when
  \<open>net::write\<close> needs more than one \<open>write_some\<close>; a read takes the first message if it fits, and
  otherwise a part of it, with \<open>ERROR_MORE_DATA\<close>.  The server's end is any program that reads and
  writes in turn: \<open>pend\<close> is its outstanding operation, \<open>resume\<close> its reaction to a completion.
\<close>

abbreviation (input) ERROR_MORE_DATA :: error_code where "ERROR_MORE_DATA \<equiv> 234"

record 'p echo_world =
  w_client :: echo_client
  w_server :: 'p
  to_server :: "string list"
  to_client :: "string list"

inductive echo_step :: "pipe_os \<Rightarrow> ('p \<Rightarrow> pipe_call) \<Rightarrow> (session_event \<Rightarrow> 'p \<Rightarrow> 'p) \<Rightarrow>
    'p echo_world \<Rightarrow> 'p echo_world \<Rightarrow> bool"
  for os pend resume where
  client_sends: "cl_phase (w_client w) = Cl_write (m @ rest) \<Longrightarrow> m \<noteq> [] \<Longrightarrow>
    echo_step os pend resume w (w\<lparr>w_client := exec (set_cl_phase (Cl_write rest)) (w_client w),
      to_server := to_server w @ [m]\<rparr>)"
| client_written: "cl_phase (w_client w) = Cl_write [] \<Longrightarrow>
    echo_step os pend resume w (w\<lparr>w_client := exec (client_wrote os) (w_client w)\<rparr>)"
| server_reads: "pend (w_server w) = Stream_read h n \<Longrightarrow> to_server w = m # ms \<Longrightarrow> length m \<le> n \<Longrightarrow>
    echo_step os pend resume w (w\<lparr>w_server := resume (Read_done 0 m) (w_server w), to_server := ms\<rparr>)"
| server_reads_part: "pend (w_server w) = Stream_read h n \<Longrightarrow> to_server w = m # ms \<Longrightarrow> n < length m \<Longrightarrow>
    echo_step os pend resume w (w\<lparr>w_server := resume (Read_done ERROR_MORE_DATA (take n m)) (w_server w),
      to_server := drop n m # ms\<rparr>)"
| server_writes: "pend (w_server w) = Stream_write h (concat ds) \<Longrightarrow> [] \<notin> set ds \<Longrightarrow>
    echo_step os pend resume w (w\<lparr>w_server := resume (Write_done 0) (w_server w),
      to_client := to_client w @ ds\<rparr>)"
| client_reads: "cl_phase (w_client w) = Cl_read n got \<Longrightarrow> to_client w = m # ms \<Longrightarrow>
    length m \<le> n - length got \<Longrightarrow>
    echo_step os pend resume w (w\<lparr>w_client := exec (set_cl_phase (Cl_read n (got @ m))) (w_client w),
      to_client := ms\<rparr>)"
| client_reads_part: "cl_phase (w_client w) = Cl_read n got \<Longrightarrow> to_client w = m # ms \<Longrightarrow>
    length got < n \<Longrightarrow> n - length got < length m \<Longrightarrow>
    echo_step os pend resume w (w\<lparr>w_client := exec (client_catch ERROR_MORE_DATA) (w_client w),
      to_client := drop (n - length got) m # ms\<rparr>)"
| client_completes: "cl_phase (w_client w) = Cl_read n got \<Longrightarrow> length got = n \<Longrightarrow>
    echo_step os pend resume w (w\<lparr>w_client := exec (client_replied got) (w_client w)\<rparr>)"

inductive echo_reach :: "pipe_os \<Rightarrow> ('p \<Rightarrow> pipe_call) \<Rightarrow> (session_event \<Rightarrow> 'p \<Rightarrow> 'p) \<Rightarrow>
    'p echo_world \<Rightarrow> 'p echo_world \<Rightarrow> bool"
  for os pend resume w0 where
  start: "echo_reach os pend resume w0 w0"
| step: "echo_reach os pend resume w0 w \<Longrightarrow> echo_step os pend resume w w' \<Longrightarrow>
    echo_reach os pend resume w0 w'"

text \<open>The client has connected and asked for a line, the server was started on the other end.\<close>

definition echo_connected :: "echo_client \<Rightarrow> 'p \<Rightarrow> 'p echo_world" where
  "echo_connected c p = \<lparr>w_client = c, w_server = p, to_server = [], to_client = []\<rparr>"

text \<open>The operation of a pipe that is outstanding is the last call made on it.\<close>

definition pending_op :: "'z named_pipe_scheme \<Rightarrow> pipe_call" where
  "pending_op s = fst (last (trace s))"

section \<open>Connecting leaves the client alone\<close>

definition pipe_frame :: "('z named_pipe_scheme \<Rightarrow> 'x) \<Rightarrow> bool" where
  "pipe_frame f \<longleftrightarrow> (\<forall>s t. f (s\<lparr>trace := t\<rparr>) = f s) \<and> (\<forall>s h. f (s\<lparr>pipe_handle := h\<rparr>) = f s)"

lemma open_loop_keeps:
  assumes "pipe_frame f" and "open_loop os ep tm s = Some (r, s')"
  shows "f s' = f s"
proof -
  have k: "f (exec (try_open os ep tm) s) = f s" for os ep tm s
    using assms(1) by (simp add: try_open_def pipe_frame_def exec_simps)
  have "f (snd (r, s')) = f s"
  proof (rule open_loop.raw_induct [where P = "\<lambda>os ep tm s y. f (snd y) = f s", OF _ assms(2)])
    fix loop os ep tm s y
    assume IH: "\<And>os ep tm s y. loop os ep tm s = Some y \<Longrightarrow> f (snd y) = f s"
      and "(case result (try_open os ep tm) s of Some r \<Rightarrow> Some (r, exec (try_open os ep tm) s)
        | None \<Rightarrow> loop os ep tm (exec (try_open os ep tm) s)) = Some y"
    then show "f (snd y) = f s"
      by (cases "result (try_open os ep tm) s") (auto simp: k dest!: IH)
  qed
  then show ?thesis by simp
qed

lemma client_connect_keeps:
  assumes "pipe_frame f" and "client_connect os ec h ep tm s = Some (r, s')"
  shows "f s' = f s"
  using assms(2)
  by (auto simp: client_connect_def assms(1) [unfolded pipe_frame_def]
      dest!: open_loop_keeps [OF assms(1)] split: option.splits prod.splits sum.splits if_splits)

lemma connect_keeps:
  assumes "pipe_frame f" and "pipe_connect_throwing os ep s = Some (r, s')"
  shows "f s' = f s"
proof -
  have "f (exec (stream_close os) s) = f s" "f (exec (stream_assign os h) s) = f s" for os h s
    using assms(1) by (simp_all add: stream_close_def stream_assign_def pipe_frame_def exec_simps)
  with assms(2) show ?thesis
    by (auto simp: pipe_connect_throwing_def pipe_connect_def Let_def run_state_exec_result
        dest!: client_connect_keeps [OF assms(1)] split: option.splits prod.splits sum.splits if_splits)
qed

section \<open>Every byte is somewhere\<close>

fun held :: "pipe_call \<Rightarrow> string" where
  "held (Stream_write h d) = d"
| "held _ = []"

fun unsent :: "client_phase \<Rightarrow> string" where
  "unsent (Cl_write rest) = rest"
| "unsent _ = []"

text \<open>
  The bytes of the request in order: read back by the client, on the way back, held by the server,
  on the way to it, not sent yet.
\<close>

definition echo_inv :: "('p \<Rightarrow> pipe_call) \<Rightarrow> ('p \<Rightarrow> bool) \<Rightarrow> string \<Rightarrow> 'p echo_world \<Rightarrow> bool" where
  "echo_inv pend ready req w \<longleftrightarrow>
     (let c = w_client w;
          moving = concat (to_client w) @ held (pend (w_server w)) @ concat (to_server w) @ unsent (cl_phase c)
      in cl_request c = req \<and> thrown c = None \<and> length req < max_length \<and> ready (w_server w) \<and>
         [] \<notin> set (to_server w) \<and> [] \<notin> set (to_client w) \<and> (\<forall>h. pend (w_server w) \<noteq> Stream_write h []) \<and>
         (case cl_phase c of
            Cl_write rest \<Rightarrow> moving = req \<and> printed c = ''Enter message: ''
          | Cl_read n got \<Rightarrow> got @ moving = req \<and> n = length req \<and> printed c = ''Enter message: ''
          | Cl_end \<Rightarrow> moving = [] \<and> printed c = ''Enter message: Reply is: '' @ req @ [CHR 0x0A]))"

definition echo_work :: "('p \<Rightarrow> pipe_call) \<Rightarrow> 'p echo_world \<Rightarrow> nat" where
  "echo_work pend w = 4 * length (unsent (cl_phase (w_client w))) + 3 * length (concat (to_server w)) +
     2 * length (held (pend (w_server w))) + length (concat (to_client w)) +
     (case cl_phase (w_client w) of Cl_write _ \<Rightarrow> 2 | Cl_read _ _ \<Rightarrow> 1 | Cl_end \<Rightarrow> 0)"

lemmas client_defs = say_def set_cl_phase_def client_ask_def client_wrote_def client_replied_def
  client_catch_def

text \<open>The line that the client sends.\<close>

definition line_of :: "string \<Rightarrow> string" where
  "line_of input = take (strlen (getline max_length input)) (getline max_length input)"

lemma line_fits: "length (line_of input) < max_length"
  by (simp add: line_of_def getline_def min_def)

lemma client_connected:
  assumes "client_main os input c0 = Some c" and "thrown c = None"
  shows "cl_request c = line_of input" and "cl_phase c = Cl_write (line_of input)"
    and "printed c = printed c0 @ ''Enter message: ''"
proof -
  obtain s' where "pipe_connect_throwing os pipe_name c0 = Some (Inr (), s')"
    and c: "c = exec (client_ask os input) s'"
    using assms by (auto simp: client_main_def client_catch_def set_cl_phase_def exec_simps
        split: option.splits prod.splits sum.splits)
  from connect_keeps [of printed, OF _ this(1)] have "printed s' = printed c0"
    by (simp add: pipe_frame_def)
  then show "cl_request c = line_of input" "cl_phase c = Cl_write (line_of input)"
    "printed c = printed c0 @ ''Enter message: ''"
    by (simp_all add: c client_defs exec_simps line_of_def Let_def)
qed

text \<open>No message on either way is longer than the request, or than what the client still expects.\<close>

lemma messages_fit:
  assumes "echo_inv pend ready req w"
  shows "to_server w = m # ms \<Longrightarrow> length m < max_length"
    and "to_client w = m # ms \<Longrightarrow> cl_phase (w_client w) = Cl_read n got \<Longrightarrow> length got + length m \<le> n"
proof -
  show "length m < max_length" if "to_server w = m # ms"
    using assms that by (cases "cl_phase (w_client w)")
      (auto simp: echo_inv_def Let_def dest!: arg_cong [where f = length])
  show "length got + length m \<le> n" if "to_client w = m # ms" "cl_phase (w_client w) = Cl_read n got"
    using assms that by (auto simp: echo_inv_def Let_def dest!: arg_cong [where f = length])
qed

section \<open>The contract of an echo server\<close>

text \<open>
  An echo server waits for a read of its buffer or for a write; what it read it writes, and when
  it has written it reads again.  The client's part is proved for every such server.
\<close>

locale echo_peer =
  fixes pend :: "'p \<Rightarrow> pipe_call"
    and resume :: "session_event \<Rightarrow> 'p \<Rightarrow> 'p"
    and ready :: "'p \<Rightarrow> bool"
  assumes turns: "ready p \<Longrightarrow> (\<exists>h. pend p = Stream_read h max_length) \<or> (\<exists>h d. pend p = Stream_write h d)"
    and takes: "\<lbrakk>ready p; pend p = Stream_read h n; length m \<le> max_length\<rbrakk> \<Longrightarrow>
      ready (resume (Read_done 0 m) p) \<and> (\<exists>h. pend (resume (Read_done 0 m) p) = Stream_write h m)"
    and asks: "\<lbrakk>ready p; pend p = Stream_write h d\<rbrakk> \<Longrightarrow>
      ready (resume (Write_done 0) p) \<and> (\<exists>h. pend (resume (Write_done 0) p) = Stream_read h max_length)"
begin

lemma step_inv:
  assumes "echo_step os pend resume w w'" and "echo_inv pend ready req w"
  shows "echo_inv pend ready req w' \<and> echo_work pend w' < echo_work pend w"
  using assms(1)
proof (cases rule: echo_step.cases)
  case (client_sends m rest)
  then show ?thesis using assms(2)
    by (auto simp: echo_inv_def echo_work_def Let_def client_defs exec_simps)
next
  case client_written
  then show ?thesis using assms(2)
    by (auto simp: echo_inv_def echo_work_def Let_def client_defs exec_simps)
next
  case (server_reads h n m ms)
  then have m: "m \<noteq> []" and "ready (w_server w)" using assms(2) by (auto simp: echo_inv_def Let_def)
  have "length m \<le> max_length" using messages_fit(1) [OF assms(2) server_reads(3)] by simp
  from takes [OF \<open>ready (w_server w)\<close> server_reads(2) this] obtain h' where "ready (resume (Read_done 0 m) (w_server w))"
    "pend (resume (Read_done 0 m) (w_server w)) = Stream_write h' m" by auto
  with m server_reads assms(2) show ?thesis
    by (auto simp: echo_inv_def echo_work_def Let_def split: client_phase.splits)
next
  case (server_reads_part h n m ms)
  then have "ready (w_server w)" using assms(2) by (simp add: echo_inv_def Let_def)
  from turns [OF this] server_reads_part(2) have "n = max_length" by auto
  with messages_fit(1) [OF assms(2) server_reads_part(3)] server_reads_part(4) show ?thesis by simp
next
  case (server_writes h ds)
  then have ds: "concat ds \<noteq> []" and "ready (w_server w)" using assms(2) by (auto simp: echo_inv_def Let_def)
  from asks [OF this(2) server_writes(2)] obtain h' where "ready (resume (Write_done 0) (w_server w))"
    "pend (resume (Write_done 0) (w_server w)) = Stream_read h' max_length" by auto
  with ds server_writes assms(2) show ?thesis
    by (auto simp: echo_inv_def echo_work_def Let_def split: client_phase.splits)
next
  case (client_reads n got m ms)
  with assms(2) show ?thesis
    by (auto simp: echo_inv_def echo_work_def Let_def client_defs exec_simps)
next
  case (client_reads_part n got m ms)
  with messages_fit(2) [OF assms(2) client_reads_part(3,2)] show ?thesis by simp
next
  case (client_completes n got)
  let ?held = "held (pend (w_server w))"
  from client_completes assms(2) have inv: "got @ concat (to_client w) @ ?held @ concat (to_server w) = req"
    "length got = length req"
    by (simp_all add: echo_inv_def Let_def)
  have "length (got @ concat (to_client w) @ ?held @ concat (to_server w)) = length got"
    unfolding inv ..
  then have "concat (to_client w) = [] \<and> ?held = [] \<and> concat (to_server w) = []"
    by (simp del: concat_eq_Nil_conv)
  with inv(1) have "concat (to_client w) = []" "?held = []" "concat (to_server w) = []" "got = req"
    by simp_all
  with client_completes assms(2) show ?thesis
    by (simp add: echo_inv_def echo_work_def Let_def client_defs exec_simps del: concat_eq_Nil_conv)
qed

lemma reach_inv: "echo_reach os pend resume w0 w \<Longrightarrow> echo_inv pend ready req w0 \<Longrightarrow> echo_inv pend ready req w"
  by (induction rule: echo_reach.induct) (blast dest: step_inv)+

lemma enabled:
  assumes "echo_inv pend ready req w" and "cl_phase (w_client w) \<noteq> Cl_end"
  shows "\<exists>w'. echo_step os pend resume w w'"
proof (cases "cl_phase (w_client w)")
  case (Cl_write rest)
  then show ?thesis
    using client_sends [of w rest "[]"] client_written [of w] by (cases "rest = []") auto
next
  case (Cl_read n got)
  note inv = assms(1) [unfolded echo_inv_def Let_def]
  show ?thesis
  proof (cases "to_client w")
    case (Cons m ms)
    with messages_fit(2) [OF assms(1) Cons Cl_read] client_reads [OF Cl_read Cons] show ?thesis by force
  next
    case Nil
    consider h where "pend (w_server w) = Stream_read h max_length"
      | h d where "pend (w_server w) = Stream_write h d"
      using turns inv by blast
    then show ?thesis
    proof cases
      case (1 h)
      show ?thesis
      proof (cases "to_server w")
        case (Cons m ms)
        with messages_fit(1) [OF assms(1) Cons] server_reads [where pend = pend, OF 1 Cons] show ?thesis by force
      next
        case to_server: Nil
        with 1 Nil Cl_read inv have "length got = n" by auto
        with client_completes [OF Cl_read] show ?thesis by blast
      qed
    next
      case (2 h d)
      then have "pend (w_server w) = Stream_write h (concat [d])" and "[] \<notin> set [d]"
        using inv by auto
      then show ?thesis by (blast intro: server_writes)
    qed
  qed
qed (use assms(2) in simp)

lemma over: "echo_inv pend ready req w \<Longrightarrow> cl_phase (w_client w) = Cl_end \<Longrightarrow> \<not> echo_step os pend resume w w'"
  using turns [of "w_server w"] by (auto simp: echo_inv_def Let_def elim!: echo_step.cases)

text \<open>The whole conversation, and that its end is reached.\<close>

lemma conversation:
  assumes "echo_inv pend ready req w0" and "echo_reach os pend resume w0 w"
  shows "thrown (w_client w) = None \<and>
    (\<forall>w'. echo_step os pend resume w w' \<longrightarrow> echo_work pend w' < echo_work pend w) \<and>
    ((\<nexists>w'. echo_step os pend resume w w') \<longleftrightarrow> cl_phase (w_client w) = Cl_end) \<and>
    (cl_phase (w_client w) = Cl_end \<longrightarrow>
       printed (w_client w) = ''Enter message: Reply is: '' @ req @ [CHR 0x0A])"
proof -
  have inv: "echo_inv pend ready req w" by (rule reach_inv [OF assms(2,1)])
  have "thrown (w_client w) = None" "cl_phase (w_client w) = Cl_end \<longrightarrow>
      printed (w_client w) = ''Enter message: Reply is: '' @ req @ [CHR 0x0A]"
    using inv by (auto simp: echo_inv_def Let_def)
  with step_inv [OF _ inv] enabled [OF inv] over [OF inv] show ?thesis by blast
qed

lemma finishes:
  assumes "echo_reach os pend resume w0 w" and "echo_inv pend ready req w"
  shows "\<exists>w'. echo_reach os pend resume w0 w' \<and> cl_phase (w_client w') = Cl_end"
  using assms
proof (induction w rule: measure_induct_rule [where f = "echo_work pend"])
  case (less w)
  show ?case
  proof (cases "cl_phase (w_client w) = Cl_end")
    case False
    with enabled [OF less.prems(2)] obtain w' where step: "echo_step os pend resume w w'" by blast
    from step_inv [OF step less.prems(2)] less.IH [OF _ echo_reach.step [OF less.prems(1) step]]
    show ?thesis by blast
  qed (use less.prems in blast)
qed

lemma connected_inv:
  assumes "client_main os input c0 = Some c" and "thrown c = None" and "printed c0 = []"
    and "ready p" and "pend p = Stream_read h n"
  shows "echo_inv pend ready (line_of input) (echo_connected c p)"
  using assms(2-5) client_connected [OF assms(1,2)] line_fits [of input]
  by (simp add: echo_inv_def echo_connected_def)

end

section \<open>The session is an echo server\<close>

definition session_ready :: "'z echo_session_scheme \<Rightarrow> bool" where
  "session_ready s \<longleftrightarrow> length (sdata s) = max_length \<and>
     ((\<exists>h. pending_op s = Stream_read h max_length) \<or> (\<exists>h d. pending_op s = Stream_write h d))"

interpretation session_peer: echo_peer pending_op "\<lambda>e. exec (session_resume os e)" session_ready
  by unfold_locales
    (auto simp: session_ready_def pending_op_def session_do_read_def session_do_write_def exec_simps)

lemma session_started:
  "length (sdata s) = max_length \<Longrightarrow> session_ready (exec (session_start os) s)"
  "pending_op (exec (session_start os) s) = Stream_read (pipe_handle s) max_length"
  by (simp_all add: session_ready_def session_start_def session_do_read_def exec_simps pending_op_def)

text \<open>
  C33: a line typed at the client comes back.  Whenever \<open>main\<close> connects without an exception to a
  pipe served by a session: whatever the pace of the two ends and however their writes are cut
  into messages, no read overflows (the client never gets \<open>ERROR_MORE_DATA\<close>, since its line is
  shorter than the session's buffer), every step gets closer to the end, nothing more can
  happen exactly when the client has finished, and then it has printed the line it sent, up to
  a NUL and at most 1023 bytes of it.
\<close>

theorem echo_client_gets_its_line:
  assumes "client_main os input c0 = Some c" and "thrown c = None" and "printed c0 = []"
    and "length (sdata s) = max_length"
    and "echo_reach os pending_op (\<lambda>e. exec (session_resume os e)) (echo_connected c (exec (session_start os) s)) w"
  shows "thrown (w_client w) = None \<and>
    (\<forall>w'. echo_step os pending_op (\<lambda>e. exec (session_resume os e)) w w' \<longrightarrow>
       echo_work pending_op w' < echo_work pending_op w) \<and>
    ((\<nexists>w'. echo_step os pending_op (\<lambda>e. exec (session_resume os e)) w w') \<longleftrightarrow> cl_phase (w_client w) = Cl_end) \<and>
    (cl_phase (w_client w) = Cl_end \<longrightarrow> printed (w_client w) = ''Enter message: Reply is: '' @
       take (strlen (getline max_length input)) (getline max_length input) @ [CHR 0x0A])"
  using session_peer.conversation [OF session_peer.connected_inv [OF assms(1-3) session_started(1) [OF assms(4)]
      session_started(2)] assms(5)]
  by (simp add: line_of_def)

definition sample_client :: echo_client where
  "sample_client = \<lparr>trace = [], violations = [], pipe_handle = 5, cl_request = [], cl_phase = Cl_end,
     printed = [], thrown = None\<rparr>"

definition sample_session :: echo_session where
  "sample_session = \<lparr>trace = [], violations = [], pipe_handle = 7, sdata = replicate 1024 (CHR 0x00)\<rparr>"

lemma sample_connects: "\<exists>c. client_main numbering_pipe_os (''hi'' @ [CHR 0x0A]) sample_client = Some c \<and> thrown c = None"
proof -
  have "result (try_open numbering_pipe_os pipe_name 20000) s = Some (Inr 1)" for s :: echo_client
    by (simp add: try_open_def exec_simps)
  then show ?thesis
    by (subst client_main_def)
      (simp add: pipe_connect_throwing_def pipe_connect_def client_connect_def open_loop.simps sample_client_def
        run_state_exec_result exec_simps stream_assign_def stream_close_def try_open_def is_open_def truthy_def dword_def failed_def
        client_defs Let_def)
qed

theorem echo_client_gets_its_line_witness:
  "\<exists>c w. client_main numbering_pipe_os (''hi'' @ [CHR 0x0A]) sample_client = Some c \<and>
    echo_reach numbering_pipe_os pending_op (\<lambda>e. exec (session_resume numbering_pipe_os e))
      (echo_connected c (exec (session_start numbering_pipe_os) sample_session)) w \<and>
    printed (w_client w) = ''Enter message: Reply is: hi'' @ [CHR 0x0A]"
proof -
  have s: "printed sample_client = []" "length (sdata sample_session) = max_length"
    by (simp_all add: sample_client_def sample_session_def)
  obtain c where c: "client_main numbering_pipe_os (''hi'' @ [CHR 0x0A]) sample_client = Some c" "thrown c = None"
    using sample_connects by blast
  obtain w where w: "echo_reach numbering_pipe_os pending_op (\<lambda>e. exec (session_resume numbering_pipe_os e))
      (echo_connected c (exec (session_start numbering_pipe_os) sample_session)) w"
    "cl_phase (w_client w) = Cl_end"
    using session_peer.finishes [OF echo_reach.start
        session_peer.connected_inv [OF c s(1) session_started(1) [OF s(2)] session_started(2)]] by blast
  from echo_client_gets_its_line [OF c s w(1)] w(2)
  have "printed (w_client w) = ''Enter message: Reply is: hi'' @ [CHR 0x0A]"
    by (simp add: getline_def strlen_def)
  with c(1) w(1) show ?thesis by blast
qed

end
