(* ===== verification/Beast_Client.thy ===== *)
theory Beast_Client
  imports Beast_Server Echo_Client
begin

text \<open>
  \<^verbatim>\<open>examples/named_pipe/http/beast_client.cpp\<close>: a client that asks a server over a pipe for the page
  \<^verbatim>\<open>/count\<close> and prints the response.  As in \<open>Echo_Client\<close>, \<open>main\<close> is cut at the calls in which it blocks,
  \<open>http::write\<close> and \<open>http::read\<close>.  The text that Beast prints for a response is the parameter \<open>render\<close>, its
  version string the parameter \<open>agent\<close>.
\<close>

section \<open>The client\<close>

datatype request_field = Field_host | Field_user_agent

record beast_client_request = beast_request +
  rq_fields :: "request_field \<Rightarrow> string option"

definition set_request_field :: "request_field \<Rightarrow> string \<Rightarrow> beast_client_request \<Rightarrow> beast_client_request" where
  "set_request_field f v r = r\<lparr>rq_fields := (rq_fields r)(f \<mapsto> v)\<rparr>"

definition client_request :: "string \<Rightarrow> beast_client_request" where
  "client_request agent =
     (let host = ''localhost''; target = ''/count''; version = 11;
          req = \<lparr>rq_version = version, rq_method = Verb_get, rq_method_string = ''GET'', rq_target = target,
                 rq_fields = Map.empty\<rparr>
      in set_request_field Field_user_agent agent (set_request_field Field_host host req))"

datatype beast_client_phase = Bc_write | Bc_read | Bc_exit bool

text \<open>\<open>bc_sent\<close> are the requests handed to \<open>http::write\<close>; \<open>Bc_exit True\<close> is \<open>EXIT_SUCCESS\<close>.\<close>

record beast_client = named_pipe +
  bc_sent :: "beast_client_request list"
  bc_phase :: beast_client_phase
  bc_printed :: string
  bc_error :: "error_code option"

definition set_bc_phase :: "beast_client_phase \<Rightarrow> ('z beast_client_scheme, unit) state" where
  "set_bc_phase p = modify (\<lambda>s. s\<lparr>bc_phase := p\<rparr>)"

definition bc_catch :: "error_code \<Rightarrow> ('z beast_client_scheme, unit) state" where
  "bc_catch x = do {
     modify (\<lambda>s. s\<lparr>bc_error := Some x\<rparr>);
     set_bc_phase (Bc_exit False)
   }"

definition bc_send :: "string \<Rightarrow> ('z beast_client_scheme, unit) state" where
  "bc_send agent = do {
     modify (\<lambda>s. s\<lparr>bc_sent := bc_sent s @ [client_request agent]\<rparr>);
     set_bc_phase Bc_write
   }"

definition bc_wrote :: "error_code \<Rightarrow> ('z beast_client_scheme, unit) state" where
  "bc_wrote ec = (if failed ec then bc_catch ec else set_bc_phase Bc_read)"

text \<open>The error code of the shutdown stays clear: the shutdown itself is commented out.\<close>

definition bc_received :: "(beast_response \<Rightarrow> string) \<Rightarrow> error_code \<Rightarrow> beast_response \<Rightarrow>
    ('z beast_client_scheme, unit) state" where
  "bc_received render ec res =
     (if failed ec then bc_catch ec
      else do {
        modify (\<lambda>s. s\<lparr>bc_printed := bc_printed s @ render res @ nl\<rparr>);
        set_bc_phase (Bc_exit True)
      })"

definition beast_client_main :: "pipe_os \<Rightarrow> string \<Rightarrow> 'z beast_client_scheme \<Rightarrow> 'z beast_client_scheme option" where
  "beast_client_main os agent s =
     (case pipe_connect_throwing os pipe_name s of
        None \<Rightarrow> None
      | Some (Inl x, s') \<Rightarrow> Some (exec (bc_catch x) s')
      | Some (Inr _, s') \<Rightarrow> Some (exec (bc_send agent) s'))"

section \<open>The client gets the next count\<close>

lemmas bc_defs = set_bc_phase_def bc_catch_def bc_send_def bc_wrote_def bc_received_def

lemma beast_client_connected:
  assumes "beast_client_main os agent c0 = Some c" and "bc_error c = None"
  shows "bc_sent c = bc_sent c0 @ [client_request agent]" and "bc_printed c = bc_printed c0"
proof -
  obtain s' where s': "pipe_connect_throwing os pipe_name c0 = Some (Inr (), s')"
    and c: "c = exec (bc_send agent) s'"
    using assms by (auto simp: beast_client_main_def bc_defs exec_simps
        split: option.splits prod.splits sum.splits)
  from connect_keeps [of bc_sent, OF _ s'] connect_keeps [of bc_printed, OF _ s']
  have "bc_sent s' = bc_sent c0 \<and> bc_printed s' = bc_printed c0"
    by (simp add: pipe_frame_def)
  then show "bc_sent c = bc_sent c0 @ [client_request agent]" "bc_printed c = bc_printed c0"
    by (simp_all add: c bc_defs exec_simps)
qed

text \<open>
  The client that connects without an exception and whose request reaches a connection of the
  server prints the response of that connection, which is a success that shows the number
  after the server's count, and exits successfully.
\<close>

theorem beast_client_counts:
  assumes "beast_client_main os agent c0 = Some c" and "bc_error c = None"
    and "new_connection s0" and "beast_run os' s0 s" and "outbox s = [m]"
    and "request s = beast_request.truncate (last (bc_sent c))"
    and c': "c' = exec (do { bc_wrote 0; bc_received render 0 m }) c"
  shows "bc_printed c' = bc_printed c0 @ render m @ nl" and "bc_phase c' = Bc_exit True"
    and "rs_result m = status_ok" and "rs_body m = count_page (counter s0 + 1)"
    and "rs_content_length m = Some (length (rs_body m))"
proof -
  note c = beast_client_connected [OF assms(1,2)]
  show "bc_printed c' = bc_printed c0 @ render m @ nl" "bc_phase c' = Bc_exit True"
    by (simp_all add: c' bc_defs exec_simps failed_def c)
  obtain now where "answers now (counter s0) (request s) m"
    using beast_run_answers [OF assms(4,3)] assms(5) by auto
  moreover have "rq_method (request s) = Verb_get" "rq_target (request s) = ''/count''"
    by (simp_all add: assms(6) c client_request_def set_request_field_def Let_def beast_request.truncate_def)
  ultimately show "rs_result m = status_ok" "rs_body m = count_page (counter s0 + 1)"
    "rs_content_length m = Some (length (rs_body m))"
    by (auto simp: answers_def)
qed

end
