(* ===== verification/Beast_World.thy ===== *)
theory Beast_World
  imports Beast_Service Beast_Client
begin

text \<open>
  The clients of \<^verbatim>\<open>examples/named_pipe/http/beast_client.cpp\<close> and the server of
  \<^verbatim>\<open>examples/named_pipe/http/beast_server.cpp\<close> together: any number of clients, each over a pipe of its own
  to a connection of \<open>Beast_Service\<close>.  Everything interleaves, and every write, read and timer may
  fail.
\<close>

section \<open>The world\<close>

text \<open>Client \<open>i\<close> talks to connection \<open>i\<close>.\<close>

record beast_world =
  service :: beast_service
  clients :: "beast_client list"

abbreviation "conn w i \<equiv> conns (service w) ! i"

text \<open>A read that succeeds gets the request that the client at the other end handed to \<open>http::write\<close>.\<close>

fun arrives :: "beast_event \<Rightarrow> beast_client \<Rightarrow> bool" where
  "arrives (Request_read ec rq) c = (failed ec \<or> rq = beast_request.truncate (last (bc_sent c)))"
| "arrives _ c = True"

inductive world_step :: "pipe_os \<Rightarrow> string \<Rightarrow> (beast_response \<Rightarrow> string) \<Rightarrow> beast_world \<Rightarrow> beast_world \<Rightarrow> bool"
  for os agent render where
  connects: "beast_client_main os' agent c0 = Some c \<Longrightarrow> bc_error c = None \<Longrightarrow> bc_sent c0 = [] \<Longrightarrow>
    bc_printed c0 = [] \<Longrightarrow> new_connection s \<Longrightarrow>
    world_step os agent render w (w\<lparr>service := on_connection (length (conns (service w))) beast_start
      ((service w)\<lparr>conns := conns (service w) @ [s]\<rparr>), clients := clients w @ [c]\<rparr>)"
| client_writes: "i < length (clients w) \<Longrightarrow> bc_phase (clients w ! i) = Bc_write \<Longrightarrow>
    world_step os agent render w (w\<lparr>clients := (clients w)[i := exec (bc_wrote ec) (clients w ! i)]\<rparr>)"
| server_completes: "i < length (clients w) \<Longrightarrow> outstanding e (conn w i) \<Longrightarrow> arrives e (clients w ! i) \<Longrightarrow>
    world_step os agent render w (w\<lparr>service := on_connection i (beast_handler os now e) (service w)\<rparr>)"
| client_reads: "i < length (clients w) \<Longrightarrow> bc_phase (clients w ! i) = Bc_read \<Longrightarrow>
    failed ec \<or> outbox (conn w i) = [m] \<Longrightarrow>
    world_step os agent render w (w\<lparr>clients := (clients w)[i := exec (bc_received render ec m) (clients w ! i)]\<rparr>)"

definition world_new :: "size_t \<Rightarrow> beast_world" where
  "world_new c = \<lparr>service = service_new c, clients = []\<rparr>"

section \<open>Its invariant\<close>

text \<open>The connections that have answered, and the numbers they gave out.\<close>

definition answered_conns :: "beast_connection list \<Rightarrow> nat set" where
  "answered_conns cs = {i. i < length cs \<and> outbox (cs ! i) \<noteq> []}"

definition numbering :: "size_t \<Rightarrow> (nat \<Rightarrow> nat) \<Rightarrow> beast_connection list \<Rightarrow> bool" where
  "numbering c num cs \<longleftrightarrow> bij_betw num (answered_conns cs) {1..card (answered_conns cs)} \<and>
     (\<forall>i \<in> answered_conns cs. \<exists>m. outbox (cs ! i) = [m] \<and> rs_result m = status_ok \<and>
        rs_body m = count_page (c + word_of_nat (num i)))"

text \<open>A client that has not read its response has printed nothing; one that has, printed just that.\<close>

definition client_ok :: "string \<Rightarrow> (beast_response \<Rightarrow> string) \<Rightarrow> beast_connection \<Rightarrow> beast_client \<Rightarrow> bool" where
  "client_ok agent render s c \<longleftrightarrow> bc_sent c = [client_request agent] \<and>
     (bc_printed c = [] \<and> bc_phase c \<noteq> Bc_exit True \<or>
      (\<exists>m. outbox s = [m] \<and> bc_printed c = render m @ nl \<and> bc_phase c = Bc_exit True))"

definition world_inv :: "size_t \<Rightarrow> string \<Rightarrow> (beast_response \<Rightarrow> string) \<Rightarrow> beast_world \<Rightarrow> bool" where
  "world_inv c agent render w \<longleftrightarrow>
     list_all2 (client_ok agent render) (conns (service w)) (clients w) \<and>
     (\<forall>s \<in> set (conns (service w)). settled s) \<and>
     shared_count (service w) = c + word_of_nat (card (answered_conns (conns (service w)))) \<and>
     (\<exists>num. numbering c num (conns (service w)))"

lemma answered_conns_simps [simp]:
  "answered_conns [] = {}" "finite (answered_conns cs)"
  "outbox s = [] \<Longrightarrow> answered_conns (cs @ [s]) = answered_conns cs"
  "j < length cs \<Longrightarrow> outbox s = outbox (cs ! j) \<Longrightarrow> answered_conns (cs[j := s]) = answered_conns cs"
  "j < length cs \<Longrightarrow> outbox s \<noteq> [] \<Longrightarrow> answered_conns (cs[j := s]) = insert j (answered_conns cs)"
  by (auto simp: answered_conns_def nth_append nth_list_update less_Suc_eq split: if_splits)

text \<open>Connections that have not answered do not matter; one more answer takes the next number.\<close>

lemma numbering_cong:
  assumes "numbering c num cs" and "answered_conns ds = answered_conns cs"
    and "\<And>i. i \<in> answered_conns cs \<Longrightarrow> outbox (ds ! i) = outbox (cs ! i)"
  shows "numbering c num ds"
  using assms by (auto simp: numbering_def)

lemma bij_betw_extend:
  assumes "bij_betw f A {1..n}" and "j \<notin> A"
  shows "bij_betw (f(j := Suc n)) (insert j A) {1..Suc n}"
proof -
  have "bij_betw (f(j := Suc n)) A {1..n}"
    using assms by (auto intro: bij_betw_cong [THEN iffD1, rotated])
  from notIn_Un_bij_betw [OF assms(2) _ this] show ?thesis by (simp add: atLeastAtMostSuc_conv)
qed

lemma numbering_next:
  assumes "numbering c num cs" and "j < length cs" and "outbox (cs ! j) = []"
    and "outbox s = [m]" and "rs_result m = status_ok"
    and "rs_body m = count_page (c + word_of_nat (Suc (card (answered_conns cs))))"
  shows "numbering c (num(j := Suc (card (answered_conns cs)))) (cs[j := s])"
proof -
  have j: "j \<notin> answered_conns cs" using assms(3) by (simp add: answered_conns_def)
  have "bij_betw (num(j := Suc (card (answered_conns cs)))) (insert j (answered_conns cs))
      {1..Suc (card (answered_conns cs))}"
    using assms(1) j by (intro bij_betw_extend) (simp_all add: numbering_def)
  then show ?thesis
    using assms j by (auto simp: numbering_def)
qed

section \<open>Every step keeps it\<close>

lemma client_request_counts: "asks_count (beast_request.truncate (client_request agent))"
  by (simp add: asks_count_def client_request_def set_request_field_def Let_def beast_request.truncate_def)

lemma beast_client_started:
  assumes "beast_client_main os agent c0 = Some c" and "bc_error c = None"
  shows "bc_phase c = Bc_write"
  using assms
  by (auto simp: beast_client_main_def bc_defs exec_simps split: option.splits prod.splits sum.splits)

text \<open>A completion that writes is the read of the client's request, and what it writes is the next page.\<close>

lemma handler_writes:
  assumes "settled s" and "outstanding e s" and "arrives e c" and "bc_sent c = [client_request agent]"
    and "outbox (exec (beast_handler os now e) s) \<noteq> outbox s"
  obtains m where "outbox s = []" and "outbox (exec (beast_handler os now e) s) = [m]"
    and "rs_result m = status_ok" and "rs_body m = count_page (counter s + 1)"
    and "counter (exec (beast_handler os now e) s) = counter s + 1"
proof -
  have e: "request (exec (beast_handler os now e) s) = beast_request.truncate (client_request agent)"
  proof (cases e)
    case (Request_read ec rq)
    with assms(3-5) show ?thesis
      by (cases "failed ec") (simp_all add: exec_simps process_request_def write_response_def Let_def
          split: prod.split)
  qed (use assms(5) in \<open>simp_all add: exec_simps pipe_ops_fields split: if_splits\<close>)
  from handler_effect(2) [OF assms(1,2), of os now] assms(5) obtain m
    where m: "outbox s = []" "outbox (exec (beast_handler os now e) s) = [m]"
      "answers now (counter s) (beast_request.truncate (client_request agent)) m"
      "counter (exec (beast_handler os now e) s) = counter s + 1"
    using client_request_counts by (auto simp: e)
  then show ?thesis
    using that client_request_counts [of agent] by (auto simp: answers_def asks_count_def)
qed

lemma world_connects:
  assumes "world_inv c agent render w" and "beast_client_main os agent c0 = Some cl" and "bc_error cl = None"
    and "bc_sent c0 = []" and "bc_printed c0 = []" and "new_connection s"
  shows "world_inv c agent render (w\<lparr>service := on_connection (length (conns (service w))) beast_start
      ((service w)\<lparr>conns := conns (service w) @ [s]\<rparr>), clients := clients w @ [cl]\<rparr>)"
proof -
  let ?cs = "conns (service w)" and ?s = "exec beast_start (s\<lparr>counter := shared_count (service w)\<rparr>)"
  note s = settled_started [OF assms(6), of "shared_count (service w)"]
  have "client_ok agent render ?s cl"
    using beast_client_connected [OF assms(2,3)] beast_client_started [OF assms(2,3)] assms(4,5)
    by (simp add: client_ok_def)
  moreover obtain num where "numbering c num ?cs" using assms(1) by (auto simp: world_inv_def)
  then have "numbering c num (?cs @ [?s])"
    by (rule numbering_cong) (simp_all add: s nth_append, simp add: answered_conns_def)
  ultimately show ?thesis
    using assms(1) s by (auto simp: world_inv_def on_connection_def Let_def list_all2_appendI)
qed

lemma world_client:
  assumes "world_inv c agent render w" and "i < length (clients w)"
    and "client_ok agent render (conn w i) (clients w ! i) \<Longrightarrow> client_ok agent render (conn w i) cl"
  shows "world_inv c agent render (w\<lparr>clients := (clients w)[i := cl]\<rparr>)"
  using assms by (auto simp: world_inv_def list_all2_conv_all_nth nth_list_update)

lemma world_server:
  assumes "world_inv c agent render w" and "i < length (clients w)" and "outstanding e (conn w i)"
    and "arrives e (clients w ! i)"
  shows "world_inv c agent render (w\<lparr>service := on_connection i (beast_handler os now e) (service w)\<rparr>)"
proof -
  let ?cs = "conns (service w)" and ?s = "(conn w i)\<lparr>counter := shared_count (service w)\<rparr>"
  let ?next = "exec (beast_handler os now e) ?s" and ?n = "card (answered_conns (conns (service w)))"
  have len: "i < length ?cs" and ok: "client_ok agent render (conn w i) (clients w ! i)"
    using assms(1,2) by (auto simp: world_inv_def list_all2_conv_all_nth)
  have inv: "list_all2 (client_ok agent render) ?cs (clients w)" "\<forall>s \<in> set ?cs. settled s"
    "shared_count (service w) = c + word_of_nat ?n"
    using assms(1) by (simp_all add: world_inv_def)
  obtain num where num: "numbering c num ?cs" using assms(1) by (auto simp: world_inv_def)
  have s: "settled ?s" "outstanding e ?s" using inv(2) len assms(3) by simp_all
  note effect = handler_effect [OF s, of os now]
  have settled: "\<forall>s \<in> set (?cs[i := ?next]). settled s"
    using inv(2) effect(1) set_update_subset_insert [of ?cs i ?next] by blast
  show ?thesis
  proof (cases "outbox ?next = outbox ?s")
    case True
    then have "client_ok agent render ?next (clients w ! i)" using ok by (simp add: client_ok_def)
    then have "list_all2 (client_ok agent render) (?cs[i := ?next]) (clients w)"
      using list_all2_update_cong [OF inv(1), of ?next "clients w ! i" i] by simp
    moreover have "numbering c num (?cs[i := ?next])"
      using num by (rule numbering_cong) (use True len in \<open>auto simp: nth_list_update\<close>)
    moreover have "counter ?next = counter ?s" using effect(2) True by auto
    ultimately show ?thesis
      using True len settled inv(3) by (auto simp: world_inv_def on_connection_def Let_def)
  next
    case False
    have "bc_sent (clients w ! i) = [client_request agent]" using ok by (simp add: client_ok_def)
    then obtain m where m: "outbox ?s = []" "outbox ?next = [m]" "rs_result m = status_ok"
      "rs_body m = count_page (counter ?s + 1)" "counter ?next = counter ?s + 1"
      using handler_writes [OF s assms(4) _ False] by blast
    then have "client_ok agent render ?next (clients w ! i)" using ok by (simp add: client_ok_def)
    then have "list_all2 (client_ok agent render) (?cs[i := ?next]) (clients w)"
      using list_all2_update_cong [OF inv(1), of ?next "clients w ! i" i] by simp
    moreover have "numbering c (num(i := Suc ?n)) (?cs[i := ?next])"
      by (rule numbering_next [OF num len]) (use m inv(3) in \<open>simp_all add: ac_simps\<close>)
    moreover have "card (insert i (answered_conns ?cs)) = Suc ?n"
      using m(1) by (simp add: answered_conns_def)
    ultimately show ?thesis
      using m len settled inv(3) by (auto simp: world_inv_def on_connection_def Let_def ac_simps)
  qed
qed

lemma world_step_inv:
  assumes "world_step os agent render w w'" and "world_inv c agent render w"
  shows "world_inv c agent render w'"
  using assms(1)
proof cases
  case (client_writes i ec)
  with assms(2) show ?thesis
    by (auto intro!: world_client simp: client_ok_def bc_defs exec_simps)
next
  case (client_reads i ec m)
  with assms(2) show ?thesis
    by (auto intro!: world_client simp: client_ok_def bc_defs exec_simps)
qed (use assms(2) in \<open>simp_all add: world_connects world_server\<close>)

lemma world_run_inv: "(world_step os agent render)\<^sup>*\<^sup>* (world_new c) w \<Longrightarrow> world_inv c agent render w"
proof (induction rule: rtranclp_induct)
  case base
  show ?case by (simp add: world_inv_def world_new_def service_new_def numbering_def bij_betw_def)
next
  case (step w w')
  from step.hyps(2) step.IH show ?case by (rule world_step_inv)
qed

text \<open>
  C34: clients and server together.  In every state that any number of clients can reach over their
  pipes, however the connections interleave and whatever fails: the connections that have answered
  are numbered from one on without gap or repetition, and a client either has printed nothing and
  not succeeded, or has exited successfully, its connection has answered, and it printed exactly the
  page with the number of its connection, a success.
\<close>

theorem clients_print_their_numbers:
  assumes "(world_step os agent render)\<^sup>*\<^sup>* (world_new c) w"
  shows "\<exists>num. bij_betw num {i. i < length (clients w) \<and> outbox (conn w i) \<noteq> []}
        {1..card {i. i < length (clients w) \<and> outbox (conn w i) \<noteq> []}} \<and>
      (\<forall>i < length (clients w). bc_printed (clients w ! i) = [] \<and> bc_phase (clients w ! i) \<noteq> Bc_exit True \<or>
        (\<exists>m. outbox (conn w i) = [m] \<and> rs_result m = status_ok \<and>
          rs_body m = count_page (c + word_of_nat (num i)) \<and>
          bc_printed (clients w ! i) = render m @ nl \<and> bc_phase (clients w ! i) = Bc_exit True))"
proof -
  have inv: "list_all2 (client_ok agent render) (conns (service w)) (clients w)"
    using world_run_inv [OF assms] by (simp add: world_inv_def)
  then have len: "length (conns (service w)) = length (clients w)" by (rule list_all2_lengthD)
  obtain num where num: "numbering c num (conns (service w))"
    using world_run_inv [OF assms] by (auto simp: world_inv_def)
  then have "bij_betw num {i. i < length (clients w) \<and> outbox (conn w i) \<noteq> []}
      {1..card {i. i < length (clients w) \<and> outbox (conn w i) \<noteq> []}}"
    by (simp add: numbering_def answered_conns_def len)
  then show ?thesis
    using inv num len
    by (intro exI [of _ num]) (fastforce simp: list_all2_conv_all_nth client_ok_def numbering_def answered_conns_def)
qed

text \<open>Two clients connect; the second is answered first and prints the first number.\<close>

definition sample_beast_client :: beast_client where
  "sample_beast_client = \<lparr>trace = [], violations = [], pipe_handle = INVALID_HANDLE_VALUE, bc_sent = [],
     bc_phase = Bc_write, bc_printed = [], bc_error = None\<rparr>"

lemma sample_beast_client_connects:
  "\<exists>c. beast_client_main numbering_pipe_os agent sample_beast_client = Some c \<and> bc_error c = None"
proof -
  have "open_loop numbering_pipe_os pipe_name 20000 sample_beast_client =
      Some (Inr 1, exec (try_open numbering_pipe_os pipe_name 20000) sample_beast_client)"
    by (subst open_loop.simps) (simp add: try_open_def exec_simps)
  then show ?thesis
    by (simp add: beast_client_main_def pipe_connect_throwing_def pipe_connect_def client_connect_def
        stream_assign_def exec_simps run_state_exec_result is_open_def sample_beast_client_def
        bc_defs truthy_def dword_def failed_def try_open_def)
qed

theorem clients_print_their_numbers_witness:
  "\<exists>w. (world_step numbering_pipe_os ''agent'' rs_body)\<^sup>*\<^sup>* (world_new 7) w \<and> length (clients w) = 2 \<and>
     bc_printed (clients w ! 0) = [] \<and> bc_printed (clients w ! 1) = count_page 8 @ nl"
proof -
  let ?os = numbering_pipe_os
  obtain c where c: "beast_client_main ?os ''agent'' sample_beast_client = Some c" "bc_error c = None"
    using sample_beast_client_connects by blast
  have sent: "bc_sent c = [client_request ''agent'']" "bc_printed c = []" "bc_phase c = Bc_write"
    using beast_client_connected [OF c] beast_client_started [OF c] by (simp_all add: sample_beast_client_def)
  have new: "new_connection sample_connection" by (simp add: new_connection_def sample_connection_def)
  let ?open = "\<lambda>w. w\<lparr>service := on_connection (length (conns (service w))) beast_start
      ((service w)\<lparr>conns := conns (service w) @ [sample_connection]\<rparr>), clients := clients w @ [c]\<rparr>"
  let ?rq = "beast_request.truncate (client_request ''agent'')"
  define w where "w = ?open (?open (world_new 7))"
  define w1 where "w1 = w\<lparr>clients := (clients w)[1 := exec (bc_wrote 0) (clients w ! 1)]\<rparr>"
  define w2 where "w2 = w1\<lparr>service := on_connection 1 (beast_handler ?os 0 (Request_read 0 ?rq)) (service w1)\<rparr>"
  have w: "clients w = [c, c]" "reading (conn w (Suc 0))" "length (conns (service w)) = 2" "outbox (conn w 0) = []"
    "outbox (conn w (Suc 0)) = []"
    by (simp_all add: w_def on_connection_def Let_def world_new_def service_new_def beast_start_def
        read_request_def check_deadline_def exec_simps sample_connection_def)
  have w1: "clients w1 = [c, exec (bc_wrote 0) c]" "service w1 = service w"
    by (simp_all add: w1_def w)
  have connects: "world_step ?os ''agent'' rs_body v (?open v)" for v
    by (rule connects [OF c _ _ new]) (simp_all add: sample_beast_client_def)
  have "world_step ?os ''agent'' rs_body w w1"
    unfolding w1_def by (rule client_writes) (simp_all add: w sent)
  moreover have "world_step ?os ''agent'' rs_body w1 w2"
    unfolding w2_def by (rule server_completes) (simp_all add: w1 w sent bc_defs exec_simps failed_def)
  ultimately have run2: "(world_step ?os ''agent'' rs_body)\<^sup>*\<^sup>* (world_new 7) w2"
    using connects [of "world_new 7"] connects [of "?open (world_new 7)"] unfolding w_def
    by (meson converse_rtranclp_into_rtranclp r_into_rtranclp)
  have "outbox (conn w2 1) \<noteq> []"
    by (simp add: w2_def w1 on_connection_def Let_def w process_request_def write_response_def exec_simps
        failed_def split: prod.split)
  moreover have "settled (conn w2 1)"
    using world_run_inv [OF run2] by (simp add: world_inv_def w2_def w1 w)
  ultimately obtain m where m: "outbox (conn w2 1) = [m]" by (auto simp: settled_def)
  have w2: "clients w2 = [c, exec (bc_wrote 0) c]" "outbox (conn w2 0) = []"
    by (simp_all add: w2_def w1 w)
  define w3 where "w3 = w2\<lparr>clients := (clients w2)[1 := exec (bc_received rs_body 0 m) (clients w2 ! 1)]\<rparr>"
  have w3: "clients w3 = [c, exec (bc_received rs_body 0 m) (exec (bc_wrote 0) c)]" "service w3 = service w2"
    by (simp_all add: w3_def w2)
  have "world_step ?os ''agent'' rs_body w2 w3"
    unfolding w3_def by (rule client_reads) (use m in \<open>simp_all add: w2 bc_defs exec_simps failed_def\<close>)
  with run2 have run: "(world_step ?os ''agent'' rs_body)\<^sup>*\<^sup>* (world_new 7) w3" by simp
  have "{i. i < length (clients w3) \<and> outbox (conn w3 i) \<noteq> []} = {1}"
    using m by (auto simp: w3 w2 less_Suc_eq)
  moreover have "bc_printed (clients w3 ! 1) \<noteq> []"
    by (simp add: w3 bc_defs exec_simps failed_def)
  moreover have "length (clients w3) = 2" by (simp add: w3)
  ultimately have "bc_printed (clients w3 ! 1) = count_page 8 @ nl"
    using clients_print_their_numbers [OF run] by (auto simp: bij_betw_def)
  then show ?thesis using run sent by (intro exI [of _ w3]) (simp add: w3)
qed

end
