(* ===== verification/Echo_Coro.thy ===== *)
theory Echo_Coro
  imports Echo_Client
begin

text \<open>
  \<^verbatim>\<open>examples/named_pipe/echoserver_coro.cpp\<close>: the echo server as two coroutines.  A coroutine is
  suspended in one of its \<open>co_await\<close>s and resumed by the completion of the operation it awaits;
  with \<open>use_awaitable\<close> a failed operation throws there.  \<open>detached\<close> discards what escapes.
\<close>

section \<open>echo\<close>

text \<open>Where the coroutine is suspended, or that it has ended.\<close>

datatype echo_phase = Awaiting_read | Awaiting_write | Echo_ended

record echo_coro = named_pipe +
  cdata :: string
  cphase :: echo_phase

definition set_cphase :: "echo_phase \<Rightarrow> ('z echo_coro_scheme, unit) state" where
  "set_cphase p = modify (\<lambda>s. s\<lparr>cphase := p\<rparr>)"

definition echo_await_read :: "pipe_os \<Rightarrow> ('z echo_coro_scheme, unit) state" where
  "echo_await_read os = do {
     h \<leftarrow> gets pipe_handle;
     _ \<leftarrow> invoke os (Stream_read h max_length);
     set_cphase Awaiting_read
   }"

definition echo_await_write :: "pipe_os \<Rightarrow> nat \<Rightarrow> ('z echo_coro_scheme, unit) state" where
  "echo_await_write os n = do {
     h \<leftarrow> gets pipe_handle;
     d \<leftarrow> gets cdata;
     _ \<leftarrow> invoke os (Stream_write h (take n d));
     set_cphase Awaiting_write
   }"

text \<open>The exception is caught and printed; the parameter \<open>socket\<close> is destroyed with the frame.\<close>

definition echo_catch :: "pipe_os \<Rightarrow> ('z echo_coro_scheme, unit) state" where
  "echo_catch os = do {
     openp \<leftarrow> gets is_open;
     only_if openp (stream_close os);
     set_cphase Echo_ended
   }"

definition echo_start :: "pipe_os \<Rightarrow> ('z echo_coro_scheme, unit) state" where
  "echo_start os = echo_await_read os"

definition echo_resume :: "pipe_os \<Rightarrow> session_event \<Rightarrow> ('z echo_coro_scheme, unit) state" where
  "echo_resume os e = do {
     p \<leftarrow> gets cphase;
     (case (p, e) of
        (Awaiting_read, Read_done ec xs) \<Rightarrow> do {
          modify (\<lambda>s. s\<lparr>cdata := xs @ drop (length xs) (cdata s)\<rparr>);
          if failed ec then echo_catch os else echo_await_write os (length xs) }
      | (Awaiting_write, Write_done ec) \<Rightarrow>
          if failed ec then echo_catch os else echo_await_read os
      | _ \<Rightarrow> ret ())
   }"

section \<open>listener\<close>

text \<open>
  The loop of \<open>listener\<close>: each round accepts, spawns \<open>echo\<close> with the pipe and goes on.  An error
  is thrown out of the coroutine, which ends; the pipe handed over with it is destroyed.
\<close>

definition listener_accept :: "pipe_os \<Rightarrow> (pipe_server, unit) state" where
  "listener_accept os = do {
     ep \<leftarrow> gets endpoint;
     r \<leftarrow> async_accept_move os ep;
     (case r of
        Move_started \<Rightarrow> set_waiting True
      | Move_threw x \<Rightarrow> modify (\<lambda>s. s\<lparr>crashed := crashed s @ [x]\<rparr>)
      | Move_handler_called ec h \<Rightarrow> do {
          destroy_pipe os h;
          modify (\<lambda>s. s\<lparr>crashed := crashed s @ [ec]\<rparr>) })
   }"

definition listener_accepted :: "pipe_os \<Rightarrow> error_code \<Rightarrow> (pipe_server, unit) state" where
  "listener_accepted os ec = do {
     set_waiting False;
     h \<leftarrow> move_pipe;
     if failed ec then do {
       destroy_pipe os h;
       modify (\<lambda>s. s\<lparr>crashed := crashed s @ [ec]\<rparr>) }
     else do {
       make_session h;
       listener_accept os }
   }"

section \<open>The coroutine and the session\<close>

text \<open>The reads and writes of a history, in order.\<close>

fun stream_io :: "pipe_call \<Rightarrow> pipe_call option" where
  "stream_io (Stream_read h n) = Some (Stream_read h n)"
| "stream_io (Stream_write h xs) = Some (Stream_write h xs)"
| "stream_io _ = None"

abbreviation "io_of s \<equiv> observe stream_io (trace s)"

text \<open>Completions of the operation that is outstanding: a read, or else a write.\<close>

fun completes :: "bool \<Rightarrow> session_event list \<Rightarrow> bool" where
  "completes r [] = True"
| "completes True (Read_done ec xs # es) = (if failed ec then es = [] else completes False es)"
| "completes False (Write_done ec # es) = (if failed ec then es = [] else completes True es)"
| "completes _ _ = False"

definition coro_run :: "pipe_os \<Rightarrow> session_event list \<Rightarrow> 'z echo_coro_scheme \<Rightarrow> 'z echo_coro_scheme" where
  "coro_run os es s = fold (\<lambda>e. exec (echo_resume os e)) es s"

definition same_io :: "bool \<Rightarrow> 'z echo_coro_scheme \<Rightarrow> 'y echo_session_scheme \<Rightarrow> bool" where
  "same_io r c s \<longleftrightarrow> io_of c = io_of s \<and> pipe_handle c = pipe_handle s \<and> cdata c = sdata s \<and>
     cphase c = (if r then Awaiting_read else Awaiting_write)"

lemma same_io_read:
  assumes "same_io True c s" and "\<not> failed ec"
  shows "same_io False (exec (echo_resume os (Read_done ec xs)) c) (exec (session_resume os' (Read_done ec xs)) s)"
  using assms
  by (simp add: same_io_def echo_resume_def exec_simps echo_await_write_def set_cphase_def session_do_write_def)

lemma same_io_write:
  assumes "same_io False c s" and "\<not> failed ec"
  shows "same_io True (exec (echo_resume os (Write_done ec)) c) (exec (session_resume os' (Write_done ec)) s)"
  using assms
  by (simp add: same_io_def echo_resume_def exec_simps echo_await_read_def set_cphase_def session_do_read_def)

lemma same_io_failed:
  assumes "same_io r c s" and "failed ec"
  shows "r \<Longrightarrow> io_of (exec (echo_resume os (Read_done ec xs)) c) = io_of (exec (session_resume os' (Read_done ec xs)) s)"
    and "\<not> r \<Longrightarrow> io_of (exec (echo_resume os (Write_done ec)) c) = io_of (exec (session_resume os' (Write_done ec)) s)"
  using assms
  by (simp_all add: same_io_def echo_resume_def exec_simps echo_catch_def set_cphase_def stream_close_def)

lemma same_io_runs:
  "same_io r c s \<Longrightarrow> completes r es \<Longrightarrow> io_of (coro_run os es c) = io_of (session_run os' es s)"
proof (induction r es arbitrary: c s rule: completes.induct)
  case (2 ec xs es)
  then show ?case
    using same_io_read [of c s ec os xs os'] same_io_failed(1) [of True c s ec os xs os']
    by (cases "failed ec") (auto simp: coro_run_def session_run_def)
next
  case (3 ec es)
  then show ?case
    using same_io_write [of c s ec os os'] same_io_failed(2) [of False c s ec os os']
    by (cases "failed ec") (auto simp: coro_run_def session_run_def)
qed (simp_all add: coro_run_def session_run_def same_io_def)

text \<open>
  C36: the coroutine \<open>echo\<close> and the callback \<open>session\<close> are equivalent: on the same pipe and buffer,
  for every sequence of completions of the operation that is outstanding, errors included, they
  ask for the same reads and the same writes in the same order.
\<close>

theorem coroutine_equals_session:
  assumes "io_of c = io_of s" and "pipe_handle c = pipe_handle s" and "cdata c = sdata s"
    and "completes True es"
  shows "io_of (coro_run os es (exec (echo_start os) c)) = io_of (session_run os' es (exec (session_start os') s))"
proof (rule same_io_runs [OF _ assms(4)])
  show "same_io True (exec (echo_start os) c) (exec (session_start os') s)"
    using assms(1-3)
    by (simp add: same_io_def echo_start_def echo_await_read_def set_cphase_def session_start_def
        session_do_read_def exec_simps)
qed

theorem coroutine_equals_session_witness:
  "io_of (coro_run numbering_pipe_os [Read_done 0 ''ab'', Write_done 0, Read_done 109 []]
      (exec (echo_start numbering_pipe_os) \<lparr>trace = [], violations = [], pipe_handle = 7,
        cdata = replicate 4 (CHR 0x00), cphase = Echo_ended\<rparr>)) =
   [Stream_read 7 1024, Stream_write 7 ''ab'', Stream_read 7 1024]"
proof -
  let ?c = "\<lparr>trace = [], violations = [], pipe_handle = 7, cdata = replicate 4 (CHR 0x00), cphase = Echo_ended\<rparr>"
  let ?s = "\<lparr>trace = [], violations = [], pipe_handle = 7, sdata = replicate 4 (CHR 0x00)\<rparr> :: echo_session"
  let ?es = "[Read_done 0 ''ab'', Write_done 0, Read_done 109 []]"
  have "completes True ?es" by (simp add: failed_def)
  moreover have "io_of (session_run numbering_pipe_os ?es (exec (session_start numbering_pipe_os) ?s)) =
      [Stream_read 7 1024, Stream_write 7 ''ab'', Stream_read 7 1024]"
    by (simp add: session_run_def session_start_def session_do_read_def session_do_write_def exec_simps failed_def)
  ultimately show ?thesis
    using coroutine_equals_session [of ?c ?s ?es numbering_pipe_os numbering_pipe_os] by simp
qed

section \<open>The listener stops at the first error\<close>

text \<open>Connections complete one after the other while the listener awaits one.\<close>

definition listener_run :: "pipe_os \<Rightarrow> error_code list \<Rightarrow> pipe_server \<Rightarrow> pipe_server" where
  "listener_run os ecs s = fold (\<lambda>ec s. if waiting s then exec (listener_accepted os ec) s else s) ecs s"

definition pipes_available :: "pipe_os \<Rightarrow> bool" where
  "pipes_available os \<longleftrightarrow> pipes_usable os \<and> (\<forall>t ep. rv (os t (create_call ep)) \<noteq> INVALID_HANDLE_VALUE)"

lemma listener_accept_listens:
  assumes "pipes_available os" and "server_inv s" and "\<not> is_open s"
  shows "server_inv (exec (listener_accept os) s) \<and> is_open (exec (listener_accept os) s)"
proof -
  have usable: "pipes_usable os" using assms(1) by (simp add: pipes_available_def)
  have res: "result (async_accept_move os (endpoint s)) s = Move_started"
    using assms(1,3)
    by (simp add: pipes_available_def pipes_usable_def async_accept_move_def server_create_def
        stream_assign_def exec_simps is_open_def)
  from started_attempt [OF usable assms(2,3) res] res show ?thesis
    by (simp add: listener_accept_def exec_simps)
qed

lemma listener_accepted_ok:
  assumes "pipes_available os" and "server_inv s" and "is_open s" and "\<not> failed ec"
  shows "server_inv (exec (listener_accepted os ec) s) \<and> is_open (exec (listener_accepted os ec) s)"
proof -
  have "exec (listener_accepted os ec) s = exec (listener_accept os) (exec (release_pipe os ec) s)"
    using assms(4) by (simp add: listener_accepted_def release_pipe_def exec_simps)
  then show ?thesis
    using listener_accept_listens [OF assms(1)] release_pipe_step [OF assms(2,3)] by simp
qed

lemma listener_accepted_failed:
  assumes "server_inv s" and "is_open s" and "failed ec"
  shows "pipes_accounted (exec (listener_accepted os ec) s) \<and> \<not> waiting (exec (listener_accepted os ec) s) \<and>
    \<not> is_open (exec (listener_accepted os ec) s)"
  using assms
  by (simp add: listener_accepted_def exec_simps set_waiting_def move_pipe_def destroy_pipe_def
      server_inv_def pipes_accounted_def is_open_def)

lemma listener_ended: "\<not> waiting s \<Longrightarrow> listener_run os ecs s = s"
  by (induction ecs) (simp_all add: listener_run_def)

lemma listener_run_result:
  "pipes_available os \<Longrightarrow> server_inv s \<Longrightarrow> is_open s \<Longrightarrow>
   pipes_accounted (listener_run os ecs s) \<and>
   (waiting (listener_run os ecs s) \<longleftrightarrow> (\<forall>ec \<in> set ecs. \<not> failed ec)) \<and>
   (waiting (listener_run os ecs s) \<longleftrightarrow> is_open (listener_run os ecs s))"
proof (induction ecs arbitrary: s)
  case (Cons ec ecs)
  have "waiting s" using Cons.prems by (simp add: server_inv_def)
  then have run: "listener_run os (ec # ecs) s = listener_run os ecs (exec (listener_accepted os ec) s)"
    by (simp add: listener_run_def)
  show ?case
  proof (cases "failed ec")
    case True
    from listener_accepted_failed [OF Cons.prems(2,3) True] show ?thesis
      unfolding run using True by (simp add: listener_ended)
  next
    case False
    note ok = listener_accepted_ok [OF Cons.prems False]
    from Cons.IH [OF Cons.prems(1) conjunct1 [OF ok] conjunct2 [OF ok]] False show ?thesis
      unfolding run by auto
  qed
qed (simp add: listener_run_def server_inv_def)

text \<open>
  C37: the listener listens exactly as long as no connection fails: even when every pipe can be
  created, the first failed connection ends it for good, and nothing reports it, since the
  coroutine was detached.  No pipe leaks: each one created is with an \<open>echo\<close>, closed, or
  awaited on.
\<close>

theorem listener_survives_iff:
  assumes "pipes_available os"
  shows "let s = listener_run os ecs (exec (listener_accept os) (server_new ep))
    in (waiting s \<longleftrightarrow> (\<forall>ec \<in> set ecs. \<not> failed ec)) \<and> (waiting s \<longleftrightarrow> is_open s) \<and>
       mset (created (trace s)) = mset (sessions s) + mset (closed s) +
         mset (if is_open s then [pipe_handle s] else [])"
proof -
  have ok: "server_inv (exec (listener_accept os) (server_new ep)) \<and> is_open (exec (listener_accept os) (server_new ep))"
    using listener_accept_listens [OF assms] server_new_inv by blast
  from listener_run_result [OF assms conjunct1 [OF ok] conjunct2 [OF ok], of ecs] show ?thesis
    unfolding Let_def pipes_accounted_def by blast
qed

text \<open>A platform that always has a pipe.\<close>

fun giving_pipe_os :: pipe_os where
  "giving_pipe_os t (CreateNamedPipe _ _ _ _ _ _) = answer 5"
| "giving_pipe_os t (Stream_assign _) = answer 0"
| "giving_pipe_os t _ = answer 997"

lemma giving_available: "pipes_available giving_pipe_os"
  by (simp add: pipes_available_def pipes_usable_def pipe_errors_reported_def dword_def failed_def)

theorem listener_survives_iff_witness:
  "\<not> waiting (listener_run giving_pipe_os [0, 109, 0] (exec (listener_accept giving_pipe_os) (server_new ''p''))) \<and>
   waiting (listener_run giving_pipe_os [0, 0] (exec (listener_accept giving_pipe_os) (server_new ''p'')))"
  using listener_survives_iff [OF giving_available, of "[0, 109, 0]" "''p''"]
    listener_survives_iff [OF giving_available, of "[0, 0]" "''p''"]
  by (simp add: Let_def failed_def)

section \<open>The coroutine is an echo server\<close>

definition coro_ready :: "'z echo_coro_scheme \<Rightarrow> bool" where
  "coro_ready s \<longleftrightarrow> length (cdata s) = max_length \<and>
     (case cphase s of
        Awaiting_read \<Rightarrow> (\<exists>h. pending_op s = Stream_read h max_length)
      | Awaiting_write \<Rightarrow> (\<exists>h d. pending_op s = Stream_write h d)
      | Echo_ended \<Rightarrow> False)"

interpretation coro_peer: echo_peer pending_op "\<lambda>e. exec (echo_resume os e)" coro_ready
  by unfold_locales
    (auto simp: coro_ready_def pending_op_def echo_resume_def echo_await_read_def echo_await_write_def
      set_cphase_def exec_simps split: echo_phase.splits)

lemma coro_started:
  "length (cdata s) = max_length \<Longrightarrow> coro_ready (exec (echo_start os) s)"
  "pending_op (exec (echo_start os) s) = Stream_read (pipe_handle s) max_length"
  by (simp_all add: coro_ready_def echo_start_def echo_await_read_def set_cphase_def exec_simps pending_op_def)

text \<open>So the client is served by the coroutine as it is by the session.\<close>

theorem echo_client_of_coroutine:
  assumes "client_main os input c0 = Some c" and "thrown c = None" and "printed c0 = []"
    and "length (cdata s) = max_length"
    and "echo_reach os pending_op (\<lambda>e. exec (echo_resume os e)) (echo_connected c (exec (echo_start os) s)) w"
  shows "thrown (w_client w) = None \<and>
    (\<forall>w'. echo_step os pending_op (\<lambda>e. exec (echo_resume os e)) w w' \<longrightarrow>
       echo_work pending_op w' < echo_work pending_op w) \<and>
    ((\<nexists>w'. echo_step os pending_op (\<lambda>e. exec (echo_resume os e)) w w') \<longleftrightarrow> cl_phase (w_client w) = Cl_end) \<and>
    (cl_phase (w_client w) = Cl_end \<longrightarrow> printed (w_client w) = ''Enter message: Reply is: '' @
       take (strlen (getline max_length input)) (getline max_length input) @ [CHR 0x0A])"
  using coro_peer.conversation [OF coro_peer.connected_inv [OF assms(1-3) coro_started(1) [OF assms(4)]
      coro_started(2)] assms(5)]
  by (simp add: line_of_def)

end
