(* ===== verification/Spec2Isabelle.thy ===== *)
theory Spec2Isabelle
  imports Winhttp_Objects Winhttp_Lifetime Http_Url Http_Exchange Http_Connection
    Http_Shutdown Beast_World Echo_Coro
begin

text \<open>
  A verification development for winasio, a header-only C++ library that puts Windows HTTP
  clients (WinHTTP), HTTP servers (http.sys) and named pipes behind the interface of Boost.Asio.
  File names are relative to \<^verbatim>\<open>include/boost/winasio\<close> unless they start with \<^verbatim>\<open>examples\<close>.

  \<^bold>\<open>How the code is modelled.\<close>  The library is a thin layer over entry points that are not its own:
  Win32, WinHTTP, http.sys, and asio itself.  Each component names every such entry point as a
  constructor of a call datatype, and its definitions take an oracle \<open>os\<close> that answers a call from
  the complete history of earlier calls and answers.  So a theorem about every \<open>os\<close> holds for
  every behaviour of the platform, and the history is part of the state, which makes the calls,
  their order and their arguments observable.  C++ objects are records, inheritance is record
  extension, member functions are terms of the state monad, error codes in out-parameters are
  results, machine integers are words of their width.  A \<open>BOOST_ASSERT\<close> whose condition is false
  adds to the list \<open>violations\<close> and execution goes on.  Exceptions are left values of a sum.
  Asio's completion tokens are the functions that run when an operation completes.  Two kinds of
  composition occur: a handler that is called inside the initiating function is called inside
  its definition, and a handler that runs later is run by an event of a driver (\<open>drive\<close>,
  \<open>machine_step\<close>, \<open>serving\<close>, \<open>connection_run\<close>, \<open>movable_run\<close>, \<open>echo_step\<close>,
  \<open>service_step\<close>, \<open>world_step\<close>, \<open>life_step\<close>) that decides in which order
  completions arrive.

  \<^bold>\<open>The theories.\<close>
  \<^item> \<open>Prelude\<close>: integers, error codes, answers, the state with its history, the monadic vocabulary,
    observations of a history (\<open>observe\<close>, \<open>adds\<close>) and framing (\<open>keeps\<close>).
  \<^item> \<open>Winhttp_Handle\<close> (\<^verbatim>\<open>winhttp/winhttp.hpp\<close>): the owning handle and the session, connect and request
    handles.  The locale \<open>handle_opener\<close> is the contract of an opening function, interpreted for
    the three of them; from it follows that every handle is closed exactly once.
  \<^item> \<open>Winhttp_Objects\<close> (the same file): programs with any number of these objects, their scopes and
    parents.  The locale \<open>typed_opener\<close> extends \<open>handle_opener\<close> by the kind of handle; handles are
    used only while they are open and for the calls of their kind.
  \<^item> \<open>Winhttp_Headers\<close> (the same file): header queries, \<open>accept_types\<close>, \<open>headers\<close>, error texts,
    \<open>url_component\<close>.
  \<^item> \<open>Winhttp_Context\<close>, \<open>Winhttp_Request\<close> (\<^verbatim>\<open>winhttp/winhttp_asio.hpp\<close>): the request context with its
    event, the status callback, the two waiting operations, and the five asynchronous wrappers.
    The locale \<open>async_step\<close> is the contract of a wrapper up to its wait, interpreted five times.
  \<^item> \<open>Winhttp_Protocol\<close>: the interleavings of the thread that issues, the WinHTTP thread that calls
    back and the wait for the event, as a step relation; its invariant shows that results reach
    the right handler and that no wake-up is lost.
  \<^item> \<open>Winhttp_Lifetime\<close> (\<^verbatim>\<open>winhttp/winhttp_asio.hpp\<close>): the protocol when the handle is closed or the
    object destroyed, with the callbacks and waits that come after; when the context is no longer used.
  \<^item> \<open>Compose_Op\<close>: dynamic buffers by their documented laws, the driver, and the locale \<open>composed_op\<close>,
    the contract of a composed operation: linear use of \<open>self\<close>, an error ends it.
  \<^item> \<open>Winhttp_Compose\<close> (\<^verbatim>\<open>winhttp/winhttp_asio.hpp\<close>, \<^verbatim>\<open>winhttp/winhttp_stream.hpp\<close>) and \<open>Winhttp_Client\<close>
    (\<^verbatim>\<open>winhttp/client.hpp\<close>): the four composed operations on a request, each an interpretation of
    \<open>composed_op\<close>, and the initiating functions.  \<open>Winhttp_Exchange\<close> drives \<open>async_exec\<close> by the status
    callback, through the context and the wait, from the send to the end of the body.
  \<^item> \<open>Std_Map\<close>: \<open>std::map\<close> as the locale \<open>std_map\<close> and its interpretation on ordered entry lists.
  \<^item> \<open>Http_Convert\<close> (\<^verbatim>\<open>http/convert.hpp\<close>): request headers into maps, \<open>simple_request\<close>,
    \<open>simple_response\<close> and the \<open>HTTP_RESPONSE\<close> it builds, with what a receiver reads from it.
  \<^item> \<open>Http_Queue\<close> (\<^verbatim>\<open>http/basic_http_queue_handle.hpp\<close>): the overlapped operations, interpretations of
    \<open>overlapped_op\<close>; \<open>Http_Receive\<close> (\<^verbatim>\<open>http/http_asio.hpp\<close>): the two composed receives, again
    interpretations of \<open>composed_op\<close>.
  \<^item> \<open>Http_Url\<close> (\<^verbatim>\<open>http/http_initializer.hpp\<close>, \<^verbatim>\<open>http/http_major_version.hpp\<close>, \<^verbatim>\<open>http/http.hpp\<close>,
    \<^verbatim>\<open>http/http_url_handler.hpp\<close>, \<^verbatim>\<open>http/basic_http_url.hpp\<close>): initialisation and URL registration;
    the locale \<open>url_registrar\<close> has one interpretation per version of the API, and \<open>server_lifetime\<close>
    puts the objects of a server into their scopes.
  \<^item> \<open>Http_Context\<close>, \<open>Http_Controller\<close>, \<open>Http_Connection\<close> (\<^verbatim>\<open>http/basic_http_request_context.hpp\<close>,
    \<^verbatim>\<open>http/basic_http_controller.hpp\<close>, \<^verbatim>\<open>http/temp.hpp\<close>): many requests in flight at a time, each in a
    context of its own on which the receive operations run; routing, dispatch, the receive loops.
    \<open>Http_Stages\<close> follows one request through interleavings with others, up to the response; its
    locale \<open>context_server\<close>, the contract of a server over contexts, has two interpretations,
    the controller (\<open>Http_Exchange\<close>) and the chain of connections.  The theorem of this theory puts
    the first together with the registrations.  \<open>Http_Shutdown\<close> is what becomes of both when the
    queue is shut down; its locale \<open>arming_server\<close> extends \<open>context_server\<close> by the operations in
    flight and has the same two interpretations.
  \<^item> \<open>Named_Pipe\<close> (\<^verbatim>\<open>named_pipe/named_pipe.hpp\<close>, \<^verbatim>\<open>named_pipe/named_pipe_client_details.hpp\<close>) and
    \<open>Named_Pipe_Acceptor\<close> (\<^verbatim>\<open>named_pipe/named_pipe_acceptor.hpp\<close>, \<^verbatim>\<open>examples/named_pipe\<close>): pipes, the
    acceptor, the echo servers and their session.  \<open>Echo_Client\<close> (\<^verbatim>\<open>examples/named_pipe/echoclient.cpp\<close>):
    the client and a server at the two ends of one pipe, as a step relation; the locale \<open>echo_peer\<close> is
    the contract of an echo server, interpreted for the session and for the coroutine.  \<open>Echo_Coro\<close> (\<^verbatim>\<open>examples/named_pipe/echoserver_coro.cpp\<close>):
    the echo server as coroutines, equivalent to the session; \<open>Beast_Server\<close>
    (\<^verbatim>\<open>examples/named_pipe/http/beast_server.cpp\<close>): an HTTP server over pipes, \<open>Beast_Service\<close> its
    connections side by side, which share the count of requests, and \<open>Beast_Client\<close>
    (\<^verbatim>\<open>examples/named_pipe/http/beast_client.cpp\<close>) its client; \<open>Beast_World\<close> puts any number of
    clients together with that service.

  \<^bold>\<open>What the theorems show.\<close>  For the WinHTTP side: ownership, types and lifetimes of
  handles, the asynchronous protocol under every interleaving, cancellation, collection of a body,
  the complete exchange of \<open>async_exec\<close>, driven by completions and by the callbacks themselves, its
  error paths and its treatment of certificates, and bounds of what is read and sent.  For http.sys:
  settlement of overlapped operations, growth of the request buffer, complete bodies, round trips of
  headers and responses, routing as a refinement of the sequence of registrations, invariants of
  the two server loops, that each of them answers a request with what its handler made of it, and
  that a shutdown of the queue brings the connections to rest but never the controller.  For pipes: when connecting returns, what happens to the handles, the
  accounting of every pipe by the servers, that a line sent by the client comes back, and that the
  Beast server answers each connection and numbers the requests, and that every client prints its own number.  Some theorems show what the code does where it does
  not do what it means to: a URL component cannot be reused, a response cannot be built twice,
  a body of 4 GiB is cut off, a request object destroyed too early leaves its context in use,
  a synchronous \<open>ERROR_MORE_DATA\<close> fails an assertion, the controller outlives its queue, a failed connection stops the plain server
  or leaks a handle, and accepting may recurse for ever.

  \<^bold>\<open>Termination.\<close>  No fuel is used.  The loop of \<open>client_connect\<close> and the recursion of \<open>do_accept\<close>
  may not end; they are partial functions into \<open>option\<close>, where \<open>None\<close> is not returning, and the
  theorems say when they return.  Drivers recurse on the list of completions.

  \<^bold>\<open>Parameters.\<close>  Besides \<open>os\<close>: a dynamic buffer (\<open>dynbuf_ok\<close> states its documented laws, \<open>vector_ops\<close>
  satisfies them), the layout of \<open>HTTP_REQUEST\<close> in memory (\<open>layout_ok\<close>), \<open>WinHttpCrackUrl\<close>
  (\<open>crack_host_contract\<close>), user handlers as functions, and the values of uninitialised members.

  \<^bold>\<open>Not modelled.\<close>  Logging, and \<open>printf\<close> except where it comes between a call and \<open>GetLastError\<close>.
  Executors, and the association of handlers with them.  Lifetimes of C++ objects other than the
  handles, request objects and pipes above; where the code lets a reference outlive its object this is recorded in
  the findings of the project file.  \<^verbatim>\<open>named_pipe/named_pipe_protocol.hpp\<close> and
  \<^verbatim>\<open>named_pipe/named_pipe_server_details.hpp\<close> declare types only;
  \<^verbatim>\<open>http/detail/url_dispatch_tree.h\<close> is an unused stub; \<open>header::add_header\<close> cannot be instantiated.
  Of the examples, signal handling in \<^verbatim>\<open>examples/named_pipe/echoserver_coro.cpp\<close>.
\<close>

section \<open>A request from the wire to its handler and back\<close>


text \<open>A controller that echoes the body; the completions of a second request come in between.\<close>

definition echo_registrations :: "(nat \<times> wstring \<times> request_handler) list" where
  "echo_registrations = [(HttpVerbGET, L ''/a'', Some (\<lambda>rq. set_body (get_body_string rq)))]"

definition echo_controller :: controller where
  "echo_controller = sample_controller\<lparr>handlers := projr (register_all (L ''http://h'') echo_registrations [])\<rparr>"

definition echo_completions :: "(nat \<times> http_event) list" where
  "echo_completions = [(0, ERROR_MORE_DATA, 3000, ''Q*''), (0, 0, 4, ''Qabc''), (1, 6, 0, []),
     (0, 0, 2, ''ef''), (2, 6, 0, []), (0, ERROR_HANDLE_EOF, 1, ''g'')]"

lemma url_layout_ok: "layout_ok (url_layout url)"
  using sample_layout_ok by (simp add: url_layout_def layout_ok_def sample_layout_def)

abbreviation "started_echo os url \<equiv> exec (start os (url_layout url) (\<lambda>_. 0)) echo_controller"

lemma echo_started:
  "handlers (started_echo os url) = handlers echo_controller" "length (contexts (started_echo os url)) = 1"
  "head_awaited 1026 0 (contexts (started_echo os url) ! 0)"
  using next_request_awaits [OF url_layout_ok, of url "\<lambda>_. 0" echo_controller os]
  by (simp_all add: start_def next_request_frame echo_controller_def sample_controller_def
      url_layout_def sample_layout_def)


end
